theory Spec2Isabelle
  imports Complex_Main "HOL-Library.Word"
begin

section \<open>The frame-presentation lifecycle of VreApp (vre_app.cpp)\<close>

text \<open>
  The theory embeds \<^verbatim>\<open>src/VulkanRenderer/vre_app.cpp\<close>. The application object is a
  record of its members. Everything the file calls but does not define (the window, the
  device, the swap chain, the pipeline and the model classes, GLFW and Vulkan) is an
  external collaborator: every call to one of them is appended to a trace, in program
  order, and its answer is read from an environment of oracles that see the trace so
  far. A C++ exception is the left summand of the outcome, together with the state the
  object is left in; a loop that may spin forever returns an option.
\<close>

subsection \<open>Vulkan and GLFW data\<close>

text \<open>An opaque Vulkan handle; 0 is \<^verbatim>\<open>VK_NULL_HANDLE\<close>.\<close>

type_synonym handle = nat

definition VK_NULL_HANDLE :: handle where
  "VK_NULL_HANDLE = 0"

datatype VkResult =
    VK_SUCCESS
  | VK_NOT_READY
  | VK_TIMEOUT
  | VK_SUBOPTIMAL_KHR
  | VK_ERROR_OUT_OF_DATE_KHR
  | VK_ERROR_OUT_OF_HOST_MEMORY
  | VK_ERROR_OUT_OF_DEVICE_MEMORY
  | VK_ERROR_DEVICE_LOST
  | VK_ERROR_SURFACE_LOST_KHR
  | VK_ERROR_UNKNOWN

text \<open>
  \<^verbatim>\<open>VkExtent2D\<close>: two \<^verbatim>\<open>uint32_t\<close>. The program only compares them with 0 and
  converts them to \<^verbatim>\<open>float\<close>; no arithmetic that could wrap is done on them.
\<close>

record VkExtent2D =
  width :: nat
  height :: nat

text \<open>
  A \<^verbatim>\<open>float\<close> value is the rational number it denotes. The literal \<^verbatim>\<open>0.1f\<close> is
  the binary32 number nearest to one tenth, \<open>13421773 / 2^27\<close>; the other literals
  of the file are exact.
\<close>

type_synonym float = rat

definition float_0_1 :: float where
  "float_0_1 = 13421773 / 134217728"

datatype VkRect2D = VkRect2D (rect_offset: "int \<times> int") (rect_extent: VkExtent2D)

datatype VkViewport =
  VkViewport (vp_x: float) (vp_y: float) (vp_width: float) (vp_height: float)
    (vp_minDepth: float) (vp_maxDepth: float)

text \<open>\<^verbatim>\<open>VkClearValue\<close> is a union: the member that was written is the constructor.\<close>

datatype VkClearValue =
    ClearColor float float float float
  | ClearDepthStencil float nat

datatype VkSubpassContents = VK_SUBPASS_CONTENTS_INLINE

record VkRenderPassBeginInfo =
  rp_renderPass :: handle
  rp_framebuffer :: handle
  rp_renderArea :: VkRect2D
  rp_clearValues :: "VkClearValue list"

record PipelineConfigInfo =
  cfg_renderPass :: handle
  cfg_pipelineLayout :: handle

text \<open>A vertex of \<^verbatim>\<open>VreModel::Vertex\<close>: a 2D position and an RGB colour.\<close>

datatype Vertex = Vertex "float \<times> float" "float \<times> float \<times> float"

subsection \<open>The collaborating classes, as far as vre_app.cpp reads them\<close>

text \<open>
  \<^verbatim>\<open>VreSwapChain\<close>, through the four getters the file calls: \<^verbatim>\<open>imageCount()\<close>,
  \<^verbatim>\<open>getSwapChainExtent()\<close>, \<^verbatim>\<open>getRenderPass()\<close> and \<^verbatim>\<open>getFrameBuffer(int)\<close>.
\<close>

record VreSwapChain =
  imageCount :: nat
  swapChainExtent :: VkExtent2D
  renderPass :: handle
  getFrameBuffer :: "int \<Rightarrow> handle"

record VrePipeline =
  graphicsPipeline :: handle

record VreModel =
  vertexBuffer :: handle
  vertexCount :: nat

text \<open>
  What is put into a command buffer between \<^verbatim>\<open>vkBeginCommandBuffer\<close> and
  \<^verbatim>\<open>vkEndCommandBuffer\<close>. \<^verbatim>\<open>VrePipeline::bind\<close>, \<^verbatim>\<open>VreModel::bind\<close> and
  \<^verbatim>\<open>VreModel::draw\<close> are calls into the other classes and stand for the commands
  those record.
\<close>

datatype command =
    CmdBeginRenderPass VkRenderPassBeginInfo VkSubpassContents
  | CmdSetViewport nat "VkViewport list"
  | CmdSetScissor nat "VkRect2D list"
  | PipelineBind VrePipeline
  | ModelBind VreModel
  | ModelDraw VreModel
  | CmdEndRenderPass

text \<open>
  One entry of the trace per call to a collaborator, with the arguments the program
  passed and the answer it got.
\<close>

datatype event =
    GetExtent VkExtent2D
  | GlfwWaitEvents
  | GlfwPollEvents
  | ShoudClose bool
  | WasWindowResized bool
  | ResetWindowResizedFlag
  | VkDeviceWaitIdle
  | NewModel "Vertex list" bool
  | VkCreatePipelineLayout VkResult
  | NewSwapChain VkExtent2D bool bool
  | NewPipeline string string PipelineConfigInfo bool
  | VkAllocateCommandBuffers nat VkResult
  | VkFreeCommandBuffers "nat option" "handle list"
  | AcquireNextImage VkResult "32 word"
  | SubmitCommandBuffers handle "32 word" VkResult
  | VkBeginCommandBuffer handle VkResult
  | Cmd handle command
  | VkEndCommandBuffer handle VkResult

text \<open>
  The environment: what each collaborator answers, given everything that has happened.
  \<^item> \<open>newModel\<close>, \<open>newSwapChain\<close>, \<open>newPipeline\<close>: the constructors, \<open>None\<close> when
    the constructor throws. \<open>newSwapChain\<close> gets the extent and the previous swap chain.
  \<^item> \<open>vkCreatePipelineLayout\<close>: the result code and the handle written.
  \<^item> \<open>vkAllocateCommandBuffers\<close>: the result code, and the handle written to position
    \<open>i\<close> of the array.
  \<^item> \<open>acquireNextImage\<close>: the result code and the image index written.
\<close>

record env =
  getExtent :: "event list \<Rightarrow> VkExtent2D"
  wasWindowResized :: "event list \<Rightarrow> bool"
  shoudClose :: "event list \<Rightarrow> bool"
  newModel :: "event list \<Rightarrow> Vertex list \<Rightarrow> VreModel option"
  newSwapChain :: "event list \<Rightarrow> VkExtent2D \<Rightarrow> VreSwapChain option \<Rightarrow> VreSwapChain option"
  newPipeline :: "event list \<Rightarrow> PipelineConfigInfo \<Rightarrow> VrePipeline option"
  vkCreatePipelineLayout :: "event list \<Rightarrow> VkResult \<times> handle"
  vkAllocateCommandBuffers :: "event list \<Rightarrow> nat \<Rightarrow> VkResult \<times> (nat \<Rightarrow> handle)"
  acquireNextImage :: "event list \<Rightarrow> VkResult \<times> 32 word"
  submitCommandBuffers :: "event list \<Rightarrow> handle \<Rightarrow> 32 word \<Rightarrow> VkResult"
  vkBeginCommandBuffer :: "event list \<Rightarrow> handle \<Rightarrow> VkResult"
  vkEndCommandBuffer :: "event list \<Rightarrow> handle \<Rightarrow> VkResult"

subsection \<open>The application object\<close>

text \<open>
  The members of \<^verbatim>\<open>VreApp\<close> that vre_app.cpp touches. A \<^verbatim>\<open>unique_ptr\<close> is an
  option (\<open>None\<close> is \<^verbatim>\<open>nullptr\<close>); \<open>commandBuffers\<close> is the
  \<^verbatim>\<open>std::vector<VkCommandBuffer>\<close>; \<open>trace\<close> is the history of calls.
\<close>

record VreApp =
  vreSwapChain :: "VreSwapChain option"
  vrePipeline :: "VrePipeline option"
  pipelineLayout :: handle
  vreModel :: "VreModel option"
  commandBuffers :: "handle list"
  trace :: "event list"

text \<open>
  What leaves a member function other than by \<^verbatim>\<open>return\<close>: a
  \<^verbatim>\<open>std::runtime_error\<close> thrown in vre_app.cpp (with its message), an exception out
  of a collaborator's constructor, a failed \<^verbatim>\<open>assert\<close> (with its message), and the two
  undefined behaviours the file can reach: dereferencing a null \<^verbatim>\<open>unique_ptr\<close> and
  indexing \<open>commandBuffers\<close> out of range.
\<close>

datatype error =
    RuntimeError string
  | ModelConstructorError
  | SwapChainConstructorError
  | PipelineConstructorError
  | AssertionFailed string
  | NullDereference
  | IndexOutOfRange

type_synonym outcome = "(error \<times> VreApp) + VreApp"

definition call :: "event \<Rightarrow> VreApp \<Rightarrow> VreApp" where
  "call e s = s\<lparr>trace := trace s @ [e]\<rparr>"

text \<open>Sequencing: an exception skips the rest.\<close>

definition and_then :: "outcome \<Rightarrow> (VreApp \<Rightarrow> outcome) \<Rightarrow> outcome" where
  "and_then r f = (case r of Inl err \<Rightarrow> Inl err | Inr s \<Rightarrow> f s)"

definition and_then_opt :: "outcome \<Rightarrow> (VreApp \<Rightarrow> outcome option) \<Rightarrow> outcome option" where
  "and_then_opt r f = (case r of Inl err \<Rightarrow> Some (Inl err) | Inr s \<Rightarrow> f s)"

subsection \<open>Conversions\<close>

text \<open>
  \<^verbatim>\<open>static_cast<float>(n)\<close> for an unsigned integer \<open>n\<close>: binary32 keeps 24
  significant bits and rounds to nearest, ties to even. The result is again a natural
  number (below \<open>2^128\<close>, which every \<^verbatim>\<open>size_t\<close> and \<^verbatim>\<open>uint32_t\<close> is).
\<close>

fun bitlen :: "nat \<Rightarrow> nat" where
  "bitlen n = (if n = 0 then 0 else Suc (bitlen (n div 2)))"

definition round_to_float :: "nat \<Rightarrow> nat" where
  "round_to_float n =
     (let e = bitlen n - 24; q = n div 2 ^ e; r = n mod 2 ^ e
      in if 2 * r < 2 ^ e \<or> (2 * r = 2 ^ e \<and> even q) then q * 2 ^ e else (q + 1) * 2 ^ e)"

definition to_float :: "nat \<Rightarrow> float" where
  "to_float n = of_nat (round_to_float n)"

text \<open>
  The implicit conversion of a \<^verbatim>\<open>float\<close> to \<^verbatim>\<open>uint32_t\<close> truncates towards zero;
  the behaviour is undefined (\<open>None\<close>) when the truncated value is not a
  \<^verbatim>\<open>uint32_t\<close>.
\<close>

definition float_to_uint32 :: "float \<Rightarrow> nat option" where
  "float_to_uint32 x =
     (let t = (if 0 \<le> x then \<lfloor>x\<rfloor> else \<lceil>x\<rceil>)
      in if 0 \<le> t \<and> t < 2 ^ 32 then Some (nat t) else None)"

text \<open>\<^verbatim>\<open>static_cast<uint32_t>(n)\<close> for a \<^verbatim>\<open>size_t\<close>.\<close>

definition size_to_uint32 :: "nat \<Rightarrow> nat" where
  "size_to_uint32 n = n mod 2 ^ 32"

text \<open>
  \<^verbatim>\<open>commandBuffers[i]\<close>: the element, or nothing when the index is out of range (a
  negative \<^verbatim>\<open>int\<close> becomes a \<^verbatim>\<open>size_t\<close> beyond every vector).
\<close>

definition at_index :: "'a list \<Rightarrow> int \<Rightarrow> 'a option" where
  "at_index xs i = (if 0 \<le> i \<and> i < int (length xs) then Some (xs ! nat i) else None)"

text \<open>\<^verbatim>\<open>std::vector::resize(n)\<close>: cut, or fill with value-initialised (null) handles.\<close>

definition resize :: "nat \<Rightarrow> handle list \<Rightarrow> handle list" where
  "resize n xs = take n xs @ replicate (n - length xs) VK_NULL_HANDLE"

subsection \<open>The member functions\<close>

definition vertices :: "Vertex list" where
  "vertices =
     [Vertex (0, - (1 / 2)) (1, 0, 0),
      Vertex (1 / 2, 1 / 2) (0, 1, 0),
      Vertex (- (1 / 2), 1 / 2) (0, 0, 1)]"

definition loadModels :: "env \<Rightarrow> VreApp \<Rightarrow> outcome" where
  "loadModels env s =
     (case newModel env (trace s) vertices of
        None \<Rightarrow> Inl (ModelConstructorError, call (NewModel vertices False) s)
      | Some m \<Rightarrow> Inr (call (NewModel vertices True) (s\<lparr>vreModel := Some m\<rparr>)))"

definition createPipelineLayout :: "env \<Rightarrow> VreApp \<Rightarrow> outcome" where
  "createPipelineLayout env s =
     (case vkCreatePipelineLayout env (trace s) of (r, h) \<Rightarrow>
        let s1 = call (VkCreatePipelineLayout r) (s\<lparr>pipelineLayout := h\<rparr>)
        in if r \<noteq> VK_SUCCESS
           then Inl (RuntimeError ''failed to create pipeline layout!'', s1)
           else Inr s1)"

definition createPipeline :: "env \<Rightarrow> VreApp \<Rightarrow> outcome" where
  "createPipeline env s =
     (case vreSwapChain s of
        None \<Rightarrow> Inl (AssertionFailed ''Cannot create pipeline before swap chain'', s)
      | Some sc \<Rightarrow>
          if pipelineLayout s = VK_NULL_HANDLE
          then Inl (AssertionFailed ''Cannot create pipeline before pipeline layout'', s)
          else
            let pipelineConfig =
                  \<lparr>cfg_renderPass = renderPass sc, cfg_pipelineLayout = pipelineLayout s\<rparr>
            in case newPipeline env (trace s) pipelineConfig of
                 None \<Rightarrow>
                   Inl (PipelineConstructorError,
                        call (NewPipeline ''shaders/simple_shader.vert.spv''
                                ''shaders/simple_shader.frag.spv'' pipelineConfig False) s)
               | Some p \<Rightarrow>
                   Inr (call (NewPipeline ''shaders/simple_shader.vert.spv''
                                ''shaders/simple_shader.frag.spv'' pipelineConfig True)
                          (s\<lparr>vrePipeline := Some p\<rparr>)))"

definition createCommandBuffers :: "env \<Rightarrow> VreApp \<Rightarrow> outcome" where
  "createCommandBuffers env s =
     (case vreSwapChain s of
        None \<Rightarrow> Inl (NullDereference, s)
      | Some sc \<Rightarrow>
          let resized = resize (imageCount sc) (commandBuffers s);
              commandBufferCount = size_to_uint32 (length resized)
          in case vkAllocateCommandBuffers env (trace s) commandBufferCount of (r, hs) \<Rightarrow>
               if r \<noteq> VK_SUCCESS
               then Inl (RuntimeError ''failed to allocate command buffers!'',
                         call (VkAllocateCommandBuffers commandBufferCount r)
                           (s\<lparr>commandBuffers := resized\<rparr>))
               else Inr (call (VkAllocateCommandBuffers commandBufferCount r)
                           (s\<lparr>commandBuffers :=
                                map hs [0..<commandBufferCount] @ drop commandBufferCount resized\<rparr>)))"

text \<open>
  \<^verbatim>\<open>freeCommandBuffers\<close> passes \<^verbatim>\<open>static_cast<float>(commandBuffers.size())\<close> where
  \<^verbatim>\<open>vkFreeCommandBuffers\<close> takes a \<^verbatim>\<open>uint32_t\<close>: the count goes through
  \<^verbatim>\<open>float\<close> and back. Nothing in it throws.
\<close>

definition freeCommandBuffers :: "VreApp \<Rightarrow> VreApp" where
  "freeCommandBuffers s =
     (call (VkFreeCommandBuffers
              (float_to_uint32 (to_float (length (commandBuffers s)))) (commandBuffers s)) s)
       \<lparr>commandBuffers := []\<rparr>"

definition recordCommandBuffer :: "env \<Rightarrow> int \<Rightarrow> VreApp \<Rightarrow> outcome" where
  "recordCommandBuffer env imageIndex s =
     (case at_index (commandBuffers s) imageIndex of
        None \<Rightarrow> Inl (IndexOutOfRange, s)
      | Some cb \<Rightarrow>
          let r = vkBeginCommandBuffer env (trace s) cb;
              s1 = call (VkBeginCommandBuffer cb r) s
          in if r \<noteq> VK_SUCCESS
             then Inl (RuntimeError ''failed to begin recording command buffer!'', s1)
             else
               case vreSwapChain s1 of
                 None \<Rightarrow> Inl (NullDereference, s1)
               | Some sc \<Rightarrow>
                   let renderPassInfo =
                         \<lparr>rp_renderPass = renderPass sc,
                          rp_framebuffer = getFrameBuffer sc imageIndex,
                          rp_renderArea = VkRect2D (0, 0) (swapChainExtent sc),
                          rp_clearValues =
                            [ClearColor float_0_1 float_0_1 float_0_1 1, ClearDepthStencil 1 0]\<rparr>;
                       s2 = call (Cmd cb (CmdBeginRenderPass renderPassInfo
                                            VK_SUBPASS_CONTENTS_INLINE)) s1;
                       viewport = VkViewport 0 0 (to_float (width (swapChainExtent sc)))
                                    (to_float (height (swapChainExtent sc))) 0 1;
                       scissor = VkRect2D (0, 0) (swapChainExtent sc);
                       s3 = call (Cmd cb (CmdSetViewport 0 [viewport])) s2;
                       s4 = call (Cmd cb (CmdSetScissor 0 [scissor])) s3
                   in case vrePipeline s4 of
                        None \<Rightarrow> Inl (NullDereference, s4)
                      | Some p \<Rightarrow>
                          let s5 = call (Cmd cb (PipelineBind p)) s4
                          in case vreModel s5 of
                               None \<Rightarrow> Inl (NullDereference, s5)
                             | Some m \<Rightarrow>
                                 let s6 = call (Cmd cb (ModelBind m)) s5;
                                     s7 = call (Cmd cb (ModelDraw m)) s6;
                                     s8 = call (Cmd cb CmdEndRenderPass) s7;
                                     r2 = vkEndCommandBuffer env (trace s8) cb;
                                     s9 = call (VkEndCommandBuffer cb r2) s8
                                 in if r2 \<noteq> VK_SUCCESS
                                    then Inl (RuntimeError ''failed to record command buffer'', s9)
                                    else Inr s9)"

text \<open>
  The wait loop of \<^verbatim>\<open>recreateSwapChain\<close>: while a dimension is zero, read the extent
  again and then block in \<^verbatim>\<open>glfwWaitEvents\<close>. It has no bound: \<open>None\<close> is the loop
  that never ends.
\<close>

partial_function (option) waitWhileZero ::
  "env \<Rightarrow> VkExtent2D \<Rightarrow> VreApp \<Rightarrow> (VkExtent2D \<times> VreApp) option" where
  "waitWhileZero env extent s =
     (if width extent = 0 \<or> height extent = 0
      then waitWhileZero env (getExtent env (trace s))
             (call GlfwWaitEvents (call (GetExtent (getExtent env (trace s))) s))
      else Some (extent, s))"

text \<open>The rest of \<^verbatim>\<open>recreateSwapChain\<close>, from \<^verbatim>\<open>vkDeviceWaitIdle\<close> on.\<close>

definition rebuild :: "env \<Rightarrow> VkExtent2D \<Rightarrow> VreApp \<Rightarrow> outcome" where
  "rebuild env extent s =
     (let s1 = call VkDeviceWaitIdle s
      in case vreSwapChain s1 of
           None \<Rightarrow>
             (case newSwapChain env (trace s1) extent None of
                None \<Rightarrow> Inl (SwapChainConstructorError, call (NewSwapChain extent False False) s1)
              | Some sc \<Rightarrow>
                  createPipeline env
                    (call (NewSwapChain extent False True) (s1\<lparr>vreSwapChain := Some sc\<rparr>)))
         | Some old \<Rightarrow>
             (case newSwapChain env (trace s1) extent (Some old) of
                None \<Rightarrow>
                  Inl (SwapChainConstructorError,
                       call (NewSwapChain extent True False) (s1\<lparr>vreSwapChain := None\<rparr>))
              | Some sc \<Rightarrow>
                  let s2 = call (NewSwapChain extent True True) (s1\<lparr>vreSwapChain := Some sc\<rparr>)
                  in if imageCount sc \<noteq> length (commandBuffers s2)
                     then and_then (createCommandBuffers env (freeCommandBuffers s2))
                            (createPipeline env)
                     else createPipeline env s2))"

definition recreateSwapChain :: "env \<Rightarrow> VreApp \<Rightarrow> outcome option" where
  "recreateSwapChain env s =
     (let extent = getExtent env (trace s)
      in case waitWhileZero env extent (call (GetExtent extent) s) of
           None \<Rightarrow> None
         | Some (extent', s1) \<Rightarrow> Some (rebuild env extent' s1))"

text \<open>
  \<^verbatim>\<open>drawFrame\<close>. The acquired index is a \<^verbatim>\<open>uint32_t\<close>; \<^verbatim>\<open>recordCommandBuffer\<close>
  takes it as an \<^verbatim>\<open>int\<close> (\<open>sint\<close>), the submission indexes the vector with it
  unsigned (\<open>uint\<close>). \<^verbatim>\<open>wasWindowResized\<close> is only asked when the submission result
  is neither of the two stale codes (\<^verbatim>\<open>||\<close> short-circuits).
\<close>

definition drawFrame :: "env \<Rightarrow> VreApp \<Rightarrow> outcome option" where
  "drawFrame env s =
     (case vreSwapChain s of
        None \<Rightarrow> Some (Inl (NullDereference, s))
      | Some sc \<Rightarrow>
          case acquireNextImage env (trace s) of (result, imageIndex) \<Rightarrow>
            let s1 = call (AcquireNextImage result imageIndex) s
            in if result = VK_ERROR_OUT_OF_DATE_KHR then recreateSwapChain env s1
               else if result \<noteq> VK_SUCCESS \<and> result \<noteq> VK_SUBOPTIMAL_KHR
               then Some (Inl (RuntimeError ''failed to acquire swap chain image!'', s1))
               else
                 and_then_opt (recordCommandBuffer env (sint imageIndex) s1) (\<lambda>s2.
                   case vreSwapChain s2 of
                     None \<Rightarrow> Some (Inl (NullDereference, s2))
                   | Some sc2 \<Rightarrow>
                       case at_index (commandBuffers s2) (uint imageIndex) of
                         None \<Rightarrow> Some (Inl (IndexOutOfRange, s2))
                       | Some cb \<Rightarrow>
                           let result2 = submitCommandBuffers env (trace s2) cb imageIndex;
                               s3 = call (SubmitCommandBuffers cb imageIndex result2) s2
                           in if result2 = VK_ERROR_OUT_OF_DATE_KHR \<or> result2 = VK_SUBOPTIMAL_KHR
                              then recreateSwapChain env (call ResetWindowResizedFlag s3)
                              else
                                let resized = wasWindowResized env (trace s3);
                                    s4 = call (WasWindowResized resized) s3
                                in if resized
                                   then recreateSwapChain env (call ResetWindowResizedFlag s4)
                                   else if result2 \<noteq> VK_SUCCESS
                                   then Some (Inl (RuntimeError
                                                 ''failed to present swap chain image!'', s4))
                                   else Some (Inr s4)))"

text \<open>
  The constructor body, run on the object as its member initialisers leave it: no swap
  chain, no pipeline, no model, no command buffers, and \<open>pipelineLayout\<close> holding
  whatever \<open>h0\<close> it held.
\<close>

definition fresh :: "handle \<Rightarrow> VreApp" where
  "fresh h0 =
     \<lparr>vreSwapChain = None, vrePipeline = None, pipelineLayout = h0, vreModel = None,
      commandBuffers = [], trace = []\<rparr>"

definition VreApp_ctor :: "env \<Rightarrow> VreApp \<Rightarrow> outcome option" where
  "VreApp_ctor env s =
     and_then_opt (and_then (loadModels env s) (createPipelineLayout env)) (\<lambda>s2.
       case recreateSwapChain env s2 of
         None \<Rightarrow> None
       | Some r \<Rightarrow> Some (and_then r (createCommandBuffers env)))"

text \<open>\<^verbatim>\<open>run\<close>: the frame loop, until the window asks to close.\<close>

partial_function (option) run :: "env \<Rightarrow> VreApp \<Rightarrow> outcome option" where
  "run env s =
     (if shoudClose env (trace s)
      then Some (Inr (call VkDeviceWaitIdle (call (ShoudClose True) s)))
      else case drawFrame env (call GlfwPollEvents (call (ShoudClose False) s)) of
             None \<Rightarrow> None
           | Some (Inl err) \<Rightarrow> Some (Inl err)
           | Some (Inr s1) \<Rightarrow> run env s1)"

text \<open>The whole life of the object: construct it, then run it.\<close>

definition VreApp_main :: "env \<Rightarrow> handle \<Rightarrow> outcome option" where
  "VreApp_main env h0 =
     (case VreApp_ctor env (fresh h0) of
        None \<Rightarrow> None
      | Some (Inl err) \<Rightarrow> Some (Inl err)
      | Some (Inr s) \<Rightarrow> run env s)"

subsection \<open>Reading a trace\<close>

text \<open>The state an outcome leaves the object in, and the calls a step added.\<close>

definition state_of :: "outcome \<Rightarrow> VreApp" where
  "state_of r = (case r of Inl (err, s) \<Rightarrow> s | Inr s \<Rightarrow> s)"

definition error_of :: "outcome option \<Rightarrow> error option" where
  "error_of r = (case r of Some (Inl (err, s)) \<Rightarrow> Some err | _ \<Rightarrow> None)"

definition added :: "VreApp \<Rightarrow> outcome \<Rightarrow> event list" where
  "added s r = drop (length (trace s)) (trace (state_of r))"

definition added_by :: "VreApp \<Rightarrow> outcome option \<Rightarrow> event list" where
  "added_by s r = (case r of None \<Rightarrow> [] | Some x \<Rightarrow> added s x)"

text \<open>The extents read from the window, in order.\<close>

fun extent_reads :: "event list \<Rightarrow> VkExtent2D list" where
  "extent_reads [] = []"
| "extent_reads (GetExtent e # evs) = e # extent_reads evs"
| "extent_reads (ev # evs) = extent_reads evs"

text \<open>The extents at which a swap chain was constructed, in order.\<close>

fun constructions :: "event list \<Rightarrow> VkExtent2D list" where
  "constructions [] = []"
| "constructions (NewSwapChain e prev ok # evs) = e # constructions evs"
| "constructions (ev # evs) = constructions evs"

fun is_wait :: "event \<Rightarrow> bool" where
  "is_wait GlfwWaitEvents = True"
| "is_wait ev = False"

fun is_idle_wait :: "event \<Rightarrow> bool" where
  "is_idle_wait VkDeviceWaitIdle = True"
| "is_idle_wait ev = False"

text \<open>Recording into a command buffer, and submitting one.\<close>

fun is_recording :: "event \<Rightarrow> bool" where
  "is_recording (VkBeginCommandBuffer cb r) = True"
| "is_recording (Cmd cb c) = True"
| "is_recording (VkEndCommandBuffer cb r) = True"
| "is_recording ev = False"

fun is_submission :: "event \<Rightarrow> bool" where
  "is_submission (SubmitCommandBuffers cb i r) = True"
| "is_submission ev = False"

text \<open>Giving command buffers back to the pool, and asking the pool for new ones.\<close>

fun is_free :: "event \<Rightarrow> bool" where
  "is_free (VkFreeCommandBuffers n hs) = True"
| "is_free ev = False"

fun is_allocate :: "event \<Rightarrow> bool" where
  "is_allocate (VkAllocateCommandBuffers n r) = True"
| "is_allocate ev = False"

text \<open>The calls of the wait loop, and the calls that follow a swap chain construction.\<close>

fun is_loop_event :: "event \<Rightarrow> bool" where
  "is_loop_event (GetExtent e) = True"
| "is_loop_event GlfwWaitEvents = True"
| "is_loop_event ev = False"

fun is_tail_event :: "event \<Rightarrow> bool" where
  "is_tail_event (VkFreeCommandBuffers n hs) = True"
| "is_tail_event (VkAllocateCommandBuffers n r) = True"
| "is_tail_event (NewPipeline v f cfg ok) = True"
| "is_tail_event ev = False"

subsection \<open>A simulated window\<close>

text \<open>
  The window of the resize test: its extent is (0, 0) until \<open>N\<close> further blocking waits
  (\<^verbatim>\<open>glfwWaitEvents\<close>) have been made, counted from the \<open>b\<close> waits already in the
  trace, and (800, 600) from then on.
\<close>

definition simulatedWindow :: "nat \<Rightarrow> nat \<Rightarrow> event list \<Rightarrow> VkExtent2D" where
  "simulatedWindow b N tr =
     (if length (filter is_wait tr) < b + N
      then \<lparr>width = 0, height = 0\<rparr>
      else \<lparr>width = 800, height = 600\<rparr>)"

subsection \<open>A concrete environment and a concrete running application\<close>

text \<open>
  The boot scenario: a window of 640 by 480, a driver that gives every swap chain three
  images, and every call succeeding. The variations below change one answer each.
\<close>

definition swapChain3 :: "VkExtent2D \<Rightarrow> VreSwapChain" where
  "swapChain3 e =
     \<lparr>imageCount = 3, swapChainExtent = e, renderPass = 20,
      getFrameBuffer = (\<lambda>i. 30 + nat i)\<rparr>"

definition swapChain2 :: "VkExtent2D \<Rightarrow> VreSwapChain" where
  "swapChain2 e =
     \<lparr>imageCount = 2, swapChainExtent = e, renderPass = 21,
      getFrameBuffer = (\<lambda>i. 60 + nat i)\<rparr>"

definition env_boot :: env where
  "env_boot =
     \<lparr>getExtent = (\<lambda>tr. \<lparr>width = 640, height = 480\<rparr>),
      wasWindowResized = (\<lambda>tr. False),
      shoudClose = (\<lambda>tr. False),
      newModel = (\<lambda>tr vs. Some \<lparr>vertexBuffer = 7, vertexCount = length vs\<rparr>),
      newSwapChain = (\<lambda>tr e prev. Some (swapChain3 e)),
      newPipeline = (\<lambda>tr cfg. Some \<lparr>graphicsPipeline = 40\<rparr>),
      vkCreatePipelineLayout = (\<lambda>tr. (VK_SUCCESS, 5)),
      vkAllocateCommandBuffers = (\<lambda>tr n. (VK_SUCCESS, (\<lambda>i. 50 + i))),
      acquireNextImage = (\<lambda>tr. (VK_SUCCESS, 0)),
      submitCommandBuffers = (\<lambda>tr cb i. VK_SUCCESS),
      vkBeginCommandBuffer = (\<lambda>tr cb. VK_SUCCESS),
      vkEndCommandBuffer = (\<lambda>tr cb. VK_SUCCESS)\<rparr>"

text \<open>The object after a boot in that environment (its history left out).\<close>

definition app_running :: VreApp where
  "app_running =
     \<lparr>vreSwapChain = Some (swapChain3 \<lparr>width = 640, height = 480\<rparr>),
      vrePipeline = Some \<lparr>graphicsPipeline = 40\<rparr>,
      pipelineLayout = 5,
      vreModel = Some \<lparr>vertexBuffer = 7, vertexCount = 3\<rparr>,
      commandBuffers = [50, 51, 52],
      trace = []\<rparr>"

text \<open>The object between \<^verbatim>\<open>createPipelineLayout\<close> and the first \<^verbatim>\<open>recreateSwapChain\<close>.\<close>

definition app_booting :: VreApp where
  "app_booting =
     \<lparr>vreSwapChain = None,
      vrePipeline = None,
      pipelineLayout = 5,
      vreModel = Some \<lparr>vertexBuffer = 7, vertexCount = 3\<rparr>,
      commandBuffers = [],
      trace = []\<rparr>"

text \<open>The window is minimised and comes back after one blocking wait.\<close>

definition env_minimised :: env where
  "env_minimised = env_boot\<lparr>getExtent := simulatedWindow 0 1\<rparr>"

text \<open>The window stays minimised for ever.\<close>

definition env_zero :: env where
  "env_zero = env_boot\<lparr>getExtent := (\<lambda>tr. \<lparr>width = 0, height = 480\<rparr>)\<rparr>"

text \<open>
  The acquisition reports "out of date", the driver then gives the new swap chain two
  images, and the pool refuses to allocate.
\<close>

definition env_stale_acquire :: env where
  "env_stale_acquire =
     env_boot\<lparr>acquireNextImage := (\<lambda>tr. (VK_ERROR_OUT_OF_DATE_KHR, 0)),
              newSwapChain := (\<lambda>tr e prev. Some (swapChain2 e)),
              vkAllocateCommandBuffers :=
                (\<lambda>tr n. (VK_ERROR_OUT_OF_DEVICE_MEMORY, (\<lambda>i. VK_NULL_HANDLE)))\<rparr>"

text \<open>The same after a submission that reports "suboptimal".\<close>

definition env_stale_submit :: env where
  "env_stale_submit =
     env_boot\<lparr>submitCommandBuffers := (\<lambda>tr cb i. VK_SUBOPTIMAL_KHR),
              newSwapChain := (\<lambda>tr e prev. Some (swapChain2 e)),
              vkAllocateCommandBuffers :=
                (\<lambda>tr n. (VK_ERROR_OUT_OF_DEVICE_MEMORY, (\<lambda>i. VK_NULL_HANDLE)))\<rparr>"

text \<open>The acquisition reports "out of date" and the recreation goes through.\<close>

definition env_out_of_date :: env where
  "env_out_of_date = env_boot\<lparr>acquireNextImage := (\<lambda>tr. (VK_ERROR_OUT_OF_DATE_KHR, 0))\<rparr>"

text \<open>The window was resized, to 1280 by 720.\<close>

definition env_resized :: env where
  "env_resized =
     env_boot\<lparr>getExtent := (\<lambda>tr. \<lparr>width = 1280, height = 720\<rparr>),
              wasWindowResized := (\<lambda>tr. True)\<rparr>"

text \<open>After the recreation the driver gives two images.\<close>

definition env_two_images :: env where
  "env_two_images = env_boot\<lparr>newSwapChain := (\<lambda>tr e prev. Some (swapChain2 e))\<rparr>"

text \<open>The device is lost when the next image is acquired.\<close>

definition env_device_lost :: env where
  "env_device_lost = env_boot\<lparr>acquireNextImage := (\<lambda>tr. (VK_ERROR_DEVICE_LOST, 0))\<rparr>"

text \<open>The state after a call that returned normally.\<close>

definition succeeded :: "outcome option \<Rightarrow> VreApp option" where
  "succeeded r = (case r of Some (Inr s) \<Rightarrow> Some s | _ \<Rightarrow> None)"

text \<open>
  A running application that holds \<open>2^32\<close> command buffers: a size that binary32
  represents exactly and \<^verbatim>\<open>uint32_t\<close> does not.
\<close>

definition app_huge :: VreApp where
  "app_huge = app_running\<lparr>commandBuffers := replicate 4294967296 50\<rparr>"

text \<open>One with \<open>2^24 + 1\<close> command buffers, the least size binary32 does not represent.\<close>

definition app_odd :: VreApp where
  "app_odd = app_running\<lparr>commandBuffers := replicate 16777217 50\<rparr>"

subsection \<open>The commands of one frame, as the specification words them\<close>

text \<open>
  Begin the render pass on the target of the image with the fixed clear policy (opaque
  dark grey, depth 1 and stencil 0), set viewport and scissor to the full extent, bind the
  pipeline, bind the model, draw it, end the render pass.
\<close>

definition frame_commands ::
  "VrePipeline \<Rightarrow> VreModel \<Rightarrow> VkExtent2D \<Rightarrow> handle \<Rightarrow> handle \<Rightarrow> command list" where
  "frame_commands p m extent rpass fb =
     [CmdBeginRenderPass
        \<lparr>rp_renderPass = rpass, rp_framebuffer = fb,
         rp_renderArea = VkRect2D (0, 0) extent,
         rp_clearValues = [ClearColor float_0_1 float_0_1 float_0_1 1, ClearDepthStencil 1 0]\<rparr>
        VK_SUBPASS_CONTENTS_INLINE,
      CmdSetViewport 0
        [VkViewport 0 0 (to_float (width extent)) (to_float (height extent)) 0 1],
      CmdSetScissor 0 [VkRect2D (0, 0) extent],
      PipelineBind p, ModelBind m, ModelDraw m, CmdEndRenderPass]"

text \<open>The commands put into command buffers along a trace, in order.\<close>

fun recorded_commands :: "event list \<Rightarrow> command list" where
  "recorded_commands [] = []"
| "recorded_commands (Cmd cb c # evs) = c # recorded_commands evs"
| "recorded_commands (ev # evs) = recorded_commands evs"

text \<open>
  The calls of a frame that is drawn and then found stale: acquire, record into the
  command buffer, submit, (ask the window whether it was resized, unless the submission
  result already decides,) clear the resize flag.
\<close>

definition stale_frame_calls ::
  "VkResult \<Rightarrow> 32 word \<Rightarrow> handle \<Rightarrow> command list \<Rightarrow> VkResult \<Rightarrow> event list" where
  "stale_frame_calls ra i cb cmds r2 =
     AcquireNextImage ra i # VkBeginCommandBuffer cb VK_SUCCESS # map (Cmd cb) cmds @
     [VkEndCommandBuffer cb VK_SUCCESS, SubmitCommandBuffers cb i r2] @
     (if r2 = VK_ERROR_OUT_OF_DATE_KHR \<or> r2 = VK_SUBOPTIMAL_KHR then []
      else [WasWindowResized True]) @
     [ResetWindowResizedFlag]"

fun is_pipeline_build :: "event \<Rightarrow> bool" where
  "is_pipeline_build (NewPipeline v f cfg ok) = True"
| "is_pipeline_build ev = False"

text \<open>Giving back or asking for command buffers.\<close>

definition is_reallocation :: "event \<Rightarrow> bool" where
  "is_reallocation ev = (is_free ev \<or> is_allocate ev)"

text \<open>
  What Vulkan promises of \<^verbatim>\<open>vkCreatePipelineLayout\<close>: when it returns
  \<^verbatim>\<open>VK_SUCCESS\<close>, the handle it wrote is a pipeline layout, not the null handle.
\<close>

definition valid_layout_handles :: "env \<Rightarrow> bool" where
  "valid_layout_handles env =
     (\<forall>tr. fst (vkCreatePipelineLayout env tr) = VK_SUCCESS \<longrightarrow>
           snd (vkCreatePipelineLayout env tr) \<noteq> VK_NULL_HANDLE)"

text \<open>The boot environment with a window that asks to close once a frame was drawn.\<close>

definition env_one_frame :: env where
  "env_one_frame = env_boot\<lparr>shoudClose := (\<lambda>tr. GlfwPollEvents \<in> set tr)\<rparr>"

text \<open>A failed precondition check of \<^verbatim>\<open>createPipeline\<close>.\<close>

fun is_assertion_failure :: "error option \<Rightarrow> bool" where
  "is_assertion_failure (Some (AssertionFailed msg)) = True"
| "is_assertion_failure e = False"

text \<open>A swap chain construction.\<close>

fun is_construction :: "event \<Rightarrow> bool" where
  "is_construction (NewSwapChain e prev ok) = True"
| "is_construction ev = False"

text \<open>
  After the recreation the driver gives two images, and the pool refuses to allocate.
\<close>

definition env_pool_exhausted :: env where
  "env_pool_exhausted =
     env_boot\<lparr>newSwapChain := (\<lambda>tr e prev. Some (swapChain2 e)),
              vkAllocateCommandBuffers :=
                (\<lambda>tr n. (VK_ERROR_OUT_OF_DEVICE_MEMORY, (\<lambda>i. VK_NULL_HANDLE)))\<rparr>"

lemma call_simps:
  "trace (call e s) = trace s @ [e]"
  "vreSwapChain (call e s) = vreSwapChain s"
  "vrePipeline (call e s) = vrePipeline s"
  "pipelineLayout (call e s) = pipelineLayout s"
  "vreModel (call e s) = vreModel s"
  "commandBuffers (call e s) = commandBuffers s"
  by (simp_all add: call_def)

subsection \<open>Traces of the member functions\<close>

lemma state_of_simps [simp]:
  "state_of (Inl (err, s)) = s" "state_of (Inr s) = s"
  by (simp_all add: state_of_def)

lemma loop_event_facts:
  "is_loop_event ev \<Longrightarrow> \<not> is_recording ev \<and> \<not> is_submission ev \<and> \<not> is_free ev \<and> \<not> is_allocate ev \<and> \<not> is_idle_wait ev"
  by (cases ev) simp_all

lemma tail_event_facts:
  "is_tail_event ev \<Longrightarrow> \<not> is_recording ev \<and> \<not> is_submission ev \<and> \<not> is_idle_wait ev \<and> \<not> is_wait ev \<and> \<not> is_loop_event ev"
  by (cases ev) simp_all

lemma createPipeline_trace:
  "\<exists>evs. trace (state_of (createPipeline env s)) = trace s @ evs \<and> (\<forall>ev\<in>set evs. is_tail_event ev)"
  by (auto simp: createPipeline_def call_simps Let_def split: option.splits)

lemma createCommandBuffers_trace:
  "\<exists>evs. trace (state_of (createCommandBuffers env s)) = trace s @ evs \<and> (\<forall>ev\<in>set evs. is_tail_event ev)"
  by (auto simp: createCommandBuffers_def call_simps Let_def split: option.splits prod.splits)

lemma freeCommandBuffers_trace:
  "trace (freeCommandBuffers s) = trace s @ [VkFreeCommandBuffers (float_to_uint32 (to_float (length (commandBuffers s)))) (commandBuffers s)]"
  by (simp add: freeCommandBuffers_def call_simps)

lemma and_then_createPipeline_trace:
  assumes "trace (state_of r) = tr @ evs" "\<forall>ev\<in>set evs. is_tail_event ev"
  shows "\<exists>evs'. trace (state_of (and_then r (createPipeline env))) = tr @ evs' \<and>
           (\<forall>ev\<in>set evs'. is_tail_event ev)"
proof (cases r)
  case (Inl a)
  with assms show ?thesis by (auto simp: and_then_def)
next
  case (Inr s2)
  from createPipeline_trace[of env s2] obtain evs2 where
    "trace (state_of (createPipeline env s2)) = trace s2 @ evs2" "\<forall>ev\<in>set evs2. is_tail_event ev"
    by blast
  with Inr assms show ?thesis
    by (intro exI[of _ "evs @ evs2"]) (auto simp: and_then_def)
qed

lemma rebuild_shape:
  "\<exists>ok evs. trace (state_of (rebuild env e s)) =
      trace s @ VkDeviceWaitIdle # NewSwapChain e (vreSwapChain s \<noteq> None) ok # evs \<and>
      (\<forall>ev\<in>set evs. is_tail_event ev)"
proof (cases "vreSwapChain s")
  case None
  show ?thesis
  proof (cases "newSwapChain env (trace s @ [VkDeviceWaitIdle]) e None")
    case N2: None
    with None show ?thesis by (auto simp: rebuild_def call_simps Let_def)
  next
    case (Some sc)
    let ?s2 = "call (NewSwapChain e False True) ((call VkDeviceWaitIdle s)\<lparr>vreSwapChain := Some sc\<rparr>)"
    from createPipeline_trace[of env ?s2] obtain evs where
      "trace (state_of (createPipeline env ?s2)) = trace ?s2 @ evs" "\<forall>ev\<in>set evs. is_tail_event ev" by blast
    with None Some show ?thesis by (auto simp: rebuild_def call_simps Let_def)
  qed
next
  case (Some old)
  show ?thesis
  proof (cases "newSwapChain env (trace s @ [VkDeviceWaitIdle]) e (Some old)")
    case None
    with Some show ?thesis by (auto simp: rebuild_def call_simps Let_def)
  next
    case S2: (Some sc)
    let ?s2 = "call (NewSwapChain e True True) ((call VkDeviceWaitIdle s)\<lparr>vreSwapChain := Some sc\<rparr>)"
    have tr2: "trace ?s2 = trace s @ [VkDeviceWaitIdle, NewSwapChain e True True]"
      by (simp add: call_simps)
    show ?thesis
    proof (cases "imageCount sc \<noteq> length (commandBuffers s)")
      case True
      from createCommandBuffers_trace[of env "freeCommandBuffers ?s2"] obtain evs where
        evs: "trace (state_of (createCommandBuffers env (freeCommandBuffers ?s2))) =
           trace (freeCommandBuffers ?s2) @ evs" "\<forall>ev\<in>set evs. is_tail_event ev" by blast
      have "trace (state_of (createCommandBuffers env (freeCommandBuffers ?s2))) =
           (trace s @ [VkDeviceWaitIdle, NewSwapChain e True True]) @
             (VkFreeCommandBuffers (float_to_uint32 (to_float (length (commandBuffers s)))) (commandBuffers s) # evs)"
        using evs(1) by (simp add: freeCommandBuffers_trace call_simps)
      from and_then_createPipeline_trace[OF this, of env] evs(2) obtain evs' where
        "trace (state_of (and_then (createCommandBuffers env (freeCommandBuffers ?s2)) (createPipeline env))) =
           (trace s @ [VkDeviceWaitIdle, NewSwapChain e True True]) @ evs'" "\<forall>ev\<in>set evs'. is_tail_event ev"
        by auto
      with Some S2 True show ?thesis by (auto simp: rebuild_def call_simps Let_def)
    next
      case False
      from createPipeline_trace[of env ?s2] obtain evs where
        "trace (state_of (createPipeline env ?s2)) = trace ?s2 @ evs" "\<forall>ev\<in>set evs. is_tail_event ev" by blast
      with Some S2 False show ?thesis by (auto simp: rebuild_def call_simps Let_def)
    qed
  qed
qed

subsection \<open>The wait loop and the shape of a recreation\<close>

lemma extent_reads_append: "extent_reads (xs @ ys) = extent_reads xs @ extent_reads ys"
  by (induction xs rule: extent_reads.induct) simp_all

lemma constructions_append: "constructions (xs @ ys) = constructions xs @ constructions ys"
  by (induction xs rule: constructions.induct) simp_all

lemma extent_reads_tail: "\<forall>ev\<in>set evs. is_tail_event ev \<Longrightarrow> extent_reads evs = []"
  by (induction evs rule: extent_reads.induct) simp_all

lemma constructions_tail: "\<forall>ev\<in>set evs. is_tail_event ev \<Longrightarrow> constructions evs = []"
  by (induction evs rule: constructions.induct) simp_all

lemma constructions_loop: "\<forall>ev\<in>set evs. is_loop_event ev \<Longrightarrow> constructions evs = []"
  by (induction evs rule: constructions.induct) simp_all

lemma waitWhileZero_result:
  assumes "waitWhileZero env e s = Some r"
  shows "width (fst r) \<noteq> 0 \<and> height (fst r) \<noteq> 0 \<and>
     (\<exists>evs zs. snd r = s\<lparr>trace := trace s @ evs\<rparr> \<and> (\<forall>ev\<in>set evs. is_loop_event ev) \<and>
        e # extent_reads evs = zs @ [fst r] \<and> (\<forall>z\<in>set zs. width z = 0 \<or> height z = 0))"
proof (rule waitWhileZero.raw_induct[where P = "\<lambda>env e s r.
     width (fst r) \<noteq> 0 \<and> height (fst r) \<noteq> 0 \<and>
     (\<exists>evs zs. snd r = s\<lparr>trace := trace s @ evs\<rparr> \<and> (\<forall>ev\<in>set evs. is_loop_event ev) \<and>
        e # extent_reads evs = zs @ [fst r] \<and> (\<forall>z\<in>set zs. width z = 0 \<or> height z = 0))",
     OF _ assms], goal_cases)
  case (1 w env extent s r)
  show ?case
  proof (cases "width extent = 0 \<or> height extent = 0")
    case True
    let ?e1 = "getExtent env (trace s)"
    let ?s1 = "call GlfwWaitEvents (call (GetExtent ?e1) s)"
    from True 1(2) have "w env ?e1 ?s1 = Some r" by simp
    from 1(1)[OF this] obtain evs zs where
      nz: "width (fst r) \<noteq> 0 \<and> height (fst r) \<noteq> 0" and
      r: "snd r = ?s1\<lparr>trace := trace ?s1 @ evs\<rparr>" and
      evs: "\<forall>ev\<in>set evs. is_loop_event ev" and
      zs: "?e1 # extent_reads evs = zs @ [fst r]" "\<forall>z\<in>set zs. width z = 0 \<or> height z = 0"
      by blast
    have "snd r = s\<lparr>trace := trace s @ (GetExtent ?e1 # GlfwWaitEvents # evs)\<rparr>"
      using r by (simp add: call_def)
    moreover have "\<forall>ev\<in>set (GetExtent ?e1 # GlfwWaitEvents # evs). is_loop_event ev"
      using evs by simp
    moreover have "extent # extent_reads (GetExtent ?e1 # GlfwWaitEvents # evs) =
        (extent # zs) @ [fst r]"
      using zs(1) by simp
    moreover have "\<forall>z\<in>set (extent # zs). width z = 0 \<or> height z = 0"
      using zs(2) True by simp
    ultimately show ?thesis using nz by blast
  next
    case False
    with 1(2) have "r = (extent, s)" by simp
    with False show ?thesis by (auto intro: exI[of _ "[]"])
  qed
qed

lemma recreateSwapChain_shape:
  assumes "recreateSwapChain env s = Some r"
  shows "\<exists>e0 loop e ok evs zs. trace (state_of r) =
      trace s @ GetExtent e0 # loop @ VkDeviceWaitIdle #
        NewSwapChain e (vreSwapChain s \<noteq> None) ok # evs \<and>
      width e \<noteq> 0 \<and> height e \<noteq> 0 \<and>
      (\<forall>ev\<in>set loop. is_loop_event ev) \<and> (\<forall>ev\<in>set evs. is_tail_event ev) \<and>
      e0 # extent_reads loop = zs @ [e] \<and> (\<forall>z\<in>set zs. width z = 0 \<or> height z = 0)"
proof -
  let ?e0 = "getExtent env (trace s)"
  from assms obtain e s1 where w: "waitWhileZero env ?e0 (call (GetExtent ?e0) s) = Some (e, s1)"
    and r: "r = rebuild env e s1"
    by (auto simp: recreateSwapChain_def Let_def split: option.splits)
  from waitWhileZero_result[OF w] obtain loop zs where
    nz: "width e \<noteq> 0" "height e \<noteq> 0" and
    s1: "s1 = (call (GetExtent ?e0) s)\<lparr>trace := trace (call (GetExtent ?e0) s) @ loop\<rparr>" and
    loop: "\<forall>ev\<in>set loop. is_loop_event ev" and
    zs: "?e0 # extent_reads loop = zs @ [e]" "\<forall>z\<in>set zs. width z = 0 \<or> height z = 0"
    by auto
  from s1 have s1': "trace s1 = trace s @ GetExtent ?e0 # loop" "vreSwapChain s1 = vreSwapChain s"
    by (simp_all add: call_def)
  from rebuild_shape[of env e s1] obtain ok evs where
    "trace (state_of (rebuild env e s1)) =
      trace s1 @ VkDeviceWaitIdle # NewSwapChain e (vreSwapChain s1 \<noteq> None) ok # evs"
    "\<forall>ev\<in>set evs. is_tail_event ev" by blast
  with s1' r have "trace (state_of r) =
      trace s @ GetExtent ?e0 # loop @ VkDeviceWaitIdle #
        NewSwapChain e (vreSwapChain s \<noteq> None) ok # evs"
    "\<forall>ev\<in>set evs. is_tail_event ev" by simp_all
  with nz loop zs show ?thesis by blast
qed

text \<open>What one call of \<^verbatim>\<open>recreateSwapChain\<close> adds to the trace, whatever its outcome.\<close>

lemma recreateSwapChain_added:
  assumes "recreateSwapChain env s = Some r"
  shows "\<exists>zs e. extent_reads (added s r) = zs @ [e] \<and>
      (\<forall>z\<in>set zs. width z = 0 \<or> height z = 0) \<and> width e \<noteq> 0 \<and> height e \<noteq> 0 \<and>
      constructions (added s r) = [e] \<and>
      filter is_recording (added s r) = [] \<and> filter is_submission (added s r) = [] \<and>
      length (filter is_idle_wait (added s r)) = 1"
proof -
  from recreateSwapChain_shape[OF assms] obtain e0 loop e ok evs zs where
    tr: "trace (state_of r) = trace s @ GetExtent e0 # loop @ VkDeviceWaitIdle #
        NewSwapChain e (vreSwapChain s \<noteq> None) ok # evs" and
    nz: "width e \<noteq> 0" "height e \<noteq> 0" and
    loop: "\<forall>ev\<in>set loop. is_loop_event ev" and
    evs: "\<forall>ev\<in>set evs. is_tail_event ev" and
    zs: "e0 # extent_reads loop = zs @ [e]" "\<forall>z\<in>set zs. width z = 0 \<or> height z = 0"
    by blast
  have a: "added s r = GetExtent e0 # loop @ VkDeviceWaitIdle #
        NewSwapChain e (vreSwapChain s \<noteq> None) ok # evs"
    by (simp add: added_def tr)
  have "extent_reads (added s r) = zs @ [e]"
    using zs(1) evs by (simp add: a extent_reads_append extent_reads_tail)
  moreover have "constructions (added s r) = [e]"
    using loop evs by (simp add: a constructions_append constructions_loop constructions_tail)
  moreover have "filter is_recording (added s r) = []"
    using loop evs by (auto simp: a filter_empty_conv dest: loop_event_facts tail_event_facts)
  moreover have "filter is_submission (added s r) = []"
    using loop evs by (auto simp: a filter_empty_conv dest: loop_event_facts tail_event_facts)
  moreover have "filter is_idle_wait loop = []" "filter is_idle_wait evs = []"
    using loop evs by (auto simp: filter_empty_conv dest: loop_event_facts tail_event_facts)
  then have "length (filter is_idle_wait (added s r)) = 1"
    by (simp add: a)
  ultimately show ?thesis using nz zs(2) by blast
qed

lemma waitWhileZero_nonzero:
  "width e \<noteq> 0 \<Longrightarrow> height e \<noteq> 0 \<Longrightarrow> waitWhileZero env e s = Some (e, s)"
  by (subst waitWhileZero.simps) simp

lemma waitWhileZero_zero:
  "width e = 0 \<or> height e = 0 \<Longrightarrow>
   waitWhileZero env e s =
     waitWhileZero env (getExtent env (trace s))
       (call GlfwWaitEvents (call (GetExtent (getExtent env (trace s))) s))"
  by (subst waitWhileZero.simps) simp

lemma waitWhileZero_never_Some:
  assumes "waitWhileZero env e s = Some r"
  shows "\<not> ((\<forall>tr. width (getExtent env tr) = 0 \<or> height (getExtent env tr) = 0) \<and>
            (width e = 0 \<or> height e = 0))"
proof (rule waitWhileZero.raw_induct[where P = "\<lambda>env e s r.
     \<not> ((\<forall>tr. width (getExtent env tr) = 0 \<or> height (getExtent env tr) = 0) \<and>
            (width e = 0 \<or> height e = 0))", OF _ assms], goal_cases)
  case (1 w env extent s r)
  show ?case
  proof
    assume a: "(\<forall>tr. width (getExtent env tr) = 0 \<or> height (getExtent env tr) = 0) \<and>
            (width extent = 0 \<or> height extent = 0)"
    with 1(2) have "w env (getExtent env (trace s))
       (call GlfwWaitEvents (call (GetExtent (getExtent env (trace s))) s)) = Some r" by simp
    from 1(1)[OF this] a show False by auto
  qed
qed

lemma waitWhileZero_diverges:
  assumes "\<forall>tr. width (getExtent env tr) = 0 \<or> height (getExtent env tr) = 0"
    and "width e = 0 \<or> height e = 0"
  shows "waitWhileZero env e s = None"
proof (cases "waitWhileZero env e s")
  case None
  then show ?thesis .
next
  case (Some r)
  from waitWhileZero_never_Some[OF this] assms show ?thesis by auto
qed

lemma waitWhileZero_simulated:
  assumes env: "getExtent env = simulatedWindow b N"
  shows "length (filter is_wait (trace s)) = b + k \<Longrightarrow> k \<le> N \<Longrightarrow>
     width e = 0 \<or> height e = 0 \<Longrightarrow>
     waitWhileZero env e s =
       Some (\<lparr>width = 800, height = 600\<rparr>,
             s\<lparr>trace := trace s @
                  concat (replicate (N - k) [GetExtent \<lparr>width = 0, height = 0\<rparr>, GlfwWaitEvents]) @
                  [GetExtent \<lparr>width = 800, height = 600\<rparr>, GlfwWaitEvents]\<rparr>)"
proof (induction "N - k" arbitrary: k s e)
  case 0
  then have k: "k = N" by simp
  have g: "getExtent env (trace s) = \<lparr>width = 800, height = 600\<rparr>"
    using 0 k by (simp add: env simulatedWindow_def)
  show ?case
    using 0 k g
    by (simp add: waitWhileZero_zero waitWhileZero_nonzero call_def)
next
  case (Suc d)
  then have k: "k < N" "N - k = Suc (N - Suc k)" "d = N - Suc k" by simp_all
  have g: "getExtent env (trace s) = \<lparr>width = 0, height = 0\<rparr>"
    using Suc k by (simp add: env simulatedWindow_def)
  let ?s1 = "call GlfwWaitEvents (call (GetExtent \<lparr>width = 0, height = 0\<rparr>) s)"
  have w: "length (filter is_wait (trace ?s1)) = b + Suc k"
    using Suc.prems(1) by (simp add: call_simps)
  have "waitWhileZero env e s = waitWhileZero env \<lparr>width = 0, height = 0\<rparr> ?s1"
    using Suc.prems(3) g by (simp add: waitWhileZero_zero)
  also have "\<dots> = Some (\<lparr>width = 800, height = 600\<rparr>,
             ?s1\<lparr>trace := trace ?s1 @
                  concat (replicate (N - Suc k) [GetExtent \<lparr>width = 0, height = 0\<rparr>, GlfwWaitEvents]) @
                  [GetExtent \<lparr>width = 800, height = 600\<rparr>, GlfwWaitEvents]\<rparr>)"
    using Suc.hyps(1)[OF k(3) w] k(1) by simp
  finally show ?case using k(2) by (simp add: call_def)
qed

lemma filter_wait_tail: "\<forall>ev\<in>set evs. is_tail_event ev \<Longrightarrow> filter is_wait evs = []"
  by (auto simp: filter_empty_conv dest: tail_event_facts)

lemma reads_replicate:
  "extent_reads (concat (replicate n [GetExtent z, GlfwWaitEvents])) = replicate n z"
  by (induction n) simp_all

lemma waits_replicate:
  "length (filter is_wait (concat (replicate n [GetExtent z, GlfwWaitEvents]))) = n"
  by (induction n) simp_all

lemma constructions_replicate:
  "constructions (concat (replicate n [GetExtent z, GlfwWaitEvents])) = []"
  by (induction n) simp_all

lemma rebuild_added:
  "\<exists>ok evs. added s (rebuild env e s1) =
      drop (length (trace s)) (trace s1) @ VkDeviceWaitIdle # NewSwapChain e (vreSwapChain s1 \<noteq> None) ok # evs \<and>
      (\<forall>ev\<in>set evs. is_tail_event ev)" if "length (trace s) \<le> length (trace s1)"
proof -
  from rebuild_shape[of env e s1] obtain ok evs where
    "trace (state_of (rebuild env e s1)) =
      trace s1 @ VkDeviceWaitIdle # NewSwapChain e (vreSwapChain s1 \<noteq> None) ok # evs"
    "\<forall>ev\<in>set evs. is_tail_event ev" by blast
  with that show ?thesis by (auto simp: added_def)
qed

lemma recreateSwapChain_simulated:
  assumes env: "getExtent env = simulatedWindow (length (filter is_wait (trace s))) N"
  shows "\<exists>r. recreateSwapChain env s = Some r \<and>
      length (extent_reads (added s r)) = (if N = 0 then 1 else N + 2) \<and>
      length (filter is_wait (added s r)) = (if N = 0 then 0 else N + 1) \<and>
      constructions (added s r) = [\<lparr>width = 800, height = 600\<rparr>]"
proof (cases "N = 0")
  case True
  let ?e = "\<lparr>width = 800, height = 600\<rparr>"
  let ?s1 = "call (GetExtent ?e) s"
  have g: "getExtent env (trace s) = ?e"
    using True by (simp add: env simulatedWindow_def)
  have r: "recreateSwapChain env s = Some (rebuild env ?e ?s1)"
    by (simp add: recreateSwapChain_def Let_def g waitWhileZero_nonzero)
  from rebuild_added[of s ?s1 env ?e] obtain ok evs where
    a: "added s (rebuild env ?e ?s1) =
      drop (length (trace s)) (trace ?s1) @ VkDeviceWaitIdle # NewSwapChain ?e (vreSwapChain ?s1 \<noteq> None) ok # evs"
    and evs: "\<forall>ev\<in>set evs. is_tail_event ev" by (auto simp: call_simps)
  have a': "added s (rebuild env ?e ?s1) =
      GetExtent ?e # VkDeviceWaitIdle # NewSwapChain ?e (vreSwapChain ?s1 \<noteq> None) ok # evs"
    using a by (simp add: call_simps)
  show ?thesis
    using True evs
    by (simp add: r a' extent_reads_tail filter_wait_tail constructions_tail)
next
  case False
  let ?z = "\<lparr>width = 0, height = 0\<rparr>"
  let ?e = "\<lparr>width = 800, height = 600\<rparr>"
  let ?s0 = "call (GetExtent ?z) s"
  let ?loop = "concat (replicate N [GetExtent ?z, GlfwWaitEvents]) @ [GetExtent ?e, GlfwWaitEvents]"
  let ?s1 = "?s0\<lparr>trace := trace ?s0 @ ?loop\<rparr>"
  have g: "getExtent env (trace s) = ?z"
    using False by (simp add: env simulatedWindow_def)
  have "waitWhileZero env ?z ?s0 = Some (?e, ?s0\<lparr>trace := trace ?s0 @
           concat (replicate (N - 0) [GetExtent ?z, GlfwWaitEvents]) @ [GetExtent ?e, GlfwWaitEvents]\<rparr>)"
    by (rule waitWhileZero_simulated[OF env]) (simp_all add: call_simps)
  then have r: "recreateSwapChain env s = Some (rebuild env ?e ?s1)"
    by (simp add: recreateSwapChain_def Let_def g)
  have tr1: "trace ?s1 = trace s @ GetExtent ?z # ?loop"
    by (simp add: call_simps)
  from rebuild_added[of s ?s1 env ?e] obtain ok evs where
    a: "added s (rebuild env ?e ?s1) =
      drop (length (trace s)) (trace ?s1) @ VkDeviceWaitIdle # NewSwapChain ?e (vreSwapChain ?s1 \<noteq> None) ok # evs"
    and evs: "\<forall>ev\<in>set evs. is_tail_event ev" by (auto simp: call_simps)
  have a': "added s (rebuild env ?e ?s1) =
      GetExtent ?z # concat (replicate N [GetExtent ?z, GlfwWaitEvents]) @
        GetExtent ?e # GlfwWaitEvents # VkDeviceWaitIdle # NewSwapChain ?e (vreSwapChain ?s1 \<noteq> None) ok # evs"
    unfolding a tr1 by simp
  show ?thesis
    using False evs
    by (simp add: r a' extent_reads_append reads_replicate waits_replicate constructions_append
        constructions_replicate extent_reads_tail filter_wait_tail constructions_tail)
qed

lemma recreateSwapChain_diverges:
  assumes "\<forall>tr. width (getExtent env tr) = 0 \<or> height (getExtent env tr) = 0"
  shows "recreateSwapChain env s = None"
  using assms by (simp add: recreateSwapChain_def Let_def waitWhileZero_diverges)


lemma recreateSwapChain_ok_eval:
  "recreateSwapChain env_boot app_running =
     Some (Inr (app_running\<lparr>
       vreSwapChain := Some (swapChain3 \<lparr>width = 640, height = 480\<rparr>),
       vrePipeline := Some \<lparr>graphicsPipeline = 40\<rparr>,
       trace := [GetExtent \<lparr>width = 640, height = 480\<rparr>, VkDeviceWaitIdle,
                 NewSwapChain \<lparr>width = 640, height = 480\<rparr> True True,
                 NewPipeline ''shaders/simple_shader.vert.spv'' ''shaders/simple_shader.frag.spv''
                   \<lparr>cfg_renderPass = 20, cfg_pipelineLayout = 5\<rparr> True]\<rparr>))"
  by (simp add: recreateSwapChain_def Let_def env_boot_def app_running_def
      waitWhileZero_nonzero call_def rebuild_def createPipeline_def swapChain3_def
      VK_NULL_HANDLE_def)

lemma recreateSwapChain_minimised_eval:
  "recreateSwapChain env_minimised app_running =
     Some (Inr (app_running\<lparr>
       vreSwapChain := Some (swapChain3 \<lparr>width = 800, height = 600\<rparr>),
       vrePipeline := Some \<lparr>graphicsPipeline = 40\<rparr>,
       trace := [GetExtent \<lparr>width = 0, height = 0\<rparr>,
                 GetExtent \<lparr>width = 0, height = 0\<rparr>, GlfwWaitEvents,
                 GetExtent \<lparr>width = 800, height = 600\<rparr>, GlfwWaitEvents,
                 VkDeviceWaitIdle,
                 NewSwapChain \<lparr>width = 800, height = 600\<rparr> True True,
                 NewPipeline ''shaders/simple_shader.vert.spv'' ''shaders/simple_shader.frag.spv''
                   \<lparr>cfg_renderPass = 20, cfg_pipelineLayout = 5\<rparr> True]\<rparr>))"
  by (simp add: recreateSwapChain_def Let_def env_minimised_def env_boot_def app_running_def
      simulatedWindow_def waitWhileZero_zero waitWhileZero_nonzero call_def rebuild_def
      createPipeline_def swapChain3_def VK_NULL_HANDLE_def)

subsection \<open>What a successful step leaves in the object\<close>

lemma createPipeline_Inr:
  assumes "createPipeline env s = Inr s'"
  shows "vreSwapChain s' = vreSwapChain s \<and> commandBuffers s' = commandBuffers s \<and>
         pipelineLayout s' = pipelineLayout s \<and> vreModel s' = vreModel s \<and>
         vreSwapChain s \<noteq> None \<and> pipelineLayout s \<noteq> VK_NULL_HANDLE \<and>
         vrePipeline s' = newPipeline env (trace s)
           \<lparr>cfg_renderPass = renderPass (the (vreSwapChain s)),
            cfg_pipelineLayout = pipelineLayout s\<rparr> \<and>
         vrePipeline s' \<noteq> None"
  using assms
  by (auto simp: createPipeline_def call_def Let_def split: option.splits if_splits)

lemma length_resize: "length (resize n xs) = n"
  by (simp add: resize_def)

lemma createCommandBuffers_length:
  assumes "vreSwapChain s = Some sc"
  shows "length (commandBuffers (state_of (createCommandBuffers env s))) = imageCount sc"
proof -
  have "size_to_uint32 (imageCount sc) \<le> imageCount sc"
    by (simp add: size_to_uint32_def)
  then show ?thesis using assms
    by (auto simp: createCommandBuffers_def call_def Let_def length_resize split: prod.splits)
qed

lemma createCommandBuffers_Inr:
  assumes "createCommandBuffers env s = Inr s'"
  shows "vreSwapChain s' = vreSwapChain s \<and> vrePipeline s' = vrePipeline s \<and>
         pipelineLayout s' = pipelineLayout s \<and> vreModel s' = vreModel s \<and>
         (\<exists>sc. vreSwapChain s = Some sc \<and> length (commandBuffers s') = imageCount sc)"
proof -
  from assms obtain sc where sc: "vreSwapChain s = Some sc"
    by (auto simp: createCommandBuffers_def split: option.splits)
  from createCommandBuffers_length[OF sc, of env] assms sc
  have "length (commandBuffers s') = imageCount sc" by simp
  moreover from assms sc have "vreSwapChain s' = vreSwapChain s \<and> vrePipeline s' = vrePipeline s \<and>
         pipelineLayout s' = pipelineLayout s \<and> vreModel s' = vreModel s"
    by (auto simp: createCommandBuffers_def call_def Let_def split: prod.splits if_splits)
  ultimately show ?thesis using sc by simp
qed

lemma freeCommandBuffers_members:
  "vreSwapChain (freeCommandBuffers s) = vreSwapChain s"
  "vrePipeline (freeCommandBuffers s) = vrePipeline s"
  "pipelineLayout (freeCommandBuffers s) = pipelineLayout s"
  "vreModel (freeCommandBuffers s) = vreModel s"
  "commandBuffers (freeCommandBuffers s) = []"
  by (simp_all add: freeCommandBuffers_def call_def)

lemma rebuild_Inr:
  assumes "rebuild env e s = Inr s'"
  shows "\<exists>sc. vreSwapChain s' = Some sc \<and>
           (vreSwapChain s \<noteq> None \<longrightarrow> length (commandBuffers s') = imageCount sc) \<and>
           (vreSwapChain s = None \<longrightarrow> commandBuffers s' = commandBuffers s)"
proof (cases "vreSwapChain s")
  case None
  with assms obtain sc where
    "createPipeline env (call (NewSwapChain e False True)
        ((call VkDeviceWaitIdle s)\<lparr>vreSwapChain := Some sc\<rparr>)) = Inr s'"
    by (auto simp: rebuild_def Let_def call_simps split: option.splits)
  from createPipeline_Inr[OF this] None show ?thesis by (simp add: call_simps)
next
  case (Some old)
  with assms obtain sc where sc: "newSwapChain env (trace s @ [VkDeviceWaitIdle]) e (Some old) = Some sc"
    by (auto simp: rebuild_def Let_def call_simps split: option.splits)
  let ?s2 = "call (NewSwapChain e True True) ((call VkDeviceWaitIdle s)\<lparr>vreSwapChain := Some sc\<rparr>)"
  have s2: "vreSwapChain ?s2 = Some sc" "commandBuffers ?s2 = commandBuffers s"
    by (simp_all add: call_simps)
  show ?thesis
  proof (cases "imageCount sc \<noteq> length (commandBuffers s)")
    case True
    with assms Some sc have
      "and_then (createCommandBuffers env (freeCommandBuffers ?s2)) (createPipeline env) = Inr s'"
      by (simp add: rebuild_def Let_def call_simps)
    then obtain s3 where s3: "createCommandBuffers env (freeCommandBuffers ?s2) = Inr s3"
      and s': "createPipeline env s3 = Inr s'"
      by (auto simp: and_then_def split: sum.splits)
    from createCommandBuffers_Inr[OF s3] s2
    have "vreSwapChain s3 = Some sc" "length (commandBuffers s3) = imageCount sc"
      by (simp_all add: freeCommandBuffers_members)
    with createPipeline_Inr[OF s'] Some show ?thesis by simp
  next
    case False
    with assms Some sc have "createPipeline env ?s2 = Inr s'"
      by (simp add: rebuild_def Let_def call_simps)
    from createPipeline_Inr[OF this] s2 False Some show ?thesis by simp
  qed
qed

lemma waitWhileZero_members:
  assumes "waitWhileZero env e s = Some (e', s1)"
  shows "vreSwapChain s1 = vreSwapChain s \<and> vrePipeline s1 = vrePipeline s \<and>
         pipelineLayout s1 = pipelineLayout s \<and> vreModel s1 = vreModel s \<and>
         commandBuffers s1 = commandBuffers s"
  using waitWhileZero_result[OF assms] by auto

lemma recreateSwapChain_rebuild:
  assumes "recreateSwapChain env s = Some r"
  shows "\<exists>e s1. r = rebuild env e s1 \<and> width e \<noteq> 0 \<and> height e \<noteq> 0 \<and>
           vreSwapChain s1 = vreSwapChain s \<and> vrePipeline s1 = vrePipeline s \<and>
           pipelineLayout s1 = pipelineLayout s \<and> vreModel s1 = vreModel s \<and>
           commandBuffers s1 = commandBuffers s"
proof -
  let ?e0 = "getExtent env (trace s)"
  from assms obtain e s1 where w: "waitWhileZero env ?e0 (call (GetExtent ?e0) s) = Some (e, s1)"
    and r: "r = rebuild env e s1"
    by (auto simp: recreateSwapChain_def Let_def split: option.splits)
  from waitWhileZero_members[OF w] waitWhileZero_result[OF w] r show ?thesis
    by (auto simp: call_simps)
qed

lemma recreateSwapChain_Inr:
  assumes "recreateSwapChain env s = Some (Inr s')"
  shows "\<exists>sc. vreSwapChain s' = Some sc \<and>
           (vreSwapChain s \<noteq> None \<longrightarrow> length (commandBuffers s') = imageCount sc) \<and>
           (vreSwapChain s = None \<longrightarrow> commandBuffers s' = commandBuffers s)"
proof -
  from recreateSwapChain_rebuild[OF assms] obtain e s1 where
    "rebuild env e s1 = Inr s'" "vreSwapChain s1 = vreSwapChain s"
    "commandBuffers s1 = commandBuffers s" by metis
  with rebuild_Inr[of env e s1 s'] show ?thesis by simp
qed

lemma VreApp_ctor_Inr:
  assumes "VreApp_ctor env s = Some (Inr s')"
  shows "\<exists>sc. vreSwapChain s' = Some sc \<and> length (commandBuffers s') = imageCount sc"
proof -
  from assms obtain s2 r where "recreateSwapChain env s2 = Some r"
    "and_then r (createCommandBuffers env) = Inr s'"
    by (auto simp: VreApp_ctor_def and_then_opt_def split: sum.splits option.splits)
  then obtain s3 where "createCommandBuffers env s3 = Inr s'"
    by (auto simp: and_then_def split: sum.splits)
  from createCommandBuffers_Inr[OF this] show ?thesis by auto
qed

lemma upt_0_3: "[0..<3] = [0, 1, 2]" and upt_0_2: "[0..<2] = [0, 1]"
  by (simp_all add: numeral_3_eq_3 numeral_2_eq_2)

lemma recreateSwapChain_booting_eval:
  "recreateSwapChain env_boot app_booting =
     Some (Inr (app_booting\<lparr>
       vreSwapChain := Some (swapChain3 \<lparr>width = 640, height = 480\<rparr>),
       vrePipeline := Some \<lparr>graphicsPipeline = 40\<rparr>,
       trace := [GetExtent \<lparr>width = 640, height = 480\<rparr>, VkDeviceWaitIdle,
                 NewSwapChain \<lparr>width = 640, height = 480\<rparr> False True,
                 NewPipeline ''shaders/simple_shader.vert.spv'' ''shaders/simple_shader.frag.spv''
                   \<lparr>cfg_renderPass = 20, cfg_pipelineLayout = 5\<rparr> True]\<rparr>))"
  by (simp add: recreateSwapChain_def Let_def env_boot_def app_booting_def
      waitWhileZero_nonzero call_def rebuild_def createPipeline_def swapChain3_def
      VK_NULL_HANDLE_def)

lemma VreApp_ctor_eval:
  "VreApp_ctor env_boot (fresh 0) =
     Some (Inr \<lparr>vreSwapChain = Some (swapChain3 \<lparr>width = 640, height = 480\<rparr>),
      vrePipeline = Some \<lparr>graphicsPipeline = 40\<rparr>,
      pipelineLayout = 5,
      vreModel = Some \<lparr>vertexBuffer = 7, vertexCount = 3\<rparr>,
      commandBuffers = [50, 51, 52],
      trace = [NewModel vertices True, VkCreatePipelineLayout VK_SUCCESS,
               GetExtent \<lparr>width = 640, height = 480\<rparr>, VkDeviceWaitIdle,
               NewSwapChain \<lparr>width = 640, height = 480\<rparr> False True,
               NewPipeline ''shaders/simple_shader.vert.spv'' ''shaders/simple_shader.frag.spv''
                   \<lparr>cfg_renderPass = 20, cfg_pipelineLayout = 5\<rparr> True,
               VkAllocateCommandBuffers 3 VK_SUCCESS]\<rparr>)"
  by (simp add: VreApp_ctor_def and_then_opt_def and_then_def loadModels_def createPipelineLayout_def
      fresh_def recreateSwapChain_def Let_def env_boot_def
      waitWhileZero_nonzero call_def rebuild_def createPipeline_def swapChain3_def
      VK_NULL_HANDLE_def createCommandBuffers_def resize_def size_to_uint32_def vertices_def
      upt_0_3)

subsection \<open>The conversion of a size to float and back\<close>

lemma bitlen_0 [simp]: "bitlen 0 = 0"
  by simp

lemma bitlen_pos: "0 < n \<Longrightarrow> bitlen n = Suc (bitlen (n div 2))"
  by simp

declare bitlen.simps [simp del]

lemma bitlen_le: "n < 2 ^ j \<Longrightarrow> bitlen n \<le> j"
proof (induction n arbitrary: j rule: bitlen.induct)
  case (1 n)
  show ?case
  proof (cases "n = 0")
    case True
    then show ?thesis by simp
  next
    case False
    with 1(2) obtain i where j: "j = Suc i" by (cases j) auto
    with 1(2) have "n div 2 < 2 ^ i" by auto
    from 1(1)[OF False this] False j show ?thesis by (simp add: bitlen_pos)
  qed
qed

lemma bitlen_double: "0 < n \<Longrightarrow> bitlen (2 * n) = Suc (bitlen n)"
  by (simp add: bitlen_pos)

lemma bitlen_mult_pow2: "0 < m \<Longrightarrow> bitlen (m * 2 ^ k) = bitlen m + k"
proof (induction k)
  case 0
  then show ?case by simp
next
  case (Suc k)
  have "m * 2 ^ Suc k = 2 * (m * 2 ^ k)" by simp
  moreover have "0 < m * 2 ^ k" using Suc.prems by simp
  ultimately have "bitlen (m * 2 ^ Suc k) = Suc (bitlen (m * 2 ^ k))"
    by (simp only: bitlen_double)
  with Suc show ?case by simp
qed

lemma round_to_float_exact:
  assumes "m < 2 ^ 24"
  shows "round_to_float (m * 2 ^ k) = m * 2 ^ k"
proof (cases "m = 0")
  case True
  then show ?thesis by (simp add: round_to_float_def)
next
  case False
  let ?n = "m * 2 ^ k"
  let ?e = "bitlen ?n - 24"
  have "bitlen m \<le> 24" using assms by (rule bitlen_le)
  then have "?e \<le> k" using False by (simp add: bitlen_mult_pow2)
  then have "(2::nat) ^ ?e dvd 2 ^ k" by (rule le_imp_power_dvd)
  then have d: "2 ^ ?e dvd ?n" by (rule dvd_mult)
  then have "?n mod 2 ^ ?e = 0" "?n div 2 ^ ?e * 2 ^ ?e = ?n" by simp_all
  then show ?thesis by (simp add: round_to_float_def Let_def)
qed

lemma float_to_uint32_of_nat:
  "float_to_uint32 (of_nat n) = (if n < 2 ^ 32 then Some n else None)"
proof -
  have "\<lfloor>(of_nat n :: rat)\<rfloor> = int n" by simp
  moreover have "(int n < 2 ^ 32) = (n < 2 ^ 32)"
    by (metis of_nat_less_iff of_nat_numeral of_nat_power)
  ultimately show ?thesis by (simp add: float_to_uint32_def Let_def)
qed

lemma count_exact:
  assumes "m < 2 ^ 24" "m * 2 ^ k < 2 ^ 32"
  shows "float_to_uint32 (to_float (m * 2 ^ k)) = Some (m * 2 ^ k)"
proof -
  have "to_float (m * 2 ^ k) = of_nat (m * 2 ^ k)"
    by (simp only: to_float_def round_to_float_exact[OF assms(1)])
  then show ?thesis using assms(2) by (simp only: float_to_uint32_of_nat if_True)
qed

subsection \<open>Recording\<close>

lemma recorded_commands_map_Cmd: "recorded_commands (map (Cmd cb) cs @ evs) = cs @ recorded_commands evs"
  by (induction cs) simp_all

lemma recordCommandBuffer_Inr:
  assumes "recordCommandBuffer env i s = Inr s'"
  shows "\<exists>cb sc p m. at_index (commandBuffers s) i = Some cb \<and> vreSwapChain s = Some sc \<and>
           vrePipeline s = Some p \<and> vreModel s = Some m \<and>
           s' = s\<lparr>trace := trace s @ VkBeginCommandBuffer cb VK_SUCCESS #
                   map (Cmd cb) (frame_commands p m (swapChainExtent sc) (renderPass sc)
                                   (getFrameBuffer sc i)) @
                   [VkEndCommandBuffer cb VK_SUCCESS]\<rparr>"
proof -
  from assms obtain cb where cb: "at_index (commandBuffers s) i = Some cb"
    by (cases "at_index (commandBuffers s) i") (simp_all add: recordCommandBuffer_def)
  from assms cb have b: "vkBeginCommandBuffer env (trace s) cb = VK_SUCCESS"
    by (simp add: recordCommandBuffer_def Let_def split: if_splits)
  from assms cb b obtain sc where sc: "vreSwapChain s = Some sc"
    by (cases "vreSwapChain s") (simp_all add: recordCommandBuffer_def Let_def call_simps)
  from assms cb b sc obtain p where p: "vrePipeline s = Some p"
    by (cases "vrePipeline s") (simp_all add: recordCommandBuffer_def Let_def call_simps)
  from assms cb b sc p obtain m where m: "vreModel s = Some m"
    by (cases "vreModel s") (simp_all add: recordCommandBuffer_def Let_def call_simps)
  from assms cb b sc p m have "s' = s\<lparr>trace := trace s @ VkBeginCommandBuffer cb VK_SUCCESS #
                   map (Cmd cb) (frame_commands p m (swapChainExtent sc) (renderPass sc)
                                   (getFrameBuffer sc i)) @
                   [VkEndCommandBuffer cb VK_SUCCESS]\<rparr>"
    by (simp add: recordCommandBuffer_def Let_def call_simps frame_commands_def split: if_splits)
       (simp add: call_def)
  with cb sc p m show ?thesis by blast
qed

lemma recordCommandBuffer_recorded:
  assumes "recordCommandBuffer env i s = Inr s'"
  shows "\<exists>sc p m. vreSwapChain s = Some sc \<and> vrePipeline s = Some p \<and> vreModel s = Some m \<and>
           recorded_commands (added s (Inr s')) =
             frame_commands p m (swapChainExtent sc) (renderPass sc) (getFrameBuffer sc i)"
proof -
  from recordCommandBuffer_Inr[OF assms] obtain cb sc p m where
    m: "vreSwapChain s = Some sc" "vrePipeline s = Some p" "vreModel s = Some m" and
    s': "s' = s\<lparr>trace := trace s @ VkBeginCommandBuffer cb VK_SUCCESS #
                   map (Cmd cb) (frame_commands p m (swapChainExtent sc) (renderPass sc)
                                   (getFrameBuffer sc i)) @
                   [VkEndCommandBuffer cb VK_SUCCESS]\<rparr>" by blast
  have "recorded_commands (added s (Inr s')) =
          frame_commands p m (swapChainExtent sc) (renderPass sc) (getFrameBuffer sc i)"
    by (simp add: added_def s' recorded_commands_map_Cmd)
  with m show ?thesis by blast
qed

lemma recordCommandBuffer_eval:
  "0 \<le> i \<Longrightarrow> i < 3 \<Longrightarrow> recordCommandBuffer env_boot i app_running =
     Inr (app_running\<lparr>trace :=
       VkBeginCommandBuffer ([50, 51, 52] ! nat i) VK_SUCCESS #
       map (Cmd ([50, 51, 52] ! nat i))
         (frame_commands \<lparr>graphicsPipeline = 40\<rparr> \<lparr>vertexBuffer = 7, vertexCount = 3\<rparr>
            \<lparr>width = 640, height = 480\<rparr> 20 (30 + nat i)) @
       [VkEndCommandBuffer ([50, 51, 52] ! nat i) VK_SUCCESS]\<rparr>)"
  by (simp add: recordCommandBuffer_def Let_def call_def frame_commands_def env_boot_def
      app_running_def swapChain3_def at_index_def)

subsection \<open>The errors of a recreation and the paths of drawFrame\<close>

lemma at_index_sint_uint:
  fixes i :: "32 word"
  assumes "at_index xs (sint i) = Some x"
  shows "at_index xs (uint i) = Some x"
proof -
  from assms have "0 \<le> sint i" by (simp add: at_index_def split: if_splits)
  moreover have "sint i < 2 ^ 32"
    using sint_lt[of i] by simp
  ultimately have "take_bit 32 (sint i) = sint i"
    by (simp add: take_bit_int_eq_self)
  then have "uint i = sint i"
    using uint_sint[of i] by simp
  with assms show ?thesis by simp
qed

lemma recreateSwapChain_extends:
  assumes "recreateSwapChain env s1 = Some r" "trace s1 = trace s @ pre"
  shows "added s r = pre @ added s1 r"
proof -
  from recreateSwapChain_shape[OF assms(1)] obtain post where
    "trace (state_of r) = trace s1 @ post" by blast
  with assms(2) show ?thesis by (simp add: added_def)
qed

lemma rebuild_Inl:
  assumes "rebuild env e s = Inl (err, s')"
  shows "err = SwapChainConstructorError \<or> err = PipelineConstructorError \<or>
         err = RuntimeError ''failed to allocate command buffers!'' \<or>
         (err = AssertionFailed ''Cannot create pipeline before pipeline layout'' \<and>
          pipelineLayout s = VK_NULL_HANDLE)"
proof -
  have cp: "createPipeline env t = Inl (err, s') \<Longrightarrow> vreSwapChain t \<noteq> None \<Longrightarrow>
      err = PipelineConstructorError \<or>
      (err = AssertionFailed ''Cannot create pipeline before pipeline layout'' \<and>
       pipelineLayout t = VK_NULL_HANDLE)" for t
    by (auto simp: createPipeline_def Let_def split: option.splits if_splits)
  have cc: "createCommandBuffers env t = Inl (err, s') \<Longrightarrow> vreSwapChain t \<noteq> None \<Longrightarrow>
      err = RuntimeError ''failed to allocate command buffers!''" for t
    by (auto simp: createCommandBuffers_def Let_def split: option.splits if_splits prod.splits)
  show ?thesis
  proof (cases "vreSwapChain s")
    case None
    show ?thesis
    proof (cases "newSwapChain env (trace s @ [VkDeviceWaitIdle]) e None")
      case N2: None
      with None assms show ?thesis by (simp add: rebuild_def Let_def call_simps)
    next
      case (Some sc)
      with None assms have "createPipeline env (call (NewSwapChain e False True)
          ((call VkDeviceWaitIdle s)\<lparr>vreSwapChain := Some sc\<rparr>)) = Inl (err, s')"
        by (simp add: rebuild_def Let_def call_simps)
      from cp[OF this] show ?thesis by (auto simp: call_simps)
    qed
  next
    case (Some old)
    show ?thesis
    proof (cases "newSwapChain env (trace s @ [VkDeviceWaitIdle]) e (Some old)")
      case None
      with Some assms show ?thesis by (simp add: rebuild_def Let_def call_simps)
    next
      case S2: (Some sc)
      let ?s2 = "call (NewSwapChain e True True) ((call VkDeviceWaitIdle s)\<lparr>vreSwapChain := Some sc\<rparr>)"
      show ?thesis
      proof (cases "imageCount sc \<noteq> length (commandBuffers s)")
        case True
        with assms Some S2 have a:
          "and_then (createCommandBuffers env (freeCommandBuffers ?s2)) (createPipeline env) =
             Inl (err, s')"
          by (simp add: rebuild_def Let_def call_simps)
        show ?thesis
        proof (cases "createCommandBuffers env (freeCommandBuffers ?s2)")
          case (Inl x)
          with a have "createCommandBuffers env (freeCommandBuffers ?s2) = Inl (err, s')"
            by (simp add: and_then_def)
          from cc[OF this] show ?thesis by (simp add: freeCommandBuffers_members call_simps)
        next
          case (Inr s3)
          with a have c: "createPipeline env s3 = Inl (err, s')" by (simp add: and_then_def)
          from createCommandBuffers_Inr[OF Inr]
          have "vreSwapChain s3 \<noteq> None" "pipelineLayout s3 = pipelineLayout s"
            by (simp_all add: freeCommandBuffers_members call_simps)
          with cp[OF c] show ?thesis by auto
        qed
      next
        case False
        with assms Some S2 have "createPipeline env ?s2 = Inl (err, s')"
          by (simp add: rebuild_def Let_def call_simps)
        from cp[OF this] show ?thesis by (auto simp: call_simps)
      qed
    qed
  qed
qed

lemma recreateSwapChain_Inl:
  assumes "recreateSwapChain env s = Some (Inl (err, s'))"
  shows "err = SwapChainConstructorError \<or> err = PipelineConstructorError \<or>
         err = RuntimeError ''failed to allocate command buffers!'' \<or>
         (err = AssertionFailed ''Cannot create pipeline before pipeline layout'' \<and>
          pipelineLayout s = VK_NULL_HANDLE)"
proof -
  from recreateSwapChain_rebuild[OF assms] obtain e s1 where
    "rebuild env e s1 = Inl (err, s')" "pipelineLayout s1 = pipelineLayout s" by metis
  with rebuild_Inl[of env e s1 err s'] show ?thesis by simp
qed

lemma recordCommandBuffer_Inl:
  assumes "recordCommandBuffer env i s = Inl (err, s')"
  shows "err = IndexOutOfRange \<or> err = NullDereference \<or>
         err = RuntimeError ''failed to begin recording command buffer!'' \<or>
         err = RuntimeError ''failed to record command buffer''"
  using assms
  by (simp add: recordCommandBuffer_def Let_def call_simps split: option.splits if_splits)

lemma drawFrame_out_of_date:
  assumes "vreSwapChain s \<noteq> None" "acquireNextImage env (trace s) = (VK_ERROR_OUT_OF_DATE_KHR, i)"
  shows "drawFrame env s = recreateSwapChain env (call (AcquireNextImage VK_ERROR_OUT_OF_DATE_KHR i) s)"
  using assms by (auto simp: drawFrame_def Let_def)

lemma drawFrame_acquire_failed:
  assumes "vreSwapChain s \<noteq> None" "acquireNextImage env (trace s) = (ra, i)"
    "ra \<noteq> VK_ERROR_OUT_OF_DATE_KHR" "ra \<noteq> VK_SUCCESS" "ra \<noteq> VK_SUBOPTIMAL_KHR"
  shows "drawFrame env s =
    Some (Inl (RuntimeError ''failed to acquire swap chain image!'', call (AcquireNextImage ra i) s))"
  using assms by (auto simp: drawFrame_def Let_def)

lemma drawFrame_record_failed:
  assumes "vreSwapChain s \<noteq> None" "acquireNextImage env (trace s) = (ra, i)"
    "ra = VK_SUCCESS \<or> ra = VK_SUBOPTIMAL_KHR"
    "recordCommandBuffer env (sint i) (call (AcquireNextImage ra i) s) = Inl x"
  shows "drawFrame env s = Some (Inl x)"
  using assms by (auto simp: drawFrame_def Let_def and_then_opt_def)

lemma drawFrame_submitted:
  assumes sc: "vreSwapChain s \<noteq> None" and acq: "acquireNextImage env (trace s) = (ra, i)"
    and ok: "ra = VK_SUCCESS \<or> ra = VK_SUBOPTIMAL_KHR"
    and rec: "recordCommandBuffer env (sint i) (call (AcquireNextImage ra i) s) = Inr s2"
  shows "\<exists>cb. at_index (commandBuffers s) (sint i) = Some cb \<and>
     drawFrame env s =
      (let result2 = submitCommandBuffers env (trace s2) cb i;
           s3 = call (SubmitCommandBuffers cb i result2) s2
       in if result2 = VK_ERROR_OUT_OF_DATE_KHR \<or> result2 = VK_SUBOPTIMAL_KHR
          then recreateSwapChain env (call ResetWindowResizedFlag s3)
          else
            let resized = wasWindowResized env (trace s3);
                s4 = call (WasWindowResized resized) s3
            in if resized
               then recreateSwapChain env (call ResetWindowResizedFlag s4)
               else if result2 \<noteq> VK_SUCCESS
               then Some (Inl (RuntimeError ''failed to present swap chain image!'', s4))
               else Some (Inr s4))"
proof -
  let ?s1 = "call (AcquireNextImage ra i) s"
  from recordCommandBuffer_Inr[OF rec] obtain cb sc2 where
    cb: "at_index (commandBuffers ?s1) (sint i) = Some cb" and
    s2: "vreSwapChain s2 = Some sc2" "commandBuffers s2 = commandBuffers s"
    by (auto simp: call_simps)
  from cb have cb': "at_index (commandBuffers s) (sint i) = Some cb" by (simp add: call_simps)
  from at_index_sint_uint[OF cb'] s2 have u: "at_index (commandBuffers s2) (uint i) = Some cb"
    by simp
  from sc obtain sc0 where sc0: "vreSwapChain s = Some sc0" by auto
  have "drawFrame env s =
      (let result2 = submitCommandBuffers env (trace s2) cb i;
           s3 = call (SubmitCommandBuffers cb i result2) s2
       in if result2 = VK_ERROR_OUT_OF_DATE_KHR \<or> result2 = VK_SUBOPTIMAL_KHR
          then recreateSwapChain env (call ResetWindowResizedFlag s3)
          else
            let resized = wasWindowResized env (trace s3);
                s4 = call (WasWindowResized resized) s3
            in if resized
               then recreateSwapChain env (call ResetWindowResizedFlag s4)
               else if result2 \<noteq> VK_SUCCESS
               then Some (Inl (RuntimeError ''failed to present swap chain image!'', s4))
               else Some (Inr s4))"
    using ok
    by (simp only: drawFrame_def sc0 acq rec s2(1) u option.case prod.case Let_def
        and_then_opt_def sum.case) auto
  with cb' show ?thesis by blast
qed

lemma error_of_simps:
  "error_of None = None"
  "error_of (Some (Inl (err, s))) = Some err"
  "error_of (Some (Inr s)) = None"
  by (simp_all add: error_of_def)

lemma drawFrame_error_acquire:
  "error_of (drawFrame env s) = Some (RuntimeError ''failed to acquire swap chain image!'') \<longleftrightarrow>
     vreSwapChain s \<noteq> None \<and>
     fst (acquireNextImage env (trace s)) \<noteq> VK_SUCCESS \<and>
     fst (acquireNextImage env (trace s)) \<noteq> VK_SUBOPTIMAL_KHR \<and>
     fst (acquireNextImage env (trace s)) \<noteq> VK_ERROR_OUT_OF_DATE_KHR"
proof (cases "vreSwapChain s")
  case None
  then show ?thesis by (simp add: drawFrame_def error_of_def)
next
  case (Some sc)
  obtain ra i where acq: "acquireNextImage env (trace s) = (ra, i)"
    by (cases "acquireNextImage env (trace s)")
  let ?s1 = "call (AcquireNextImage ra i) s"
  have sc: "vreSwapChain s \<noteq> None" using Some by simp
  have rc: "error_of (recreateSwapChain env t) \<noteq>
      Some (RuntimeError ''failed to acquire swap chain image!'')" for t
  proof (cases "recreateSwapChain env t")
    case None
    then show ?thesis by (simp add: error_of_def)
  next
    case (Some r)
    show ?thesis
    proof (cases r)
      case (Inl x)
      obtain err s' where "x = (err, s')" by (cases x)
      with Some Inl recreateSwapChain_Inl[of env t err s'] show ?thesis
        by (auto simp: error_of_def)
    next
      case (Inr s')
      with Some show ?thesis by (simp add: error_of_def)
    qed
  qed
  consider (ood) "ra = VK_ERROR_OUT_OF_DATE_KHR"
    | (ok) "ra = VK_SUCCESS \<or> ra = VK_SUBOPTIMAL_KHR"
    | (bad) "ra \<noteq> VK_ERROR_OUT_OF_DATE_KHR" "ra \<noteq> VK_SUCCESS" "ra \<noteq> VK_SUBOPTIMAL_KHR"
    by blast
  then show ?thesis
  proof cases
    case ood
    with drawFrame_out_of_date[OF sc, of env i] acq rc[of ?s1] sc show ?thesis by simp
  next
    case bad
    with drawFrame_acquire_failed[OF sc acq] acq sc show ?thesis by (simp add: error_of_def)
  next
    case ok
    have "error_of (drawFrame env s) \<noteq> Some (RuntimeError ''failed to acquire swap chain image!'')"
    proof (cases "recordCommandBuffer env (sint i) ?s1")
      case (Inl x)
      obtain err s' where x: "x = (err, s')" by (cases x)
      from drawFrame_record_failed[OF sc acq ok Inl] recordCommandBuffer_Inl[of env "sint i" ?s1 err s']
        Inl x
      show ?thesis by (auto simp: error_of_def)
    next
      case (Inr s2)
      from drawFrame_submitted[OF sc acq ok Inr] rc show ?thesis
        by (auto simp: Let_def error_of_simps split: if_splits)
    qed
    with ok acq show ?thesis by auto
  qed
qed

lemma drawFrame_out_of_date_added:
  assumes sc: "vreSwapChain s \<noteq> None"
    and acq: "fst (acquireNextImage env (trace s)) = VK_ERROR_OUT_OF_DATE_KHR"
  shows "drawFrame env s =
      recreateSwapChain env
        (s\<lparr>trace := trace s @ [AcquireNextImage VK_ERROR_OUT_OF_DATE_KHR
                                (snd (acquireNextImage env (trace s)))]\<rparr>) \<and>
     (\<forall>r. drawFrame env s = Some r \<longrightarrow>
        filter is_recording (added s r) = [] \<and> filter is_submission (added s r) = [] \<and>
        length (constructions (added s r)) = 1 \<and>
        length (filter is_idle_wait (added s r)) = 1)"
proof -
  let ?i = "snd (acquireNextImage env (trace s))"
  let ?s1 = "s\<lparr>trace := trace s @ [AcquireNextImage VK_ERROR_OUT_OF_DATE_KHR ?i]\<rparr>"
  from acq have "acquireNextImage env (trace s) = (VK_ERROR_OUT_OF_DATE_KHR, ?i)"
    by (cases "acquireNextImage env (trace s)") simp
  from drawFrame_out_of_date[OF sc this]
  have eq: "drawFrame env s = recreateSwapChain env ?s1" by (simp add: call_def)
  have "filter is_recording (added s r) = [] \<and> filter is_submission (added s r) = [] \<and>
        length (constructions (added s r)) = 1 \<and>
        length (filter is_idle_wait (added s r)) = 1" if "drawFrame env s = Some r" for r
  proof -
    from that eq have r: "recreateSwapChain env ?s1 = Some r" by simp
    have "added s r = [AcquireNextImage VK_ERROR_OUT_OF_DATE_KHR ?i] @ added ?s1 r"
      by (rule recreateSwapChain_extends[OF r]) simp
    with recreateSwapChain_added[OF r] show ?thesis by auto
  qed
  with eq show ?thesis by blast
qed

lemma drawFrame_stale_added:
  assumes sc: "vreSwapChain s \<noteq> None"
    and acq: "acquireNextImage env (trace s) = (ra, i)"
    and ok: "ra = VK_SUCCESS \<or> ra = VK_SUBOPTIMAL_KHR"
    and rec: "recordCommandBuffer env (sint i) (call (AcquireNextImage ra i) s) = Inr s2"
    and cb: "at_index (commandBuffers s) (sint i) = Some cb"
    and r2: "r2 = submitCommandBuffers env (trace s2) cb i"
    and stale: "r2 = VK_ERROR_OUT_OF_DATE_KHR \<or> r2 = VK_SUBOPTIMAL_KHR \<or>
                wasWindowResized env (trace s2 @ [SubmitCommandBuffers cb i r2])"
  shows "\<exists>sc p m. vreSwapChain s = Some sc \<and> vrePipeline s = Some p \<and> vreModel s = Some m \<and>
     drawFrame env s =
       recreateSwapChain env
         (s\<lparr>trace := trace s @
              stale_frame_calls ra i cb
                (frame_commands p m (swapChainExtent sc) (renderPass sc)
                   (getFrameBuffer sc (sint i))) r2\<rparr>) \<and>
     (\<forall>r. drawFrame env s = Some r \<longrightarrow>
        (\<exists>post. added s r =
             stale_frame_calls ra i cb
               (frame_commands p m (swapChainExtent sc) (renderPass sc)
                  (getFrameBuffer sc (sint i))) r2 @ post \<and>
           filter is_recording post = [] \<and> filter is_submission post = [] \<and>
           length (constructions post) = 1 \<and> length (filter is_idle_wait post) = 1) \<and>
        filter is_submission (added s r) = [SubmitCommandBuffers cb i r2] \<and>
        length (constructions (added s r)) = 1)"
proof -
  let ?s1 = "call (AcquireNextImage ra i) s"
  from recordCommandBuffer_Inr[OF rec] cb obtain sc0 p m where
    m: "vreSwapChain s = Some sc0" "vrePipeline s = Some p" "vreModel s = Some m" and
    s2: "s2 = ?s1\<lparr>trace := trace ?s1 @ VkBeginCommandBuffer cb VK_SUCCESS #
                   map (Cmd cb) (frame_commands p m (swapChainExtent sc0) (renderPass sc0)
                                   (getFrameBuffer sc0 (sint i))) @
                   [VkEndCommandBuffer cb VK_SUCCESS]\<rparr>"
    by (auto simp: call_simps)
  let ?cmds = "frame_commands p m (swapChainExtent sc0) (renderPass sc0) (getFrameBuffer sc0 (sint i))"
  let ?pre = "stale_frame_calls ra i cb ?cmds r2"
  let ?s4 = "s\<lparr>trace := trace s @ ?pre\<rparr>"
  from drawFrame_submitted[OF sc acq ok rec] cb have d: "drawFrame env s =
      (let result2 = submitCommandBuffers env (trace s2) cb i;
           s3 = call (SubmitCommandBuffers cb i result2) s2
       in if result2 = VK_ERROR_OUT_OF_DATE_KHR \<or> result2 = VK_SUBOPTIMAL_KHR
          then recreateSwapChain env (call ResetWindowResizedFlag s3)
          else
            let resized = wasWindowResized env (trace s3);
                s4 = call (WasWindowResized resized) s3
            in if resized
               then recreateSwapChain env (call ResetWindowResizedFlag s4)
               else if result2 \<noteq> VK_SUCCESS
               then Some (Inl (RuntimeError ''failed to present swap chain image!'', s4))
               else Some (Inr s4))"
    by auto
  have eq: "drawFrame env s = recreateSwapChain env ?s4"
  proof (cases "r2 = VK_ERROR_OUT_OF_DATE_KHR \<or> r2 = VK_SUBOPTIMAL_KHR")
    case True
    have "call ResetWindowResizedFlag (call (SubmitCommandBuffers cb i r2) s2) = ?s4"
      using True by (simp add: s2 call_def stale_frame_calls_def)
    with d True r2 show ?thesis by (simp add: Let_def)
  next
    case False
    with stale have w: "wasWindowResized env (trace (call (SubmitCommandBuffers cb i r2) s2))"
      by (simp add: call_simps)
    have "call ResetWindowResizedFlag (call (WasWindowResized True)
            (call (SubmitCommandBuffers cb i r2) s2)) = ?s4"
      using False by (simp add: s2 call_def stale_frame_calls_def)
    with d False r2 w show ?thesis by (simp add: Let_def)
  qed
  have "(\<exists>post. added s r = ?pre @ post \<and>
           filter is_recording post = [] \<and> filter is_submission post = [] \<and>
           length (constructions post) = 1 \<and> length (filter is_idle_wait post) = 1) \<and>
        filter is_submission (added s r) = [SubmitCommandBuffers cb i r2] \<and>
        length (constructions (added s r)) = 1" if "drawFrame env s = Some r" for r
  proof -
    from that eq have r: "recreateSwapChain env ?s4 = Some r" by simp
    have a: "added s r = ?pre @ added ?s4 r"
      by (rule recreateSwapChain_extends[OF r]) simp
    from recreateSwapChain_added[OF r] have post:
      "filter is_recording (added ?s4 r) = []" "filter is_submission (added ?s4 r) = []"
      "length (constructions (added ?s4 r)) = 1" "length (filter is_idle_wait (added ?s4 r)) = 1"
      by auto
    have f: "filter is_submission ?pre = [SubmitCommandBuffers cb i r2]"
      by (simp add: stale_frame_calls_def filter_empty_conv)
    have c: "constructions ?pre = []"
    proof -
      have "constructions (map (Cmd cb) cs @ evs) = constructions evs" for cs evs
        by (induction cs) simp_all
      then show ?thesis by (simp add: stale_frame_calls_def)
    qed
    from a post f c show ?thesis by (auto simp: constructions_append)
  qed
  with eq m show ?thesis by blast
qed

subsection \<open>Evaluation in the concrete environments\<close>

lemmas eval_defs =
  drawFrame_def recreateSwapChain_def rebuild_def createPipeline_def createCommandBuffers_def
  freeCommandBuffers_def recordCommandBuffer_def and_then_def and_then_opt_def call_def Let_def
  at_index_def resize_def size_to_uint32_def VK_NULL_HANDLE_def
  waitWhileZero_nonzero waitWhileZero_zero
  env_boot_def app_running_def swapChain3_def swapChain2_def

lemma drawFrame_out_of_date_eval:
  "succeeded (drawFrame env_out_of_date app_running) \<noteq> None"
  by (simp add: eval_defs env_out_of_date_def succeeded_def)

lemma drawFrame_stale_acquire_eval:
  "error_of (drawFrame env_stale_acquire app_running) =
     Some (RuntimeError ''failed to allocate command buffers!'')"
  by (simp add: eval_defs env_stale_acquire_def error_of_def)

lemma drawFrame_resized_eval:
  "succeeded (drawFrame env_resized app_running) \<noteq> None"
  by (simp add: eval_defs env_resized_def succeeded_def)

lemma drawFrame_stale_submit_eval:
  "error_of (drawFrame env_stale_submit app_running) =
     Some (RuntimeError ''failed to allocate command buffers!'') \<and>
   filter is_submission (added_by app_running (drawFrame env_stale_submit app_running)) =
     [SubmitCommandBuffers 50 0 VK_SUBOPTIMAL_KHR]"
  by (simp add: eval_defs env_stale_submit_def error_of_def added_by_def added_def state_of_def)

subsection \<open>Replacing a swap chain\<close>

lemma pipeline_build_facts:
  "is_pipeline_build ev \<Longrightarrow> \<not> is_free ev \<and> \<not> is_allocate ev"
  by (cases ev) simp_all

lemma createPipeline_state:
  "vreSwapChain (state_of (createPipeline env t)) = vreSwapChain t \<and>
   commandBuffers (state_of (createPipeline env t)) = commandBuffers t \<and>
   (\<exists>rest. trace (state_of (createPipeline env t)) = trace t @ rest \<and>
         (\<forall>ev\<in>set rest. is_pipeline_build ev))"
  by (auto simp: createPipeline_def call_def Let_def split: option.splits)

lemma createCommandBuffers_state:
  assumes "vreSwapChain t = Some sc"
  shows "vreSwapChain (state_of (createCommandBuffers env t)) = Some sc \<and>
     length (commandBuffers (state_of (createCommandBuffers env t))) = imageCount sc \<and>
     (\<exists>res. trace (state_of (createCommandBuffers env t)) =
        trace t @ [VkAllocateCommandBuffers (size_to_uint32 (imageCount sc)) res])"
  using assms createCommandBuffers_length[OF assms, of env]
  by (auto simp: createCommandBuffers_def call_def Let_def length_resize split: prod.splits)

lemma and_then_createPipeline_state:
  "vreSwapChain (state_of (and_then r (createPipeline env))) = vreSwapChain (state_of r) \<and>
   commandBuffers (state_of (and_then r (createPipeline env))) = commandBuffers (state_of r) \<and>
   (\<exists>rest. trace (state_of (and_then r (createPipeline env))) = trace (state_of r) @ rest \<and>
         (\<forall>ev\<in>set rest. is_pipeline_build ev))"
proof (cases r)
  case (Inl a)
  then show ?thesis by (cases a) (simp add: and_then_def)
next
  case (Inr t)
  with createPipeline_state[of env t] show ?thesis by (simp add: and_then_def)
qed

lemma rebuild_replace:
  assumes old: "vreSwapChain s = Some old"
    and new: "vreSwapChain (state_of (rebuild env e s)) = Some new"
  shows "newSwapChain env (trace s @ [VkDeviceWaitIdle]) e (Some old) = Some new \<and>
    (imageCount new \<noteq> length (commandBuffers s) \<longrightarrow>
       (\<exists>res rest. trace (state_of (rebuild env e s)) =
          trace s @ [VkDeviceWaitIdle, NewSwapChain e True True,
            VkFreeCommandBuffers (float_to_uint32 (to_float (length (commandBuffers s))))
              (commandBuffers s),
            VkAllocateCommandBuffers (size_to_uint32 (imageCount new)) res] @ rest \<and>
          (\<forall>ev\<in>set rest. is_pipeline_build ev)) \<and>
       length (commandBuffers (state_of (rebuild env e s))) = imageCount new) \<and>
    (imageCount new = length (commandBuffers s) \<longrightarrow>
       (\<exists>rest. trace (state_of (rebuild env e s)) =
          trace s @ [VkDeviceWaitIdle, NewSwapChain e True True] @ rest \<and>
          (\<forall>ev\<in>set rest. is_pipeline_build ev)) \<and>
       commandBuffers (state_of (rebuild env e s)) = commandBuffers s)"
proof (cases "newSwapChain env (trace s @ [VkDeviceWaitIdle]) e (Some old)")
  case None
  with old new show ?thesis by (simp add: rebuild_def Let_def call_simps)
next
  case (Some sc)
  let ?s2 = "call (NewSwapChain e True True) ((call VkDeviceWaitIdle s)\<lparr>vreSwapChain := Some sc\<rparr>)"
  have s2: "vreSwapChain ?s2 = Some sc" "commandBuffers ?s2 = commandBuffers s"
    "trace ?s2 = trace s @ [VkDeviceWaitIdle, NewSwapChain e True True]"
    by (simp_all add: call_simps)
  show ?thesis
  proof (cases "imageCount sc \<noteq> length (commandBuffers s)")
    case True
    let ?s3 = "freeCommandBuffers ?s2"
    let ?r = "createCommandBuffers env ?s3"
    have r: "rebuild env e s = and_then ?r (createPipeline env)"
      using old Some True by (simp add: rebuild_def Let_def call_simps)
    have s3: "vreSwapChain ?s3 = Some sc"
      "trace ?s3 = trace s @ [VkDeviceWaitIdle, NewSwapChain e True True,
         VkFreeCommandBuffers (float_to_uint32 (to_float (length (commandBuffers s))))
              (commandBuffers s)]"
      using s2 by (simp_all add: freeCommandBuffers_members freeCommandBuffers_trace)
    from createCommandBuffers_state[OF s3(1), of env] obtain res where
      c: "vreSwapChain (state_of ?r) = Some sc"
         "length (commandBuffers (state_of ?r)) = imageCount sc"
         "trace (state_of ?r) = trace ?s3 @ [VkAllocateCommandBuffers (size_to_uint32 (imageCount sc)) res]"
      by blast
    from and_then_createPipeline_state[of ?r env] obtain rest where
      p: "vreSwapChain (state_of (rebuild env e s)) = vreSwapChain (state_of ?r)"
         "commandBuffers (state_of (rebuild env e s)) = commandBuffers (state_of ?r)"
         "trace (state_of (rebuild env e s)) = trace (state_of ?r) @ rest"
         "\<forall>ev\<in>set rest. is_pipeline_build ev"
      unfolding r by blast
    from new p(1) c(1) have eq: "new = sc" by simp
    from p c s3(2) have "trace (state_of (rebuild env e s)) =
          trace s @ [VkDeviceWaitIdle, NewSwapChain e True True,
            VkFreeCommandBuffers (float_to_uint32 (to_float (length (commandBuffers s))))
              (commandBuffers s),
            VkAllocateCommandBuffers (size_to_uint32 (imageCount sc)) res] @ rest"
      by simp
    with p(2,4) c(2) True Some eq show ?thesis by auto
  next
    case False
    have r: "rebuild env e s = createPipeline env ?s2"
      using old Some False by (simp add: rebuild_def Let_def call_simps)
    from createPipeline_state[of env ?s2] obtain rest where
      p: "vreSwapChain (state_of (rebuild env e s)) = Some sc"
         "commandBuffers (state_of (rebuild env e s)) = commandBuffers s"
         "trace (state_of (rebuild env e s)) = trace ?s2 @ rest"
         "\<forall>ev\<in>set rest. is_pipeline_build ev"
      unfolding r using s2 by auto
    from new p(1) have eq: "new = sc" by simp
    from p s2(3) False Some eq show ?thesis by auto
  qed
qed

lemma recreateSwapChain_rebuild_trace:
  assumes "recreateSwapChain env s = Some r"
  shows "\<exists>e s1 loop. r = rebuild env e s1 \<and>
           vreSwapChain s1 = vreSwapChain s \<and> vrePipeline s1 = vrePipeline s \<and>
           pipelineLayout s1 = pipelineLayout s \<and> vreModel s1 = vreModel s \<and>
           commandBuffers s1 = commandBuffers s \<and>
           trace s1 = trace s @ loop \<and> (\<forall>ev\<in>set loop. is_loop_event ev)"
proof -
  let ?e0 = "getExtent env (trace s)"
  from assms obtain e s1 where w: "waitWhileZero env ?e0 (call (GetExtent ?e0) s) = Some (e, s1)"
    and r: "r = rebuild env e s1"
    by (auto simp: recreateSwapChain_def Let_def split: option.splits)
  from waitWhileZero_result[OF w] obtain evs where
    s1: "s1 = (call (GetExtent ?e0) s)\<lparr>trace := trace (call (GetExtent ?e0) s) @ evs\<rparr>"
    and evs: "\<forall>ev\<in>set evs. is_loop_event ev" by auto
  have "trace s1 = trace s @ (GetExtent ?e0 # evs)"
    "\<forall>ev\<in>set (GetExtent ?e0 # evs). is_loop_event ev"
    using s1 evs by (simp_all add: call_def)
  moreover have "vreSwapChain s1 = vreSwapChain s \<and> vrePipeline s1 = vrePipeline s \<and>
           pipelineLayout s1 = pipelineLayout s \<and> vreModel s1 = vreModel s \<and>
           commandBuffers s1 = commandBuffers s"
    using s1 by (simp add: call_def)
  ultimately show ?thesis using r by blast
qed

lemma filter_pipeline_builds:
  assumes "\<forall>ev\<in>set rest. is_pipeline_build ev"
  shows "filter is_reallocation rest = []"
  using assms by (auto simp: filter_empty_conv is_reallocation_def dest: pipeline_build_facts)

lemma filter_loop_reallocation:
  assumes "\<forall>ev\<in>set loop. is_loop_event ev"
  shows "filter is_reallocation loop = []"
  using assms by (auto simp: filter_empty_conv is_reallocation_def dest: loop_event_facts)

lemma recreateSwapChain_replace:
  assumes old: "vreSwapChain s = Some old"
    and r: "recreateSwapChain env s = Some r"
    and new: "vreSwapChain (state_of r) = Some new"
  shows "(\<exists>tr e. newSwapChain env tr e (Some old) = Some new) \<and>
    (imageCount new \<noteq> length (commandBuffers s) \<longrightarrow>
       (\<exists>res. filter is_reallocation (added s r) =
          [VkFreeCommandBuffers (float_to_uint32 (to_float (length (commandBuffers s))))
             (commandBuffers s),
           VkAllocateCommandBuffers (size_to_uint32 (imageCount new)) res]) \<and>
       length (commandBuffers (state_of r)) = imageCount new) \<and>
    (imageCount new = length (commandBuffers s) \<longrightarrow>
       filter is_reallocation (added s r) = [] \<and>
       commandBuffers (state_of r) = commandBuffers s)"
proof -
  from recreateSwapChain_rebuild_trace[OF r] obtain e s1 loop where
    1: "r = rebuild env e s1" "vreSwapChain s1 = vreSwapChain s"
       "commandBuffers s1 = commandBuffers s" "trace s1 = trace s @ loop"
       "\<forall>ev\<in>set loop. is_loop_event ev"
    by blast
  have old1: "vreSwapChain s1 = Some old" using 1(2) old by simp
  have new1: "vreSwapChain (state_of (rebuild env e s1)) = Some new" using new 1(1) by simp
  note rr = rebuild_replace[OF old1 new1]
  have l: "filter is_reallocation loop = []" by (rule filter_loop_reallocation[OF 1(5)])
  show ?thesis
  proof (intro conjI impI)
    from rr show "\<exists>tr e. newSwapChain env tr e (Some old) = Some new" by blast
  next
    assume d: "imageCount new \<noteq> length (commandBuffers s)"
    with rr 1(3) obtain res rest where
      t: "trace (state_of (rebuild env e s1)) =
          trace s1 @ [VkDeviceWaitIdle, NewSwapChain e True True,
            VkFreeCommandBuffers (float_to_uint32 (to_float (length (commandBuffers s))))
              (commandBuffers s),
            VkAllocateCommandBuffers (size_to_uint32 (imageCount new)) res] @ rest"
         "\<forall>ev\<in>set rest. is_pipeline_build ev"
      by auto
    have "added s r = loop @ [VkDeviceWaitIdle, NewSwapChain e True True,
            VkFreeCommandBuffers (float_to_uint32 (to_float (length (commandBuffers s))))
              (commandBuffers s),
            VkAllocateCommandBuffers (size_to_uint32 (imageCount new)) res] @ rest"
      using t(1) 1(1,4) by (simp add: added_def)
    then have "filter is_reallocation (added s r) =
          [VkFreeCommandBuffers (float_to_uint32 (to_float (length (commandBuffers s))))
             (commandBuffers s),
           VkAllocateCommandBuffers (size_to_uint32 (imageCount new)) res]"
      using l filter_pipeline_builds[OF t(2)] by (simp add: is_reallocation_def)
    then show "\<exists>res. filter is_reallocation (added s r) =
          [VkFreeCommandBuffers (float_to_uint32 (to_float (length (commandBuffers s))))
             (commandBuffers s),
           VkAllocateCommandBuffers (size_to_uint32 (imageCount new)) res]" by blast
  next
    assume d: "imageCount new \<noteq> length (commandBuffers s)"
    with rr 1(1,3) show "length (commandBuffers (state_of r)) = imageCount new" by simp
  next
    assume d: "imageCount new = length (commandBuffers s)"
    with rr 1(3) obtain rest where
      t: "trace (state_of (rebuild env e s1)) =
          trace s1 @ [VkDeviceWaitIdle, NewSwapChain e True True] @ rest"
         "\<forall>ev\<in>set rest. is_pipeline_build ev"
      by auto
    have "added s r = loop @ [VkDeviceWaitIdle, NewSwapChain e True True] @ rest"
      using t(1) 1(1,4) by (simp add: added_def)
    then show "filter is_reallocation (added s r) = []"
      using l filter_pipeline_builds[OF t(2)] by (simp add: is_reallocation_def)
  next
    assume d: "imageCount new = length (commandBuffers s)"
    with rr 1(1,3) show "commandBuffers (state_of r) = commandBuffers s" by simp
  qed
qed


lemma rebuild_Inr_last:
  assumes "rebuild env e s = Inr s'"
  shows "\<exists>t. createPipeline env t = Inr s' \<and> pipelineLayout t = pipelineLayout s"
proof (cases "vreSwapChain s")
  case None
  with assms obtain sc where
    "createPipeline env (call (NewSwapChain e False True)
        ((call VkDeviceWaitIdle s)\<lparr>vreSwapChain := Some sc\<rparr>)) = Inr s'"
    by (auto simp: rebuild_def Let_def call_simps split: option.splits)
  then show ?thesis by (intro exI conjI, assumption) (simp add: call_simps)
next
  case (Some old)
  with assms obtain sc where sc: "newSwapChain env (trace s @ [VkDeviceWaitIdle]) e (Some old) = Some sc"
    by (auto simp: rebuild_def Let_def call_simps split: option.splits)
  let ?s2 = "call (NewSwapChain e True True) ((call VkDeviceWaitIdle s)\<lparr>vreSwapChain := Some sc\<rparr>)"
  show ?thesis
  proof (cases "imageCount sc \<noteq> length (commandBuffers s)")
    case True
    with assms Some sc have
      "and_then (createCommandBuffers env (freeCommandBuffers ?s2)) (createPipeline env) = Inr s'"
      by (simp add: rebuild_def Let_def call_simps)
    then obtain s3 where s3: "createCommandBuffers env (freeCommandBuffers ?s2) = Inr s3"
      and s': "createPipeline env s3 = Inr s'"
      by (auto simp: and_then_def split: sum.splits)
    from createCommandBuffers_Inr[OF s3] have "pipelineLayout s3 = pipelineLayout s"
      by (simp add: freeCommandBuffers_members call_simps)
    with s' show ?thesis by blast
  next
    case False
    with assms Some sc have "createPipeline env ?s2 = Inr s'"
      by (simp add: rebuild_def Let_def call_simps)
    then show ?thesis by (intro exI conjI, assumption) (simp add: call_simps)
  qed
qed

lemma recreateSwapChain_Inr_pipeline:
  assumes "recreateSwapChain env s = Some (Inr s')"
  shows "\<exists>tr sc. vreSwapChain s' = Some sc \<and>
     vrePipeline s' = newPipeline env tr
       \<lparr>cfg_renderPass = renderPass sc, cfg_pipelineLayout = pipelineLayout s\<rparr> \<and>
     vrePipeline s' \<noteq> None \<and> pipelineLayout s' = pipelineLayout s \<and>
     vreModel s' = vreModel s"
proof -
  from recreateSwapChain_rebuild[OF assms] obtain e s1 where
    r: "rebuild env e s1 = Inr s'" and m: "pipelineLayout s1 = pipelineLayout s"
      "vreModel s1 = vreModel s" by metis
  from rebuild_Inr_last[OF r] obtain t where
    t: "createPipeline env t = Inr s'" "pipelineLayout t = pipelineLayout s1" by blast
  note cp = createPipeline_Inr[OF t(1)]
  from cp obtain sc where sc: "vreSwapChain t = Some sc" by auto
  from cp sc have "vreSwapChain s' = Some sc" by simp
  moreover from cp sc have "vrePipeline s' = newPipeline env (trace t)
       \<lparr>cfg_renderPass = renderPass sc, cfg_pipelineLayout = pipelineLayout t\<rparr>"
    by simp
  moreover from cp have "vrePipeline s' \<noteq> None" by blast
  moreover from cp have "pipelineLayout s' = pipelineLayout t" by blast
  moreover have "vreModel s' = vreModel s"
  proof -
    have "vreModel (state_of (rebuild env e s1)) = vreModel s1"
      by (auto simp: rebuild_def Let_def call_def createPipeline_def createCommandBuffers_def
          freeCommandBuffers_def and_then_def split: option.splits prod.splits sum.splits)
    with r m show ?thesis by simp
  qed
  ultimately show ?thesis using t(2) m by auto
qed

lemma recreateSwapChain_resized_eval:
  "recreateSwapChain env_resized app_running =
     Some (Inr (app_running\<lparr>
       vreSwapChain := Some (swapChain3 \<lparr>width = 1280, height = 720\<rparr>),
       vrePipeline := Some \<lparr>graphicsPipeline = 40\<rparr>,
       trace := [GetExtent \<lparr>width = 1280, height = 720\<rparr>, VkDeviceWaitIdle,
                 NewSwapChain \<lparr>width = 1280, height = 720\<rparr> True True,
                 NewPipeline ''shaders/simple_shader.vert.spv'' ''shaders/simple_shader.frag.spv''
                   \<lparr>cfg_renderPass = 20, cfg_pipelineLayout = 5\<rparr> True]\<rparr>))"
  by (simp add: eval_defs env_resized_def)

lemma recreateSwapChain_two_images_eval:
  "recreateSwapChain env_two_images app_running =
     Some (Inr (app_running\<lparr>
       vreSwapChain := Some (swapChain2 \<lparr>width = 640, height = 480\<rparr>),
       vrePipeline := Some \<lparr>graphicsPipeline = 40\<rparr>,
       commandBuffers := [50, 51],
       trace := [GetExtent \<lparr>width = 640, height = 480\<rparr>, VkDeviceWaitIdle,
                 NewSwapChain \<lparr>width = 640, height = 480\<rparr> True True,
                 VkFreeCommandBuffers (Some 3) [50, 51, 52],
                 VkAllocateCommandBuffers 2 VK_SUCCESS,
                 NewPipeline ''shaders/simple_shader.vert.spv'' ''shaders/simple_shader.frag.spv''
                   \<lparr>cfg_renderPass = 21, cfg_pipelineLayout = 5\<rparr> True]\<rparr>))"
proof -
  have "float_to_uint32 (to_float (3 * 2 ^ 0)) = Some (3 * 2 ^ 0)"
    by (rule count_exact) simp_all
  then have c: "float_to_uint32 (to_float (Suc (Suc (Suc 0)))) = Some 3"
    by (simp add: numeral_3_eq_3)
  show ?thesis
    by (simp add: eval_defs env_two_images_def c upt_0_2)
qed

subsection \<open>Assertion failures\<close>

lemma drawFrame_Inl:
  assumes "drawFrame env s = Some (Inl (err, s'))"
  shows "(\<forall>msg. err \<noteq> AssertionFailed msg) \<or>
         (err = AssertionFailed ''Cannot create pipeline before pipeline layout'' \<and>
          pipelineLayout s = VK_NULL_HANDLE)"
proof (cases "vreSwapChain s")
  case None
  with assms show ?thesis by (auto simp: drawFrame_def)
next
  case (Some sc)
  obtain ra i where acq: "acquireNextImage env (trace s) = (ra, i)"
    by (cases "acquireNextImage env (trace s)")
  let ?s1 = "call (AcquireNextImage ra i) s"
  have sc: "vreSwapChain s \<noteq> None" using Some by simp
  have rc: "(\<forall>msg. err \<noteq> AssertionFailed msg) \<or>
         (err = AssertionFailed ''Cannot create pipeline before pipeline layout'' \<and>
          pipelineLayout s = VK_NULL_HANDLE)"
    if "recreateSwapChain env t = Some (Inl (err, s'))" "pipelineLayout t = pipelineLayout s" for t
    using recreateSwapChain_Inl[OF that(1)] that(2) by auto
  consider (ood) "ra = VK_ERROR_OUT_OF_DATE_KHR"
    | (ok) "ra = VK_SUCCESS \<or> ra = VK_SUBOPTIMAL_KHR"
    | (bad) "ra \<noteq> VK_ERROR_OUT_OF_DATE_KHR" "ra \<noteq> VK_SUCCESS" "ra \<noteq> VK_SUBOPTIMAL_KHR"
    by blast
  then show ?thesis
  proof cases
    case ood
    with drawFrame_out_of_date[OF sc, of env i] acq assms
    have "recreateSwapChain env ?s1 = Some (Inl (err, s'))" by simp
    then show ?thesis by (rule rc) (simp add: call_simps)
  next
    case bad
    with drawFrame_acquire_failed[OF sc acq] assms show ?thesis by simp
  next
    case ok
    show ?thesis
    proof (cases "recordCommandBuffer env (sint i) ?s1")
      case (Inl x)
      with drawFrame_record_failed[OF sc acq ok Inl] assms
      have "recordCommandBuffer env (sint i) ?s1 = Inl (err, s')" by simp
      from recordCommandBuffer_Inl[OF this] show ?thesis by auto
    next
      case (Inr s2)
      from recordCommandBuffer_Inr[OF Inr] have l: "pipelineLayout s2 = pipelineLayout s"
        by (auto simp: call_simps)
      from drawFrame_submitted[OF sc acq ok Inr] obtain cb where
        d: "drawFrame env s =
      (let result2 = submitCommandBuffers env (trace s2) cb i;
           s3 = call (SubmitCommandBuffers cb i result2) s2
       in if result2 = VK_ERROR_OUT_OF_DATE_KHR \<or> result2 = VK_SUBOPTIMAL_KHR
          then recreateSwapChain env (call ResetWindowResizedFlag s3)
          else
            let resized = wasWindowResized env (trace s3);
                s4 = call (WasWindowResized resized) s3
            in if resized
               then recreateSwapChain env (call ResetWindowResizedFlag s4)
               else if result2 \<noteq> VK_SUCCESS
               then Some (Inl (RuntimeError ''failed to present swap chain image!'', s4))
               else Some (Inr s4))" by blast
      let ?r2 = "submitCommandBuffers env (trace s2) cb i"
      let ?s3 = "call (SubmitCommandBuffers cb i ?r2) s2"
      let ?s4 = "call (WasWindowResized (wasWindowResized env (trace ?s3))) ?s3"
      from d assms have
        "recreateSwapChain env (call ResetWindowResizedFlag ?s3) = Some (Inl (err, s')) \<or>
         recreateSwapChain env (call ResetWindowResizedFlag ?s4) = Some (Inl (err, s')) \<or>
         err = RuntimeError ''failed to present swap chain image!''"
        by (auto simp: Let_def split: if_splits)
      then show ?thesis
      proof (elim disjE)
        assume "recreateSwapChain env (call ResetWindowResizedFlag ?s3) = Some (Inl (err, s'))"
        then show ?thesis by (rule rc) (simp add: call_simps l)
      next
        assume "recreateSwapChain env (call ResetWindowResizedFlag ?s4) = Some (Inl (err, s'))"
        then show ?thesis by (rule rc) (simp add: call_simps l)
      next
        assume "err = RuntimeError ''failed to present swap chain image!''"
        then show ?thesis by simp
      qed
    qed
  qed
qed

lemma drawFrame_Inr_layout:
  assumes "drawFrame env s = Some (Inr s')"
  shows "pipelineLayout s' = pipelineLayout s"
proof (cases "vreSwapChain s")
  case None
  with assms show ?thesis by (simp add: drawFrame_def)
next
  case (Some sc)
  obtain ra i where acq: "acquireNextImage env (trace s) = (ra, i)"
    by (cases "acquireNextImage env (trace s)")
  let ?s1 = "call (AcquireNextImage ra i) s"
  have sc: "vreSwapChain s \<noteq> None" using Some by simp
  have rc: "pipelineLayout s' = pipelineLayout s"
    if "recreateSwapChain env t = Some (Inr s')" "pipelineLayout t = pipelineLayout s" for t
    using recreateSwapChain_Inr_pipeline[OF that(1)] that(2) by auto
  consider (ood) "ra = VK_ERROR_OUT_OF_DATE_KHR"
    | (ok) "ra = VK_SUCCESS \<or> ra = VK_SUBOPTIMAL_KHR"
    | (bad) "ra \<noteq> VK_ERROR_OUT_OF_DATE_KHR" "ra \<noteq> VK_SUCCESS" "ra \<noteq> VK_SUBOPTIMAL_KHR"
    by blast
  then show ?thesis
  proof cases
    case ood
    with drawFrame_out_of_date[OF sc, of env i] acq assms
    have "recreateSwapChain env ?s1 = Some (Inr s')" by simp
    then show ?thesis by (rule rc) (simp add: call_simps)
  next
    case bad
    with drawFrame_acquire_failed[OF sc acq] assms show ?thesis by simp
  next
    case ok
    show ?thesis
    proof (cases "recordCommandBuffer env (sint i) ?s1")
      case (Inl x)
      with drawFrame_record_failed[OF sc acq ok Inl] assms show ?thesis by simp
    next
      case (Inr s2)
      from recordCommandBuffer_Inr[OF Inr] have l: "pipelineLayout s2 = pipelineLayout s"
        by (auto simp: call_simps)
      from drawFrame_submitted[OF sc acq ok Inr] obtain cb where
        d: "drawFrame env s =
      (let result2 = submitCommandBuffers env (trace s2) cb i;
           s3 = call (SubmitCommandBuffers cb i result2) s2
       in if result2 = VK_ERROR_OUT_OF_DATE_KHR \<or> result2 = VK_SUBOPTIMAL_KHR
          then recreateSwapChain env (call ResetWindowResizedFlag s3)
          else
            let resized = wasWindowResized env (trace s3);
                s4 = call (WasWindowResized resized) s3
            in if resized
               then recreateSwapChain env (call ResetWindowResizedFlag s4)
               else if result2 \<noteq> VK_SUCCESS
               then Some (Inl (RuntimeError ''failed to present swap chain image!'', s4))
               else Some (Inr s4))" by blast
      let ?r2 = "submitCommandBuffers env (trace s2) cb i"
      let ?s3 = "call (SubmitCommandBuffers cb i ?r2) s2"
      let ?s4 = "call (WasWindowResized (wasWindowResized env (trace ?s3))) ?s3"
      from d assms have
        "recreateSwapChain env (call ResetWindowResizedFlag ?s3) = Some (Inr s') \<or>
         recreateSwapChain env (call ResetWindowResizedFlag ?s4) = Some (Inr s') \<or>
         s' = ?s4"
        by (auto simp: Let_def split: if_splits)
      then show ?thesis
      proof (elim disjE)
        assume "recreateSwapChain env (call ResetWindowResizedFlag ?s3) = Some (Inr s')"
        then show ?thesis by (rule rc) (simp add: call_simps l)
      next
        assume "recreateSwapChain env (call ResetWindowResizedFlag ?s4) = Some (Inr s')"
        then show ?thesis by (rule rc) (simp add: call_simps l)
      next
        assume "s' = ?s4"
        then show ?thesis by (simp add: call_simps l)
      qed
    qed
  qed
qed

lemma run_no_assertion:
  assumes "run env s = Some r"
  shows "pipelineLayout s \<noteq> VK_NULL_HANDLE \<longrightarrow> \<not> is_assertion_failure (error_of (Some r))"
proof (rule run.raw_induct[where P = "\<lambda>env s r.
     pipelineLayout s \<noteq> VK_NULL_HANDLE \<longrightarrow> \<not> is_assertion_failure (error_of (Some r))",
     OF _ assms], goal_cases)
  case (1 run' env s r)
  show ?case
  proof
    assume l: "pipelineLayout s \<noteq> VK_NULL_HANDLE"
    let ?s0 = "call GlfwPollEvents (call (ShoudClose False) s)"
    have l0: "pipelineLayout ?s0 = pipelineLayout s" by (simp add: call_simps)
    show "\<not> is_assertion_failure (error_of (Some r))"
    proof (cases "shoudClose env (trace s)")
      case True
      with 1(2) show ?thesis by (auto simp: error_of_simps)
    next
      case False
      show ?thesis
      proof (cases "drawFrame env ?s0")
        case None
        with 1(2) False show ?thesis by simp
      next
        case (Some d)
        show ?thesis
        proof (cases d)
          case (Inl x)
          obtain err s' where x: "x = (err, s')" by (cases x)
          from 1(2) False Some Inl have r: "r = Inl x" by simp
          from drawFrame_Inl[of env ?s0 err s'] Some Inl x l l0
          have "\<forall>msg. err \<noteq> AssertionFailed msg" by auto
          then have "\<not> is_assertion_failure (Some err)" by (cases err) simp_all
          with r x show ?thesis by (simp add: error_of_simps)
        next
          case (Inr s1)
          from 1(2) False Some Inr have "run' env s1 = Some r" by simp
          moreover from drawFrame_Inr_layout[of env ?s0 s1] Some Inr l l0
          have "pipelineLayout s1 \<noteq> VK_NULL_HANDLE" by simp
          ultimately show ?thesis using 1(1) by blast
        qed
      qed
    qed
  qed
qed

lemma VreApp_ctor_no_assertion:
  assumes v: "valid_layout_handles env"
  shows "\<not> is_assertion_failure (error_of (VreApp_ctor env s)) \<and>
         (\<forall>s'. VreApp_ctor env s = Some (Inr s') \<longrightarrow> pipelineLayout s' \<noteq> VK_NULL_HANDLE)"
proof (cases "loadModels env s")
  case (Inl x)
  then have "VreApp_ctor env s = Some (Inl x)" "fst x = ModelConstructorError"
    by (auto simp: VreApp_ctor_def and_then_def and_then_opt_def loadModels_def
        split: option.splits)
  then show ?thesis by (cases x) (simp add: error_of_simps)
next
  case (Inr s1)
  show ?thesis
  proof (cases "createPipelineLayout env s1")
    case (Inl x)
    with Inr have "VreApp_ctor env s = Some (Inl x)"
      by (simp add: VreApp_ctor_def and_then_def and_then_opt_def)
    moreover from Inl have "fst x = RuntimeError ''failed to create pipeline layout!''"
      by (auto simp: createPipelineLayout_def Let_def split: prod.splits if_splits)
    ultimately show ?thesis by (cases x) (simp add: error_of_simps)
  next
    case s2: (Inr s2)
    from s2 v have l2: "pipelineLayout s2 \<noteq> VK_NULL_HANDLE"
      by (auto simp: createPipelineLayout_def Let_def call_def valid_layout_handles_def
          split: prod.splits if_splits dest: spec[of _ "trace s1"])
    have c: "VreApp_ctor env s =
        (case recreateSwapChain env s2 of None \<Rightarrow> None
         | Some r \<Rightarrow> Some (and_then r (createCommandBuffers env)))"
      using Inr s2 by (simp add: VreApp_ctor_def and_then_def and_then_opt_def)
    show ?thesis
    proof (cases "recreateSwapChain env s2")
      case None
      with c show ?thesis by (simp add: error_of_simps)
    next
      case (Some r)
      show ?thesis
      proof (cases r)
        case (Inl x)
        obtain err s' where x: "x = (err, s')" by (cases x)
        from recreateSwapChain_Inl[of env s2 err s'] Some Inl x l2
        have "\<not> is_assertion_failure (Some err)" by auto
        with c Some Inl x show ?thesis by (simp add: and_then_def error_of_simps)
      next
        case s3: (Inr s3)
        from recreateSwapChain_Inr_pipeline[of env s2 s3] Some s3 l2
        have l3: "pipelineLayout s3 \<noteq> VK_NULL_HANDLE" by auto
        from c Some s3 have c': "VreApp_ctor env s = Some (createCommandBuffers env s3)"
          by (simp add: and_then_def)
        show ?thesis
        proof (cases "createCommandBuffers env s3")
          case (Inl x)
          then have "fst x = NullDereference \<or>
              fst x = RuntimeError ''failed to allocate command buffers!''"
            by (auto simp: createCommandBuffers_def Let_def split: option.splits prod.splits if_splits)
          with c' Inl show ?thesis by (cases x) (auto simp: error_of_simps)
        next
          case (Inr s4)
          from createCommandBuffers_Inr[OF Inr] l3 c' Inr show ?thesis
            by (simp add: error_of_simps)
        qed
      qed
    qed
  qed
qed

lemma VreApp_main_one_frame_eval:
  "succeeded (VreApp_main env_one_frame 0) \<noteq> None"
  by (simp add: VreApp_main_def VreApp_ctor_def loadModels_def createPipelineLayout_def
      fresh_def vertices_def upt_0_3 run.simps eval_defs env_one_frame_def succeeded_def)

subsection \<open>The contents of the reallocated set\<close>

lemma createCommandBuffers_exact:
  assumes sc: "vreSwapChain t = Some sc" and e: "commandBuffers t = []"
    and a: "vkAllocateCommandBuffers env (trace t) (size_to_uint32 (imageCount sc)) = (res, hs)"
  shows "trace (state_of (createCommandBuffers env t)) =
           trace t @ [VkAllocateCommandBuffers (size_to_uint32 (imageCount sc)) res] \<and>
         vrePipeline (state_of (createCommandBuffers env t)) = vrePipeline t \<and>
         (res = VK_SUCCESS \<longrightarrow>
            \<not> isl (createCommandBuffers env t) \<and>
            commandBuffers (state_of (createCommandBuffers env t)) =
              map hs [0..<size_to_uint32 (imageCount sc)] @
              replicate (imageCount sc - size_to_uint32 (imageCount sc)) VK_NULL_HANDLE) \<and>
         (res \<noteq> VK_SUCCESS \<longrightarrow>
            error_of (Some (createCommandBuffers env t)) =
              Some (RuntimeError ''failed to allocate command buffers!'') \<and>
            commandBuffers (state_of (createCommandBuffers env t)) =
              replicate (imageCount sc) VK_NULL_HANDLE)"
  using sc e a
  by (simp add: createCommandBuffers_def Let_def resize_def call_def error_of_simps)

lemma createPipeline_Inr_trace:
  assumes "createPipeline env t = Inr s'"
  shows "butlast (trace s') = trace t"
  using assms
  by (auto simp: createPipeline_def call_def Let_def split: option.splits if_splits)

lemma rebuild_reallocates:
  assumes old: "vreSwapChain s = Some old"
    and new: "vreSwapChain (state_of (rebuild env e s)) = Some new"
    and d: "imageCount new \<noteq> length (commandBuffers s)"
    and a: "vkAllocateCommandBuffers env
              (trace s @ [VkDeviceWaitIdle, NewSwapChain e True True,
                 VkFreeCommandBuffers (float_to_uint32 (to_float (length (commandBuffers s))))
                   (commandBuffers s)])
              (size_to_uint32 (imageCount new)) = (res, hs)"
  shows "(\<exists>rest. trace (state_of (rebuild env e s)) =
            trace s @ [VkDeviceWaitIdle, NewSwapChain e True True,
              VkFreeCommandBuffers (float_to_uint32 (to_float (length (commandBuffers s))))
                (commandBuffers s),
              VkAllocateCommandBuffers (size_to_uint32 (imageCount new)) res] @ rest \<and>
            (\<forall>ev\<in>set rest. is_pipeline_build ev)) \<and>
         (res = VK_SUCCESS \<longrightarrow>
            commandBuffers (state_of (rebuild env e s)) =
              map hs [0..<size_to_uint32 (imageCount new)] @
              replicate (imageCount new - size_to_uint32 (imageCount new)) VK_NULL_HANDLE) \<and>
         (res \<noteq> VK_SUCCESS \<longrightarrow>
            error_of (Some (rebuild env e s)) =
              Some (RuntimeError ''failed to allocate command buffers!'') \<and>
            commandBuffers (state_of (rebuild env e s)) =
              replicate (imageCount new) VK_NULL_HANDLE \<and>
            vrePipeline (state_of (rebuild env e s)) = vrePipeline s)"
proof -
  from rebuild_replace[OF old new]
  have sc: "newSwapChain env (trace s @ [VkDeviceWaitIdle]) e (Some old) = Some new" by blast
  let ?s2 = "call (NewSwapChain e True True) ((call VkDeviceWaitIdle s)\<lparr>vreSwapChain := Some new\<rparr>)"
  let ?s3 = "freeCommandBuffers ?s2"
  let ?r = "createCommandBuffers env ?s3"
  have r: "rebuild env e s = and_then ?r (createPipeline env)"
    using old sc d by (simp add: rebuild_def Let_def call_simps)
  have s3: "vreSwapChain ?s3 = Some new" "commandBuffers ?s3 = []"
    "vrePipeline ?s3 = vrePipeline s"
    "trace ?s3 = trace s @ [VkDeviceWaitIdle, NewSwapChain e True True,
         VkFreeCommandBuffers (float_to_uint32 (to_float (length (commandBuffers s))))
              (commandBuffers s)]"
    by (simp_all add: freeCommandBuffers_members freeCommandBuffers_trace call_simps)
  from a s3(4) have a': "vkAllocateCommandBuffers env (trace ?s3)
      (size_to_uint32 (imageCount new)) = (res, hs)" by simp
  note cc = createCommandBuffers_exact[OF s3(1) s3(2) a']
  from and_then_createPipeline_state[of ?r env] obtain rest where
    p: "commandBuffers (state_of (rebuild env e s)) = commandBuffers (state_of ?r)"
       "trace (state_of (rebuild env e s)) = trace (state_of ?r) @ rest"
       "\<forall>ev\<in>set rest. is_pipeline_build ev"
    unfolding r by blast
  have t: "\<exists>rest. trace (state_of (rebuild env e s)) =
            trace s @ [VkDeviceWaitIdle, NewSwapChain e True True,
              VkFreeCommandBuffers (float_to_uint32 (to_float (length (commandBuffers s))))
                (commandBuffers s),
              VkAllocateCommandBuffers (size_to_uint32 (imageCount new)) res] @ rest \<and>
            (\<forall>ev\<in>set rest. is_pipeline_build ev)"
    using p(2,3) cc s3(4) by simp
  have ok: "commandBuffers (state_of (rebuild env e s)) =
              map hs [0..<size_to_uint32 (imageCount new)] @
              replicate (imageCount new - size_to_uint32 (imageCount new)) VK_NULL_HANDLE"
    if "res = VK_SUCCESS"
    using that cc p(1) by simp
  have bad: "error_of (Some (rebuild env e s)) =
              Some (RuntimeError ''failed to allocate command buffers!'') \<and>
            commandBuffers (state_of (rebuild env e s)) =
              replicate (imageCount new) VK_NULL_HANDLE \<and>
            vrePipeline (state_of (rebuild env e s)) = vrePipeline s"
    if f: "res \<noteq> VK_SUCCESS"
  proof -
    from cc f have e: "error_of (Some ?r) =
        Some (RuntimeError ''failed to allocate command buffers!'')" by simp
    then obtain x where x: "?r = Inl x"
      by (cases ?r) (simp_all add: error_of_simps)
    then have "rebuild env e s = ?r" by (simp add: r and_then_def)
    with cc f e s3(3) show ?thesis by simp
  qed
  from t ok bad show ?thesis by blast
qed


lemma loop_not_construction: "is_loop_event ev \<Longrightarrow> \<not> is_construction ev"
  by (cases ev) simp_all

lemma recreateSwapChain_surface:
  assumes old: "vreSwapChain s = Some old"
    and r: "recreateSwapChain env s = Some r"
    and new: "vreSwapChain (state_of r) = Some new"
  shows "\<exists>e. constructions (added s r) = [e] \<and>
     newSwapChain env (trace s @ takeWhile (\<lambda>ev. \<not> is_construction ev) (added s r)) e
       (Some old) = Some new"
proof -
  from recreateSwapChain_rebuild_trace[OF r] obtain e s1 loop where
    1: "r = rebuild env e s1" "vreSwapChain s1 = vreSwapChain s"
       "trace s1 = trace s @ loop" "\<forall>ev\<in>set loop. is_loop_event ev"
    by blast
  have old1: "vreSwapChain s1 = Some old" using 1(2) old by simp
  have new1: "vreSwapChain (state_of (rebuild env e s1)) = Some new" using new 1(1) by simp
  from rebuild_replace[OF old1 new1]
  have n: "newSwapChain env (trace s1 @ [VkDeviceWaitIdle]) e (Some old) = Some new" by blast
  from rebuild_shape[of env e s1] obtain ok evs where
    t: "trace (state_of (rebuild env e s1)) =
      trace s1 @ VkDeviceWaitIdle # NewSwapChain e (vreSwapChain s1 \<noteq> None) ok # evs"
    and evs: "\<forall>ev\<in>set evs. is_tail_event ev" by blast
  have a: "added s r = loop @ VkDeviceWaitIdle # NewSwapChain e (vreSwapChain s1 \<noteq> None) ok # evs"
    using t 1(1,3) by (simp add: added_def)
  have "takeWhile (\<lambda>ev. \<not> is_construction ev) (added s r) = loop @ [VkDeviceWaitIdle]"
    unfolding a using 1(4) by (subst takeWhile_append2) (auto dest: loop_not_construction)
  moreover have "constructions (added s r) = [e]"
    unfolding a using 1(4) evs
    by (simp add: constructions_append constructions_loop constructions_tail)
  ultimately show ?thesis using n 1(3) by simp
qed

lemma recreateSwapChain_reallocates:
  assumes old: "vreSwapChain s = Some old"
    and r: "recreateSwapChain env s = Some r"
    and new: "vreSwapChain (state_of r) = Some new"
    and d: "imageCount new \<noteq> length (commandBuffers s)"
  shows "\<exists>res hs.
     vkAllocateCommandBuffers env
       (trace s @ takeWhile (\<lambda>ev. \<not> is_allocate ev) (added s r))
       (size_to_uint32 (imageCount new)) = (res, hs) \<and>
     filter is_reallocation (added s r) =
       [VkFreeCommandBuffers (float_to_uint32 (to_float (length (commandBuffers s))))
          (commandBuffers s),
        VkAllocateCommandBuffers (size_to_uint32 (imageCount new)) res] \<and>
     (res = VK_SUCCESS \<longrightarrow>
        commandBuffers (state_of r) =
          map hs [0..<size_to_uint32 (imageCount new)] @
          replicate (imageCount new - size_to_uint32 (imageCount new)) VK_NULL_HANDLE) \<and>
     (res \<noteq> VK_SUCCESS \<longrightarrow>
        error_of (Some r) = Some (RuntimeError ''failed to allocate command buffers!'') \<and>
        commandBuffers (state_of r) = replicate (imageCount new) VK_NULL_HANDLE \<and>
        vrePipeline (state_of r) = vrePipeline s)"
proof -
  from recreateSwapChain_rebuild_trace[OF r] obtain e s1 loop where
    1: "r = rebuild env e s1" "vreSwapChain s1 = vreSwapChain s"
       "vrePipeline s1 = vrePipeline s"
       "commandBuffers s1 = commandBuffers s" "trace s1 = trace s @ loop"
       "\<forall>ev\<in>set loop. is_loop_event ev"
    by blast
  have old1: "vreSwapChain s1 = Some old" using 1(2) old by simp
  have new1: "vreSwapChain (state_of (rebuild env e s1)) = Some new" using new 1(1) by simp
  have d1: "imageCount new \<noteq> length (commandBuffers s1)" using d 1(4) by simp
  let ?free = "VkFreeCommandBuffers (float_to_uint32 (to_float (length (commandBuffers s))))
                 (commandBuffers s)"
  let ?c = "size_to_uint32 (imageCount new)"
  let ?pre = "[VkDeviceWaitIdle, NewSwapChain e True True, ?free]"
  obtain res hs where a: "vkAllocateCommandBuffers env (trace s1 @ ?pre) ?c = (res, hs)"
    by (cases "vkAllocateCommandBuffers env (trace s1 @ ?pre) ?c")
  then have a1: "vkAllocateCommandBuffers env
              (trace s1 @ [VkDeviceWaitIdle, NewSwapChain e True True,
                 VkFreeCommandBuffers (float_to_uint32 (to_float (length (commandBuffers s1))))
                   (commandBuffers s1)]) ?c = (res, hs)"
    using 1(4) by simp
  from rebuild_reallocates[OF old1 new1 d1 a1] 1(1,3,4) obtain rest where
    t: "trace (state_of r) = trace s1 @ ?pre @ [VkAllocateCommandBuffers ?c res] @ rest"
       "\<forall>ev\<in>set rest. is_pipeline_build ev" and
    ok: "res = VK_SUCCESS \<longrightarrow>
        commandBuffers (state_of r) =
          map hs [0..<?c] @ replicate (imageCount new - ?c) VK_NULL_HANDLE" and
    bad: "res \<noteq> VK_SUCCESS \<longrightarrow>
        error_of (Some r) = Some (RuntimeError ''failed to allocate command buffers!'') \<and>
        commandBuffers (state_of r) = replicate (imageCount new) VK_NULL_HANDLE \<and>
        vrePipeline (state_of r) = vrePipeline s"
    by auto
  have ad: "added s r = (loop @ ?pre) @ VkAllocateCommandBuffers ?c res # rest"
    using t(1) 1(5) by (simp add: added_def)
  have "takeWhile (\<lambda>ev. \<not> is_allocate ev) (added s r) = loop @ ?pre"
    unfolding ad using 1(6) by (subst takeWhile_append2) (auto dest: loop_event_facts)
  then have tw: "trace s @ takeWhile (\<lambda>ev. \<not> is_allocate ev) (added s r) = trace s1 @ ?pre"
    using 1(5) by simp
  have f: "filter is_reallocation (added s r) = [?free, VkAllocateCommandBuffers ?c res]"
    unfolding ad
    using filter_loop_reallocation[OF 1(6)] filter_pipeline_builds[OF t(2)]
    by (simp add: is_reallocation_def)
  from a tw f ok bad show ?thesis by auto
qed

lemma recreateSwapChain_Inr_pipeline_exact:
  assumes "recreateSwapChain env s = Some (Inr s')"
  shows "\<exists>sc. vreSwapChain s' = Some sc \<and>
     vrePipeline s' = newPipeline env (butlast (trace s'))
       \<lparr>cfg_renderPass = renderPass sc, cfg_pipelineLayout = pipelineLayout s\<rparr> \<and>
     vrePipeline s' \<noteq> None"
proof -
  from recreateSwapChain_rebuild[OF assms] obtain e s1 where
    r: "rebuild env e s1 = Inr s'" and m: "pipelineLayout s1 = pipelineLayout s" by metis
  from rebuild_Inr_last[OF r] obtain t where
    t: "createPipeline env t = Inr s'" "pipelineLayout t = pipelineLayout s1" by blast
  note cp = createPipeline_Inr[OF t(1)]
  from cp obtain sc where sc: "vreSwapChain t = Some sc" by auto
  from cp sc have "vreSwapChain s' = Some sc" by simp
  moreover from cp sc have "vrePipeline s' = newPipeline env (trace t)
       \<lparr>cfg_renderPass = renderPass sc, cfg_pipelineLayout = pipelineLayout t\<rparr>"
    by simp
  moreover from cp have "vrePipeline s' \<noteq> None" by blast
  moreover note createPipeline_Inr_trace[OF t(1)]
  ultimately show ?thesis using t(2) m by auto
qed

lemma recreateSwapChain_pool_exhausted_eval:
  "recreateSwapChain env_pool_exhausted app_running =
     Some (Inl (RuntimeError ''failed to allocate command buffers!'',
       app_running\<lparr>
         vreSwapChain := Some (swapChain2 \<lparr>width = 640, height = 480\<rparr>),
         commandBuffers := [VK_NULL_HANDLE, VK_NULL_HANDLE],
         trace := [GetExtent \<lparr>width = 640, height = 480\<rparr>, VkDeviceWaitIdle,
                   NewSwapChain \<lparr>width = 640, height = 480\<rparr> True True,
                   VkFreeCommandBuffers (Some 3) [50, 51, 52],
                   VkAllocateCommandBuffers 2 VK_ERROR_OUT_OF_DEVICE_MEMORY]\<rparr>))"
proof -
  have "float_to_uint32 (to_float (3 * 2 ^ 0)) = Some (3 * 2 ^ 0)"
    by (rule count_exact) simp_all
  then have c: "float_to_uint32 (to_float (Suc (Suc (Suc 0)))) = Some 3"
    by (simp add: numeral_3_eq_3)
  have n: "replicate 2 (0 :: nat) = [0, 0]" by (simp add: numeral_2_eq_2)
  show ?thesis
    by (simp add: eval_defs env_pool_exhausted_def c n)
qed

section \<open>The properties of the specification\<close>

subsection \<open>C1: the command buffers after a recreation\<close>

text \<open>
  C1. After a successful \<^verbatim>\<open>recreateSwapChain\<close> that replaced an existing swap chain, the
  length of \<open>commandBuffers\<close> equals the image count of the current swap chain. When no
  swap chain existed before the call (the fresh-construction branch) the call leaves
  \<open>commandBuffers\<close> as it was; there the equality is established by the
  \<^verbatim>\<open>createCommandBuffers\<close> that follows in the constructor, and holds once the
  constructor has returned.
\<close>

theorem recreateSwapChain_commandBuffers_length:
  "(\<forall>s'. recreateSwapChain env s = Some (Inr s') \<longrightarrow>
      (\<exists>sc. vreSwapChain s' = Some sc \<and>
         (vreSwapChain s \<noteq> None \<longrightarrow> length (commandBuffers s') = imageCount sc) \<and>
         (vreSwapChain s = None \<longrightarrow> commandBuffers s' = commandBuffers s))) \<and>
   (\<forall>s'. VreApp_ctor env s = Some (Inr s') \<longrightarrow>
      (\<exists>sc. vreSwapChain s' = Some sc \<and> length (commandBuffers s') = imageCount sc))"
proof (intro conjI allI impI)
  fix s'
  assume "recreateSwapChain env s = Some (Inr s')"
  then show "\<exists>sc. vreSwapChain s' = Some sc \<and>
         (vreSwapChain s \<noteq> None \<longrightarrow> length (commandBuffers s') = imageCount sc) \<and>
         (vreSwapChain s = None \<longrightarrow> commandBuffers s' = commandBuffers s)"
    by (rule recreateSwapChain_Inr)
next
  fix s'
  assume "VreApp_ctor env s = Some (Inr s')"
  then show "\<exists>sc. vreSwapChain s' = Some sc \<and> length (commandBuffers s') = imageCount sc"
    by (rule VreApp_ctor_Inr)
qed

text \<open>
  The three cases in the boot environment: a recreation in the running application, the
  first recreation of the constructor, and the whole constructor.
\<close>

theorem recreateSwapChain_commandBuffers_length_witness:
  "(\<exists>s' sc. recreateSwapChain env_boot app_running = Some (Inr s') \<and>
      vreSwapChain app_running \<noteq> None \<and> vreSwapChain s' = Some sc \<and>
      length (commandBuffers s') = imageCount sc) \<and>
   (\<exists>s' sc. recreateSwapChain env_boot app_booting = Some (Inr s') \<and>
      vreSwapChain app_booting = None \<and> vreSwapChain s' = Some sc \<and>
      commandBuffers s' = commandBuffers app_booting) \<and>
   (\<exists>s' sc. VreApp_ctor env_boot (fresh 0) = Some (Inr s') \<and>
      vreSwapChain s' = Some sc \<and> length (commandBuffers s') = imageCount sc)"
proof (intro conjI)
  have "vreSwapChain app_running \<noteq> None" by (simp add: app_running_def)
  with recreateSwapChain_commandBuffers_length[of env_boot app_running]
    recreateSwapChain_ok_eval
  show "\<exists>s' sc. recreateSwapChain env_boot app_running = Some (Inr s') \<and>
      vreSwapChain app_running \<noteq> None \<and> vreSwapChain s' = Some sc \<and>
      length (commandBuffers s') = imageCount sc" by blast
next
  have "vreSwapChain app_booting = None" by (simp add: app_booting_def)
  with recreateSwapChain_commandBuffers_length[of env_boot app_booting]
    recreateSwapChain_booting_eval
  show "\<exists>s' sc. recreateSwapChain env_boot app_booting = Some (Inr s') \<and>
      vreSwapChain app_booting = None \<and> vreSwapChain s' = Some sc \<and>
      commandBuffers s' = commandBuffers app_booting" by blast
next
  from recreateSwapChain_commandBuffers_length[of env_boot "fresh 0"] VreApp_ctor_eval
  show "\<exists>s' sc. VreApp_ctor env_boot (fresh 0) = Some (Inr s') \<and>
      vreSwapChain s' = Some sc \<and> length (commandBuffers s') = imageCount sc" by blast
qed

text \<open>
  The first recreation of the constructor: it succeeds, the new swap chain has three
  images, and \<open>commandBuffers\<close> is still empty.
\<close>

theorem recreateSwapChain_fresh_counterexample:
  "vreSwapChain app_booting = None \<and>
   succeeded (recreateSwapChain env_boot app_booting) \<noteq> None \<and>
   length (commandBuffers (the (succeeded (recreateSwapChain env_boot app_booting)))) = 0 \<and>
   map_option imageCount
     (vreSwapChain (the (succeeded (recreateSwapChain env_boot app_booting)))) = Some 3"
  by (simp add: recreateSwapChain_booting_eval succeeded_def)
     (simp add: app_booting_def swapChain3_def)

subsection \<open>C2: the wait for a non-zero extent\<close>

text \<open>
  C2. \<^verbatim>\<open>recreateSwapChain\<close> does not return while a dimension of the window extent is
  zero: against a window that never reports anything else the call never returns, and
  whenever it returns, every extent it read but the last had a zero dimension, the last
  one had none, and the one swap chain construction of the call was made at that last
  extent. The loop reads the extent and then blocks, in that order. So for the simulated
  window that starts at (0, 0) and turns to (800, 600) after \<open>N\<close> blocking waits, the call
  returns after exactly one extent read and no wait when \<open>N = 0\<close>, and after exactly
  \<open>N + 2\<close> extent reads and \<open>N + 1\<close> waits when \<open>N > 0\<close>; in both cases it constructs
  exactly one swap chain, at (800, 600).
\<close>

theorem recreateSwapChain_waits_for_extent:
  "((\<forall>tr. width (getExtent env tr) = 0 \<or> height (getExtent env tr) = 0) \<longrightarrow>
      recreateSwapChain env s = None) \<and>
   (\<forall>r. recreateSwapChain env s = Some r \<longrightarrow>
      (\<exists>zs e. extent_reads (added s r) = zs @ [e] \<and>
         (\<forall>z\<in>set zs. width z = 0 \<or> height z = 0) \<and> width e \<noteq> 0 \<and> height e \<noteq> 0 \<and>
         constructions (added s r) = [e])) \<and>
   (getExtent env = simulatedWindow (length (filter is_wait (trace s))) N \<longrightarrow>
      (\<exists>r. recreateSwapChain env s = Some r \<and>
         length (extent_reads (added s r)) = (if N = 0 then 1 else N + 2) \<and>
         length (filter is_wait (added s r)) = (if N = 0 then 0 else N + 1) \<and>
         constructions (added s r) = [\<lparr>width = 800, height = 600\<rparr>]))"
proof (intro conjI impI allI)
  assume "\<forall>tr. width (getExtent env tr) = 0 \<or> height (getExtent env tr) = 0"
  then show "recreateSwapChain env s = None" by (rule recreateSwapChain_diverges)
next
  fix r
  assume "recreateSwapChain env s = Some r"
  from recreateSwapChain_added[OF this]
  show "\<exists>zs e. extent_reads (added s r) = zs @ [e] \<and>
         (\<forall>z\<in>set zs. width z = 0 \<or> height z = 0) \<and> width e \<noteq> 0 \<and> height e \<noteq> 0 \<and>
         constructions (added s r) = [e]" by blast
next
  assume "getExtent env = simulatedWindow (length (filter is_wait (trace s))) N"
  then show "\<exists>r. recreateSwapChain env s = Some r \<and>
         length (extent_reads (added s r)) = (if N = 0 then 1 else N + 2) \<and>
         length (filter is_wait (added s r)) = (if N = 0 then 0 else N + 1) \<and>
         constructions (added s r) = [\<lparr>width = 800, height = 600\<rparr>]"
    by (rule recreateSwapChain_simulated)
qed

text \<open>
  The three parts at concrete inputs: a window that stays at width 0, the boot window of
  640 by 480, and the simulated window with \<open>N = 1\<close>.
\<close>

theorem recreateSwapChain_waits_for_extent_witness:
  "recreateSwapChain env_zero app_running = None \<and>
   (\<exists>r zs e. recreateSwapChain env_boot app_running = Some r \<and>
      extent_reads (added app_running r) = zs @ [e] \<and> width e \<noteq> 0 \<and> height e \<noteq> 0 \<and>
      constructions (added app_running r) = [e]) \<and>
   (\<exists>r. recreateSwapChain env_minimised app_running = Some r \<and>
      length (extent_reads (added app_running r)) = 3 \<and>
      length (filter is_wait (added app_running r)) = 2 \<and>
      constructions (added app_running r) = [\<lparr>width = 800, height = 600\<rparr>])"
proof (intro conjI)
  have "\<forall>tr. width (getExtent env_zero tr) = 0 \<or> height (getExtent env_zero tr) = 0"
    by (simp add: env_zero_def)
  with recreateSwapChain_waits_for_extent[of env_zero app_running 0]
  show "recreateSwapChain env_zero app_running = None" by blast
next
  from recreateSwapChain_waits_for_extent[of env_boot app_running 0] recreateSwapChain_ok_eval
  show "\<exists>r zs e. recreateSwapChain env_boot app_running = Some r \<and>
      extent_reads (added app_running r) = zs @ [e] \<and> width e \<noteq> 0 \<and> height e \<noteq> 0 \<and>
      constructions (added app_running r) = [e]" by blast
next
  have "getExtent env_minimised = simulatedWindow (length (filter is_wait (trace app_running))) 1"
    by (simp add: env_minimised_def app_running_def)
  with recreateSwapChain_waits_for_extent[of env_minimised app_running 1]
  show "\<exists>r. recreateSwapChain env_minimised app_running = Some r \<and>
      length (extent_reads (added app_running r)) = 3 \<and>
      length (filter is_wait (added app_running r)) = 2 \<and>
      constructions (added app_running r) = [\<lparr>width = 800, height = 600\<rparr>]"
    by (auto simp: numeral_2_eq_2 numeral_3_eq_3)
qed

text \<open>
  With \<open>N = 1\<close> the call reads the extent three times, not \<open>N + 1 = 2\<close> times: once
  before the loop, once in the first iteration (before the first wait, so still (0, 0)),
  and once in the second.
\<close>

theorem recreateSwapChain_three_reads_counterexample:
  "getExtent env_minimised = simulatedWindow (length (filter is_wait (trace app_running))) 1 \<and>
   recreateSwapChain env_minimised app_running \<noteq> None \<and>
   extent_reads (added_by app_running (recreateSwapChain env_minimised app_running)) =
     [\<lparr>width = 0, height = 0\<rparr>, \<lparr>width = 0, height = 0\<rparr>, \<lparr>width = 800, height = 600\<rparr>] \<and>
   length (extent_reads (added_by app_running (recreateSwapChain env_minimised app_running)))
     \<noteq> 1 + 1"
  by (simp add: recreateSwapChain_minimised_eval added_by_def added_def)
     (simp add: env_minimised_def app_running_def)

subsection \<open>C3: an acquisition that is out of date\<close>

text \<open>
  C3. When \<^verbatim>\<open>acquireNextImage\<close> reports "out of date", \<^verbatim>\<open>drawFrame\<close> does nothing but
  call \<^verbatim>\<open>recreateSwapChain\<close>, once: whatever the outcome, the call records no command and
  submits no command buffer, waits for the device once and constructs one swap chain. The
  status itself raises nothing, and the outcome of the frame is the outcome of that
  recreation: the frame returns without error when the recreation does, a failure of the
  recreation reaches the caller, and the frame does not return while the recreation waits
  for a non-zero extent.
\<close>

theorem drawFrame_out_of_date_recreates:
  "vreSwapChain s \<noteq> None \<and>
   fst (acquireNextImage env (trace s)) = VK_ERROR_OUT_OF_DATE_KHR \<longrightarrow>
     drawFrame env s =
       recreateSwapChain env
         (s\<lparr>trace := trace s @ [AcquireNextImage VK_ERROR_OUT_OF_DATE_KHR
                                 (snd (acquireNextImage env (trace s)))]\<rparr>) \<and>
     (\<forall>r. drawFrame env s = Some r \<longrightarrow>
        filter is_recording (added s r) = [] \<and> filter is_submission (added s r) = [] \<and>
        length (constructions (added s r)) = 1 \<and>
        length (filter is_idle_wait (added s r)) = 1)"
  using drawFrame_out_of_date_added[of s env] by blast

text \<open>The running application, an acquisition out of date, a recreation that succeeds.\<close>

theorem drawFrame_out_of_date_recreates_witness:
  "vreSwapChain app_running \<noteq> None \<and>
   fst (acquireNextImage env_out_of_date (trace app_running)) = VK_ERROR_OUT_OF_DATE_KHR \<and>
   (\<exists>r. drawFrame env_out_of_date app_running = Some r \<and> \<not> isl r \<and>
      filter is_recording (added app_running r) = [] \<and>
      filter is_submission (added app_running r) = [] \<and>
      length (constructions (added app_running r)) = 1 \<and>
      length (filter is_idle_wait (added app_running r)) = 1)"
proof -
  have 1: "vreSwapChain app_running \<noteq> None"
    by (simp add: app_running_def)
  have 2: "fst (acquireNextImage env_out_of_date (trace app_running)) = VK_ERROR_OUT_OF_DATE_KHR"
    by (simp add: env_out_of_date_def env_boot_def)
  from drawFrame_out_of_date_eval obtain s' where
    3: "drawFrame env_out_of_date app_running = Some (Inr s')"
    by (auto simp: succeeded_def split: option.splits sum.splits)
  from drawFrame_out_of_date_recreates[of app_running env_out_of_date] 1 2 3
  have "filter is_recording (added app_running (Inr s')) = [] \<and>
      filter is_submission (added app_running (Inr s')) = [] \<and>
      length (constructions (added app_running (Inr s'))) = 1 \<and>
      length (filter is_idle_wait (added app_running (Inr s'))) = 1"
    by blast
  with 1 2 3 show ?thesis by auto
qed

text \<open>
  The acquisition is out of date, the new swap chain has two images where the old had
  three, and the pool refuses the allocation: the frame ends with that error.
\<close>

theorem drawFrame_out_of_date_counterexample:
  "vreSwapChain app_running \<noteq> None \<and>
   fst (acquireNextImage env_stale_acquire (trace app_running)) = VK_ERROR_OUT_OF_DATE_KHR \<and>
   error_of (drawFrame env_stale_acquire app_running) =
     Some (RuntimeError ''failed to allocate command buffers!'')"
  by (simp add: drawFrame_stale_acquire_eval)
     (simp add: app_running_def env_stale_acquire_def env_boot_def)

subsection \<open>C4: a frame found stale after its submission\<close>

text \<open>
  C4. When the acquisition succeeds ("success" or "suboptimal"), the recording succeeds,
  and the submission reports "out of date" or "suboptimal" or the window says it was
  resized, \<^verbatim>\<open>drawFrame\<close> has by then recorded the commands of the frame and submitted
  them, exactly once; it then clears the resize flag and calls \<^verbatim>\<open>recreateSwapChain\<close>,
  once. Staleness is detected after the submission, never before. What follows the
  clearing of the flag is that one recreation (no recording, no submission, one wait for
  the device, one swap chain construction), and its outcome is the outcome of the frame:
  the frame returns without error when the recreation does.
\<close>

theorem drawFrame_stale_after_submit:
  "vreSwapChain s \<noteq> None \<and> acquireNextImage env (trace s) = (ra, i) \<and>
   (ra = VK_SUCCESS \<or> ra = VK_SUBOPTIMAL_KHR) \<and>
   recordCommandBuffer env (sint i) (call (AcquireNextImage ra i) s) = Inr s2 \<and>
   at_index (commandBuffers s) (sint i) = Some cb \<and>
   r2 = submitCommandBuffers env (trace s2) cb i \<and>
   (r2 = VK_ERROR_OUT_OF_DATE_KHR \<or> r2 = VK_SUBOPTIMAL_KHR \<or>
    wasWindowResized env (trace s2 @ [SubmitCommandBuffers cb i r2])) \<longrightarrow>
   (\<exists>sc p m. vreSwapChain s = Some sc \<and> vrePipeline s = Some p \<and> vreModel s = Some m \<and>
     drawFrame env s =
       recreateSwapChain env
         (s\<lparr>trace := trace s @
              stale_frame_calls ra i cb
                (frame_commands p m (swapChainExtent sc) (renderPass sc)
                   (getFrameBuffer sc (sint i))) r2\<rparr>) \<and>
     (\<forall>r. drawFrame env s = Some r \<longrightarrow>
        (\<exists>post. added s r =
             stale_frame_calls ra i cb
               (frame_commands p m (swapChainExtent sc) (renderPass sc)
                  (getFrameBuffer sc (sint i))) r2 @ post \<and>
           filter is_recording post = [] \<and> filter is_submission post = [] \<and>
           length (constructions post) = 1 \<and> length (filter is_idle_wait post) = 1) \<and>
        filter is_submission (added s r) = [SubmitCommandBuffers cb i r2] \<and>
        length (constructions (added s r)) = 1))"
proof
  assume a: "vreSwapChain s \<noteq> None \<and> acquireNextImage env (trace s) = (ra, i) \<and>
   (ra = VK_SUCCESS \<or> ra = VK_SUBOPTIMAL_KHR) \<and>
   recordCommandBuffer env (sint i) (call (AcquireNextImage ra i) s) = Inr s2 \<and>
   at_index (commandBuffers s) (sint i) = Some cb \<and>
   r2 = submitCommandBuffers env (trace s2) cb i \<and>
   (r2 = VK_ERROR_OUT_OF_DATE_KHR \<or> r2 = VK_SUBOPTIMAL_KHR \<or>
    wasWindowResized env (trace s2 @ [SubmitCommandBuffers cb i r2]))"
  show "\<exists>sc p m. vreSwapChain s = Some sc \<and> vrePipeline s = Some p \<and> vreModel s = Some m \<and>
     drawFrame env s =
       recreateSwapChain env
         (s\<lparr>trace := trace s @
              stale_frame_calls ra i cb
                (frame_commands p m (swapChainExtent sc) (renderPass sc)
                   (getFrameBuffer sc (sint i))) r2\<rparr>) \<and>
     (\<forall>r. drawFrame env s = Some r \<longrightarrow>
        (\<exists>post. added s r =
             stale_frame_calls ra i cb
               (frame_commands p m (swapChainExtent sc) (renderPass sc)
                  (getFrameBuffer sc (sint i))) r2 @ post \<and>
           filter is_recording post = [] \<and> filter is_submission post = [] \<and>
           length (constructions post) = 1 \<and> length (filter is_idle_wait post) = 1) \<and>
        filter is_submission (added s r) = [SubmitCommandBuffers cb i r2] \<and>
        length (constructions (added s r)) = 1)"
    by (rule drawFrame_stale_added[of s env ra i s2 cb r2]) (use a in auto)
qed

text \<open>
  The running application after a resize to 1280 by 720: image 0 is acquired, recorded
  into command buffer 50 and submitted with success, the window says it was resized, the
  flag is cleared and the recreation succeeds.
\<close>

theorem drawFrame_stale_after_submit_witness:
  "vreSwapChain app_running \<noteq> None \<and>
   acquireNextImage env_resized (trace app_running) = (VK_SUCCESS, 0) \<and>
   \<not> isl (recordCommandBuffer env_resized (sint (0 :: 32 word))
            (call (AcquireNextImage VK_SUCCESS 0) app_running)) \<and>
   at_index (commandBuffers app_running) (sint (0 :: 32 word)) = Some 50 \<and>
   (\<exists>r post. drawFrame env_resized app_running = Some r \<and> \<not> isl r \<and>
      added app_running r =
        stale_frame_calls VK_SUCCESS 0 50
          (frame_commands \<lparr>graphicsPipeline = 40\<rparr> \<lparr>vertexBuffer = 7, vertexCount = 3\<rparr>
             \<lparr>width = 640, height = 480\<rparr> 20 30) VK_SUCCESS @ post \<and>
      filter is_recording post = [] \<and> filter is_submission post = [] \<and>
      length (constructions post) = 1 \<and>
      filter is_submission (added app_running r) = [SubmitCommandBuffers 50 0 VK_SUCCESS])"
proof -
  let ?s1 = "call (AcquireNextImage VK_SUCCESS 0) app_running"
  have 1: "vreSwapChain app_running \<noteq> None"
    "vreSwapChain app_running = Some (swapChain3 \<lparr>width = 640, height = 480\<rparr>)"
    "vrePipeline app_running = Some \<lparr>graphicsPipeline = 40\<rparr>"
    "vreModel app_running = Some \<lparr>vertexBuffer = 7, vertexCount = 3\<rparr>"
    by (simp_all add: app_running_def)
  have 2: "acquireNextImage env_resized (trace app_running) = (VK_SUCCESS, 0)"
    by (simp add: env_resized_def env_boot_def)
  have 3: "\<not> isl (recordCommandBuffer env_resized (sint (0 :: 32 word)) ?s1)"
    by (simp add: eval_defs env_resized_def)
  then obtain s2 where s2: "recordCommandBuffer env_resized (sint (0 :: 32 word)) ?s1 = Inr s2"
    by (cases "recordCommandBuffer env_resized (sint (0 :: 32 word)) ?s1") auto
  have 4: "at_index (commandBuffers app_running) (sint (0 :: 32 word)) = Some 50"
    by (simp add: app_running_def at_index_def)
  have 5: "submitCommandBuffers env_resized (trace s2) 50 0 = VK_SUCCESS"
    "wasWindowResized env_resized (trace s2 @ [SubmitCommandBuffers 50 0 VK_SUCCESS])"
    by (simp_all add: env_resized_def env_boot_def)
  from drawFrame_resized_eval obtain s' where
    6: "drawFrame env_resized app_running = Some (Inr s')"
    by (auto simp: succeeded_def split: option.splits sum.splits)
  from drawFrame_stale_after_submit
         [of app_running env_resized VK_SUCCESS 0 s2 50 VK_SUCCESS] 1 2 s2 4 5 6
  obtain post where
    "added app_running (Inr s') =
        stale_frame_calls VK_SUCCESS 0 50
          (frame_commands \<lparr>graphicsPipeline = 40\<rparr> \<lparr>vertexBuffer = 7, vertexCount = 3\<rparr>
             (swapChainExtent (swapChain3 \<lparr>width = 640, height = 480\<rparr>))
             (renderPass (swapChain3 \<lparr>width = 640, height = 480\<rparr>))
             (getFrameBuffer (swapChain3 \<lparr>width = 640, height = 480\<rparr>) (sint (0 :: 32 word))))
          VK_SUCCESS @ post"
    "filter is_recording post = []" "filter is_submission post = []"
    "length (constructions post) = 1"
    "filter is_submission (added app_running (Inr s')) = [SubmitCommandBuffers 50 0 VK_SUCCESS]"
    by auto
  then have "added app_running (Inr s') =
        stale_frame_calls VK_SUCCESS 0 50
          (frame_commands \<lparr>graphicsPipeline = 40\<rparr> \<lparr>vertexBuffer = 7, vertexCount = 3\<rparr>
             \<lparr>width = 640, height = 480\<rparr> 20 30) VK_SUCCESS @ post \<and>
      filter is_recording post = [] \<and> filter is_submission post = [] \<and>
      length (constructions post) = 1 \<and>
      filter is_submission (added app_running (Inr s')) = [SubmitCommandBuffers 50 0 VK_SUCCESS]"
    by (simp add: swapChain3_def)
  with 1(1) 2 3 4 6 show ?thesis by auto
qed

text \<open>
  The submission reports "suboptimal" after a successful acquisition and recording, the
  new swap chain has two images, and the pool refuses the allocation: the frame was
  submitted once and ends with that error.
\<close>

theorem drawFrame_stale_after_submit_counterexample:
  "vreSwapChain app_running \<noteq> None \<and>
   acquireNextImage env_stale_submit (trace app_running) = (VK_SUCCESS, 0) \<and>
   \<not> isl (recordCommandBuffer env_stale_submit (sint (0 :: 32 word))
            (call (AcquireNextImage VK_SUCCESS 0) app_running)) \<and>
   filter is_submission (added_by app_running (drawFrame env_stale_submit app_running)) =
     [SubmitCommandBuffers 50 0 VK_SUBOPTIMAL_KHR] \<and>
   error_of (drawFrame env_stale_submit app_running) =
     Some (RuntimeError ''failed to allocate command buffers!'')"
  by (simp add: drawFrame_stale_submit_eval)
     (simp add: eval_defs env_stale_submit_def)

subsection \<open>C5: when the command buffers are reallocated\<close>

text \<open>
  C5. Whenever \<^verbatim>\<open>recreateSwapChain\<close> replaces an existing swap chain (the new one is
  constructed from the old, at the one extent the call constructs at), it frees the
  command buffers and asks the pool for new ones if and only if the image count of the
  new swap chain differs from the old length of \<open>commandBuffers\<close>. If it differs, the
  call frees the old set once and then asks once, for as many as the new swap chain has
  images. When the pool grants them, which it has whenever the call returns without
  error, \<open>commandBuffers\<close> is exactly the handles the pool wrote, as many as the new
  image count. When the pool refuses, the call ends with the allocation error, the set
  freed and not reallocated (null handles only) and the old pipeline still in place. If
  the count does not differ, the call neither frees nor allocates and \<open>commandBuffers\<close>
  is left untouched, even though the swap chain is replaced and, when the call returns,
  the pipeline is the one built last, for the render pass of the new swap chain.
\<close>

theorem recreateSwapChain_reallocates_iff:
  "vreSwapChain s = Some old \<and> recreateSwapChain env s = Some r \<and>
   vreSwapChain (state_of r) = Some new \<longrightarrow>
     (\<exists>e. constructions (added s r) = [e] \<and>
        newSwapChain env (trace s @ takeWhile (\<lambda>ev. \<not> is_construction ev) (added s r)) e
          (Some old) = Some new) \<and>
     (imageCount new \<noteq> length (commandBuffers s) \<longrightarrow>
        (\<exists>res hs.
           vkAllocateCommandBuffers env
             (trace s @ takeWhile (\<lambda>ev. \<not> is_allocate ev) (added s r))
             (size_to_uint32 (imageCount new)) = (res, hs) \<and>
           filter is_reallocation (added s r) =
             [VkFreeCommandBuffers (float_to_uint32 (to_float (length (commandBuffers s))))
                (commandBuffers s),
              VkAllocateCommandBuffers (size_to_uint32 (imageCount new)) res] \<and>
           (\<not> isl r \<longrightarrow> res = VK_SUCCESS) \<and>
           (res = VK_SUCCESS \<longrightarrow>
              commandBuffers (state_of r) =
                map hs [0..<size_to_uint32 (imageCount new)] @
                replicate (imageCount new - size_to_uint32 (imageCount new)) VK_NULL_HANDLE \<and>
              (imageCount new < 2 ^ 32 \<longrightarrow>
                 commandBuffers (state_of r) = map hs [0..<imageCount new])) \<and>
           (res \<noteq> VK_SUCCESS \<longrightarrow>
              error_of (Some r) = Some (RuntimeError ''failed to allocate command buffers!'') \<and>
              commandBuffers (state_of r) = replicate (imageCount new) VK_NULL_HANDLE \<and>
              vrePipeline (state_of r) = vrePipeline s)) \<and>
        length (commandBuffers (state_of r)) = imageCount new) \<and>
     (imageCount new = length (commandBuffers s) \<longrightarrow>
        filter is_reallocation (added s r) = [] \<and>
        commandBuffers (state_of r) = commandBuffers s) \<and>
     (\<forall>s'. r = Inr s' \<longrightarrow>
        vrePipeline s' = newPipeline env (butlast (trace s'))
           \<lparr>cfg_renderPass = renderPass new, cfg_pipelineLayout = pipelineLayout s\<rparr> \<and>
        vrePipeline s' \<noteq> None)"
proof (intro impI)
  assume a: "vreSwapChain s = Some old \<and> recreateSwapChain env s = Some r \<and>
   vreSwapChain (state_of r) = Some new"
  then have 1: "vreSwapChain s = Some old" and 2: "recreateSwapChain env s = Some r"
    and 3: "vreSwapChain (state_of r) = Some new" by simp_all
  note surface = recreateSwapChain_surface[OF 1 2 3]
  note rep = recreateSwapChain_replace[OF 1 2 3]
  have differ: "(\<exists>res hs.
           vkAllocateCommandBuffers env
             (trace s @ takeWhile (\<lambda>ev. \<not> is_allocate ev) (added s r))
             (size_to_uint32 (imageCount new)) = (res, hs) \<and>
           filter is_reallocation (added s r) =
             [VkFreeCommandBuffers (float_to_uint32 (to_float (length (commandBuffers s))))
                (commandBuffers s),
              VkAllocateCommandBuffers (size_to_uint32 (imageCount new)) res] \<and>
           (\<not> isl r \<longrightarrow> res = VK_SUCCESS) \<and>
           (res = VK_SUCCESS \<longrightarrow>
              commandBuffers (state_of r) =
                map hs [0..<size_to_uint32 (imageCount new)] @
                replicate (imageCount new - size_to_uint32 (imageCount new)) VK_NULL_HANDLE \<and>
              (imageCount new < 2 ^ 32 \<longrightarrow>
                 commandBuffers (state_of r) = map hs [0..<imageCount new])) \<and>
           (res \<noteq> VK_SUCCESS \<longrightarrow>
              error_of (Some r) = Some (RuntimeError ''failed to allocate command buffers!'') \<and>
              commandBuffers (state_of r) = replicate (imageCount new) VK_NULL_HANDLE \<and>
              vrePipeline (state_of r) = vrePipeline s)) \<and>
        length (commandBuffers (state_of r)) = imageCount new"
    if d: "imageCount new \<noteq> length (commandBuffers s)"
  proof -
    from recreateSwapChain_reallocates[OF 1 2 3 d] obtain res hs where
      al: "vkAllocateCommandBuffers env
             (trace s @ takeWhile (\<lambda>ev. \<not> is_allocate ev) (added s r))
             (size_to_uint32 (imageCount new)) = (res, hs)" and
      f: "filter is_reallocation (added s r) =
             [VkFreeCommandBuffers (float_to_uint32 (to_float (length (commandBuffers s))))
                (commandBuffers s),
              VkAllocateCommandBuffers (size_to_uint32 (imageCount new)) res]" and
      ok: "res = VK_SUCCESS \<longrightarrow>
              commandBuffers (state_of r) =
                map hs [0..<size_to_uint32 (imageCount new)] @
                replicate (imageCount new - size_to_uint32 (imageCount new)) VK_NULL_HANDLE" and
      bad: "res \<noteq> VK_SUCCESS \<longrightarrow>
              error_of (Some r) = Some (RuntimeError ''failed to allocate command buffers!'') \<and>
              commandBuffers (state_of r) = replicate (imageCount new) VK_NULL_HANDLE \<and>
              vrePipeline (state_of r) = vrePipeline s"
      by blast
    have i: "\<not> isl r \<longrightarrow> res = VK_SUCCESS"
    proof (intro impI)
      assume "\<not> isl r"
      then obtain s' where "r = Inr s'" by (cases r) auto
      then have "error_of (Some r) = None" by (simp add: error_of_simps)
      with bad show "res = VK_SUCCESS" by auto
    qed
    have small: "imageCount new < 2 ^ 32 \<longrightarrow>
        commandBuffers (state_of r) = map hs [0..<imageCount new]" if "res = VK_SUCCESS"
      using ok that by (simp add: size_to_uint32_def)
    from al f ok bad i small rep d show ?thesis by blast
  qed
  have p: "vrePipeline s' = newPipeline env (butlast (trace s'))
           \<lparr>cfg_renderPass = renderPass new, cfg_pipelineLayout = pipelineLayout s\<rparr> \<and>
        vrePipeline s' \<noteq> None" if "r = Inr s'" for s'
  proof -
    from that 2 have "recreateSwapChain env s = Some (Inr s')" by simp
    from recreateSwapChain_Inr_pipeline_exact[OF this] obtain sc where
      q: "vreSwapChain s' = Some sc"
         "vrePipeline s' = newPipeline env (butlast (trace s'))
            \<lparr>cfg_renderPass = renderPass sc, cfg_pipelineLayout = pipelineLayout s\<rparr>"
         "vrePipeline s' \<noteq> None" by blast
    from q(1) 3 that have "sc = new" by simp
    with q show ?thesis by simp
  qed
  from surface rep differ p
  show "(\<exists>e. constructions (added s r) = [e] \<and>
        newSwapChain env (trace s @ takeWhile (\<lambda>ev. \<not> is_construction ev) (added s r)) e
          (Some old) = Some new) \<and>
     (imageCount new \<noteq> length (commandBuffers s) \<longrightarrow>
        (\<exists>res hs.
           vkAllocateCommandBuffers env
             (trace s @ takeWhile (\<lambda>ev. \<not> is_allocate ev) (added s r))
             (size_to_uint32 (imageCount new)) = (res, hs) \<and>
           filter is_reallocation (added s r) =
             [VkFreeCommandBuffers (float_to_uint32 (to_float (length (commandBuffers s))))
                (commandBuffers s),
              VkAllocateCommandBuffers (size_to_uint32 (imageCount new)) res] \<and>
           (\<not> isl r \<longrightarrow> res = VK_SUCCESS) \<and>
           (res = VK_SUCCESS \<longrightarrow>
              commandBuffers (state_of r) =
                map hs [0..<size_to_uint32 (imageCount new)] @
                replicate (imageCount new - size_to_uint32 (imageCount new)) VK_NULL_HANDLE \<and>
              (imageCount new < 2 ^ 32 \<longrightarrow>
                 commandBuffers (state_of r) = map hs [0..<imageCount new])) \<and>
           (res \<noteq> VK_SUCCESS \<longrightarrow>
              error_of (Some r) = Some (RuntimeError ''failed to allocate command buffers!'') \<and>
              commandBuffers (state_of r) = replicate (imageCount new) VK_NULL_HANDLE \<and>
              vrePipeline (state_of r) = vrePipeline s)) \<and>
        length (commandBuffers (state_of r)) = imageCount new) \<and>
     (imageCount new = length (commandBuffers s) \<longrightarrow>
        filter is_reallocation (added s r) = [] \<and>
        commandBuffers (state_of r) = commandBuffers s) \<and>
     (\<forall>s'. r = Inr s' \<longrightarrow>
        vrePipeline s' = newPipeline env (butlast (trace s'))
           \<lparr>cfg_renderPass = renderPass new, cfg_pipelineLayout = pipelineLayout s\<rparr> \<and>
        vrePipeline s' \<noteq> None)"
    by blast
qed

text \<open>
  The two scenarios in the running application with three command buffers: the extent
  changes from 640 by 480 to 1280 by 720 and the image count stays 3, so the set stays
  [50, 51, 52]; the image count changes from 3 to 2, and the set becomes the two handles
  the pool wrote, [50, 51].
\<close>

theorem recreateSwapChain_reallocates_iff_witness:
  "(\<exists>r. recreateSwapChain env_resized app_running = Some r \<and> \<not> isl r \<and>
      vreSwapChain (state_of r) = Some (swapChain3 \<lparr>width = 1280, height = 720\<rparr>) \<and>
      imageCount (swapChain3 \<lparr>width = 1280, height = 720\<rparr>) =
        length (commandBuffers app_running) \<and>
      filter is_reallocation (added app_running r) = [] \<and>
      commandBuffers (state_of r) = commandBuffers app_running \<and>
      vrePipeline (state_of r) \<noteq> None) \<and>
   (\<exists>r. recreateSwapChain env_two_images app_running = Some r \<and> \<not> isl r \<and>
      vreSwapChain (state_of r) = Some (swapChain2 \<lparr>width = 640, height = 480\<rparr>) \<and>
      imageCount (swapChain2 \<lparr>width = 640, height = 480\<rparr>) \<noteq>
        length (commandBuffers app_running) \<and>
      filter is_reallocation (added app_running r) =
        [VkFreeCommandBuffers (float_to_uint32 (to_float 3)) [50, 51, 52],
         VkAllocateCommandBuffers 2 VK_SUCCESS] \<and>
      commandBuffers (state_of r) = [50, 51])"
proof (intro conjI)
  let ?new = "swapChain3 \<lparr>width = 1280, height = 720\<rparr>"
  let ?old = "swapChain3 \<lparr>width = 640, height = 480\<rparr>"
  obtain r where r: "recreateSwapChain env_resized app_running = Some r" "\<not> isl r"
    "vreSwapChain (state_of r) = Some ?new"
    using recreateSwapChain_resized_eval by simp
  have o: "vreSwapChain app_running = Some ?old" by (simp add: app_running_def)
  have c: "imageCount ?new = length (commandBuffers app_running)"
    by (simp add: swapChain3_def app_running_def)
  obtain b where b: "r = Inr b" using r(2) by (cases r) auto
  from recreateSwapChain_reallocates_iff[of app_running ?old env_resized r ?new] o r c
  have "filter is_reallocation (added app_running r) = [] \<and>
      commandBuffers (state_of r) = commandBuffers app_running \<and>
      (\<forall>s'. r = Inr s' \<longrightarrow> vrePipeline s' \<noteq> None)"
    by blast
  with b have "filter is_reallocation (added app_running r) = [] \<and>
      commandBuffers (state_of r) = commandBuffers app_running \<and>
      vrePipeline (state_of r) \<noteq> None"
    by simp
  with r c show "\<exists>r. recreateSwapChain env_resized app_running = Some r \<and> \<not> isl r \<and>
      vreSwapChain (state_of r) = Some ?new \<and>
      imageCount ?new = length (commandBuffers app_running) \<and>
      filter is_reallocation (added app_running r) = [] \<and>
      commandBuffers (state_of r) = commandBuffers app_running \<and>
      vrePipeline (state_of r) \<noteq> None" by blast
next
  let ?new = "swapChain2 \<lparr>width = 640, height = 480\<rparr>"
  let ?old = "swapChain3 \<lparr>width = 640, height = 480\<rparr>"
  obtain r where r: "recreateSwapChain env_two_images app_running = Some r" "\<not> isl r"
    "vreSwapChain (state_of r) = Some ?new"
    using recreateSwapChain_two_images_eval by simp
  have o: "vreSwapChain app_running = Some ?old" "commandBuffers app_running = [50, 51, 52]"
    by (simp_all add: app_running_def)
  have c: "imageCount ?new \<noteq> length (commandBuffers app_running)" "imageCount ?new = 2"
    by (simp_all add: swapChain2_def app_running_def)
  have al: "vkAllocateCommandBuffers env_two_images tr n = (VK_SUCCESS, (\<lambda>i. 50 + i))" for tr n
    by (simp add: env_two_images_def env_boot_def)
  from recreateSwapChain_reallocates_iff[of app_running ?old env_two_images r ?new] o(1) r c(1)
  obtain res hs where
    "vkAllocateCommandBuffers env_two_images
       (trace app_running @ takeWhile (\<lambda>ev. \<not> is_allocate ev) (added app_running r))
       (size_to_uint32 (imageCount ?new)) = (res, hs)"
    "filter is_reallocation (added app_running r) =
           [VkFreeCommandBuffers (float_to_uint32 (to_float (length (commandBuffers app_running))))
              (commandBuffers app_running),
            VkAllocateCommandBuffers (size_to_uint32 (imageCount ?new)) res]"
    "res = VK_SUCCESS"
    "imageCount ?new < 2 ^ 32 \<longrightarrow> commandBuffers (state_of r) = map hs [0..<imageCount ?new]"
    by auto
  then have "filter is_reallocation (added app_running r) =
        [VkFreeCommandBuffers (float_to_uint32 (to_float 3)) [50, 51, 52],
         VkAllocateCommandBuffers 2 VK_SUCCESS] \<and>
      commandBuffers (state_of r) = [50, 51]"
    using o(2) c(2) by (auto simp: al size_to_uint32_def numeral_3_eq_3 upt_0_2)
  with r c(1) show "\<exists>r. recreateSwapChain env_two_images app_running = Some r \<and> \<not> isl r \<and>
      vreSwapChain (state_of r) = Some ?new \<and>
      imageCount ?new \<noteq> length (commandBuffers app_running) \<and>
      filter is_reallocation (added app_running r) =
        [VkFreeCommandBuffers (float_to_uint32 (to_float 3)) [50, 51, 52],
         VkAllocateCommandBuffers 2 VK_SUCCESS] \<and>
      commandBuffers (state_of r) = [50, 51]" by blast
qed

text \<open>
  The image count changes from 3 to 2 and the pool refuses the allocation: the swap chain
  is replaced and the count differs, the old set is freed, and the call ends with the
  allocation error, \<open>commandBuffers\<close> holding two null handles and no command buffer.
\<close>

theorem recreateSwapChain_not_reallocated_counterexample:
  "vreSwapChain app_running = Some (swapChain3 \<lparr>width = 640, height = 480\<rparr>) \<and>
   recreateSwapChain env_pool_exhausted app_running \<noteq> None \<and>
   vreSwapChain (state_of (the (recreateSwapChain env_pool_exhausted app_running))) =
     Some (swapChain2 \<lparr>width = 640, height = 480\<rparr>) \<and>
   imageCount (swapChain2 \<lparr>width = 640, height = 480\<rparr>) \<noteq>
     length (commandBuffers app_running) \<and>
   filter is_reallocation
     (added_by app_running (recreateSwapChain env_pool_exhausted app_running)) =
     [VkFreeCommandBuffers (Some 3) [50, 51, 52],
      VkAllocateCommandBuffers 2 VK_ERROR_OUT_OF_DEVICE_MEMORY] \<and>
   error_of (recreateSwapChain env_pool_exhausted app_running) =
     Some (RuntimeError ''failed to allocate command buffers!'') \<and>
   commandBuffers (state_of (the (recreateSwapChain env_pool_exhausted app_running))) =
     [VK_NULL_HANDLE, VK_NULL_HANDLE]"
  by (simp add: recreateSwapChain_pool_exhausted_eval added_by_def added_def error_of_simps)
     (simp add: app_running_def swapChain2_def swapChain3_def is_reallocation_def)

subsection \<open>C6: freeing twice\<close>

text \<open>
  C6. \<^verbatim>\<open>freeCommandBuffers\<close> has no exceptional outcome (it maps a state to a state).
  After one call the set is empty. A second call in a row leaves the empty set, and every
  other member, as they are: all it does is one more \<^verbatim>\<open>vkFreeCommandBuffers\<close> on the
  pool, with count 0 and the empty array. The same holds for any call on an empty set.
\<close>

theorem freeCommandBuffers_twice:
  "commandBuffers (freeCommandBuffers s) = [] \<and>
   freeCommandBuffers (freeCommandBuffers s) =
     call (VkFreeCommandBuffers (Some 0) []) (freeCommandBuffers s) \<and>
   commandBuffers (freeCommandBuffers (freeCommandBuffers s)) = [] \<and>
   (commandBuffers s = [] \<longrightarrow>
      freeCommandBuffers s = call (VkFreeCommandBuffers (Some 0) []) s)"
proof -
  have z: "float_to_uint32 (to_float 0) = Some 0"
    by (simp add: to_float_def round_to_float_def float_to_uint32_def)
  have e: "commandBuffers t = [] \<Longrightarrow>
      freeCommandBuffers t = call (VkFreeCommandBuffers (Some 0) []) t" for t
    by (simp add: freeCommandBuffers_def z call_def)
  have f: "commandBuffers (freeCommandBuffers s) = []"
    by (simp add: freeCommandBuffers_def)
  from e f show ?thesis by (simp add: call_simps)
qed

theorem freeCommandBuffers_twice_witness:
  "commandBuffers (freeCommandBuffers app_running) = [] \<and>
   trace (freeCommandBuffers (freeCommandBuffers app_running)) =
     [VkFreeCommandBuffers (Some 3) [50, 51, 52], VkFreeCommandBuffers (Some 0) []] \<and>
   commandBuffers app_booting = [] \<and>
   freeCommandBuffers app_booting = call (VkFreeCommandBuffers (Some 0) []) app_booting"
proof -
  have b: "commandBuffers app_booting = []" by (simp add: app_booting_def)
  have "float_to_uint32 (to_float (3 * 2 ^ 0)) = Some (3 * 2 ^ 0)"
    by (rule count_exact) simp_all
  then have c: "float_to_uint32 (to_float (Suc (Suc (Suc 0)))) = Some 3"
    by (simp add: numeral_3_eq_3)
  have "trace (freeCommandBuffers app_running) = [VkFreeCommandBuffers (Some 3) [50, 51, 52]]"
    by (simp add: freeCommandBuffers_trace app_running_def c)
  with freeCommandBuffers_twice[of app_running] freeCommandBuffers_twice[of app_booting] b
  show ?thesis by (simp add: call_simps)
qed

subsection \<open>C7: the fatal acquisition error\<close>

text \<open>
  C7. \<^verbatim>\<open>drawFrame\<close> fails with the acquisition error ("failed to acquire swap chain
  image!") exactly when \<^verbatim>\<open>acquireNextImage\<close> is asked (there is a swap chain) and reports
  a status that is none of "success", "suboptimal" and "out of date". The error then
  reaches the caller with the object as it was: nothing but the acquisition call was
  added to the trace, and no member was changed.
\<close>

theorem drawFrame_AcquireError:
  "(error_of (drawFrame env s) = Some (RuntimeError ''failed to acquire swap chain image!'') \<longleftrightarrow>
      vreSwapChain s \<noteq> None \<and>
      fst (acquireNextImage env (trace s)) \<noteq> VK_SUCCESS \<and>
      fst (acquireNextImage env (trace s)) \<noteq> VK_SUBOPTIMAL_KHR \<and>
      fst (acquireNextImage env (trace s)) \<noteq> VK_ERROR_OUT_OF_DATE_KHR) \<and>
   (vreSwapChain s \<noteq> None \<and>
    fst (acquireNextImage env (trace s)) \<noteq> VK_SUCCESS \<and>
    fst (acquireNextImage env (trace s)) \<noteq> VK_SUBOPTIMAL_KHR \<and>
    fst (acquireNextImage env (trace s)) \<noteq> VK_ERROR_OUT_OF_DATE_KHR \<longrightarrow>
    drawFrame env s =
      Some (Inl (RuntimeError ''failed to acquire swap chain image!'',
                 s\<lparr>trace := trace s @
                      [AcquireNextImage (fst (acquireNextImage env (trace s)))
                         (snd (acquireNextImage env (trace s)))]\<rparr>)))"
proof (intro conjI impI)
  show "error_of (drawFrame env s) = Some (RuntimeError ''failed to acquire swap chain image!'') \<longleftrightarrow>
      vreSwapChain s \<noteq> None \<and>
      fst (acquireNextImage env (trace s)) \<noteq> VK_SUCCESS \<and>
      fst (acquireNextImage env (trace s)) \<noteq> VK_SUBOPTIMAL_KHR \<and>
      fst (acquireNextImage env (trace s)) \<noteq> VK_ERROR_OUT_OF_DATE_KHR"
    by (rule drawFrame_error_acquire)
next
  assume a: "vreSwapChain s \<noteq> None \<and>
    fst (acquireNextImage env (trace s)) \<noteq> VK_SUCCESS \<and>
    fst (acquireNextImage env (trace s)) \<noteq> VK_SUBOPTIMAL_KHR \<and>
    fst (acquireNextImage env (trace s)) \<noteq> VK_ERROR_OUT_OF_DATE_KHR"
  obtain ra i where acq: "acquireNextImage env (trace s) = (ra, i)"
    by (cases "acquireNextImage env (trace s)")
  with a drawFrame_acquire_failed[of s env ra i]
  show "drawFrame env s =
      Some (Inl (RuntimeError ''failed to acquire swap chain image!'',
                 s\<lparr>trace := trace s @
                      [AcquireNextImage (fst (acquireNextImage env (trace s)))
                         (snd (acquireNextImage env (trace s)))]\<rparr>))"
    by (simp add: call_def)
qed

text \<open>
  A lost device is such a status, and "out of date" is not: the first frame fails with the
  acquisition error, the second does not.
\<close>

theorem drawFrame_AcquireError_witness:
  "vreSwapChain app_running \<noteq> None \<and>
   fst (acquireNextImage env_device_lost (trace app_running)) = VK_ERROR_DEVICE_LOST \<and>
   drawFrame env_device_lost app_running =
     Some (Inl (RuntimeError ''failed to acquire swap chain image!'',
                app_running\<lparr>trace := [AcquireNextImage VK_ERROR_DEVICE_LOST 0]\<rparr>)) \<and>
   fst (acquireNextImage env_out_of_date (trace app_running)) = VK_ERROR_OUT_OF_DATE_KHR \<and>
   error_of (drawFrame env_out_of_date app_running) \<noteq>
     Some (RuntimeError ''failed to acquire swap chain image!'')"
proof -
  have 1: "vreSwapChain app_running \<noteq> None" "trace app_running = []"
    by (simp_all add: app_running_def)
  have 2: "acquireNextImage env_device_lost (trace app_running) = (VK_ERROR_DEVICE_LOST, 0)"
    by (simp add: env_device_lost_def env_boot_def)
  have 3: "acquireNextImage env_out_of_date (trace app_running) = (VK_ERROR_OUT_OF_DATE_KHR, 0)"
    by (simp add: env_out_of_date_def env_boot_def)
  from drawFrame_AcquireError[of env_device_lost app_running] 1 2
  have "drawFrame env_device_lost app_running =
     Some (Inl (RuntimeError ''failed to acquire swap chain image!'',
                app_running\<lparr>trace := [AcquireNextImage VK_ERROR_DEVICE_LOST 0]\<rparr>))"
    by simp
  moreover from drawFrame_AcquireError[of env_out_of_date app_running] 3
  have "error_of (drawFrame env_out_of_date app_running) \<noteq>
     Some (RuntimeError ''failed to acquire swap chain image!'')"
    by simp
  ultimately show ?thesis using 1 2 3 by simp
qed

subsection \<open>C8: the commands recorded for a frame\<close>

text \<open>
  C8. \<^verbatim>\<open>recordCommandBuffer\<close> is deterministic. Whenever it returns, what it added to
  the trace is the begin of the command buffer at the index, the commands of the frame
  (the fixed clear policy of opaque dark grey and depth 1, stencil 0; viewport and scissor
  over the full extent; one bind of the pipeline, one bind and one draw of the model) and
  the end of the command buffer. The commands recorded are a function of the pipeline, the
  model, the extent of the swap chain, its render pass and its frame buffer for the image
  index, and of nothing else: two runs that agree on these five, in whatever environments
  and after whatever histories, record identical command sequences.
\<close>

theorem recordCommandBuffer_deterministic:
  "(\<forall>s'. recordCommandBuffer env i s = Inr s' \<longrightarrow>
      (\<exists>cb sc p m. at_index (commandBuffers s) i = Some cb \<and> vreSwapChain s = Some sc \<and>
         vrePipeline s = Some p \<and> vreModel s = Some m \<and>
         s' = s\<lparr>trace := trace s @ VkBeginCommandBuffer cb VK_SUCCESS #
                 map (Cmd cb) (frame_commands p m (swapChainExtent sc) (renderPass sc)
                                 (getFrameBuffer sc i)) @
                 [VkEndCommandBuffer cb VK_SUCCESS]\<rparr>)) \<and>
   (\<forall>s' env2 i2 s2 s2'.
      recordCommandBuffer env i s = Inr s' \<and> recordCommandBuffer env2 i2 s2 = Inr s2' \<and>
      vrePipeline s = vrePipeline s2 \<and> vreModel s = vreModel s2 \<and>
      map_option swapChainExtent (vreSwapChain s) = map_option swapChainExtent (vreSwapChain s2) \<and>
      map_option renderPass (vreSwapChain s) = map_option renderPass (vreSwapChain s2) \<and>
      map_option (\<lambda>sc. getFrameBuffer sc i) (vreSwapChain s) =
        map_option (\<lambda>sc. getFrameBuffer sc i2) (vreSwapChain s2) \<longrightarrow>
      recorded_commands (added s (Inr s')) = recorded_commands (added s2 (Inr s2')))"
proof (intro conjI allI impI)
  fix s'
  assume "recordCommandBuffer env i s = Inr s'"
  then show "\<exists>cb sc p m. at_index (commandBuffers s) i = Some cb \<and> vreSwapChain s = Some sc \<and>
         vrePipeline s = Some p \<and> vreModel s = Some m \<and>
         s' = s\<lparr>trace := trace s @ VkBeginCommandBuffer cb VK_SUCCESS #
                 map (Cmd cb) (frame_commands p m (swapChainExtent sc) (renderPass sc)
                                 (getFrameBuffer sc i)) @
                 [VkEndCommandBuffer cb VK_SUCCESS]\<rparr>"
    by (rule recordCommandBuffer_Inr)
next
  fix s' env2 i2 s2 s2'
  assume a: "recordCommandBuffer env i s = Inr s' \<and> recordCommandBuffer env2 i2 s2 = Inr s2' \<and>
      vrePipeline s = vrePipeline s2 \<and> vreModel s = vreModel s2 \<and>
      map_option swapChainExtent (vreSwapChain s) = map_option swapChainExtent (vreSwapChain s2) \<and>
      map_option renderPass (vreSwapChain s) = map_option renderPass (vreSwapChain s2) \<and>
      map_option (\<lambda>sc. getFrameBuffer sc i) (vreSwapChain s) =
        map_option (\<lambda>sc. getFrameBuffer sc i2) (vreSwapChain s2)"
  from a recordCommandBuffer_recorded[of env i s s'] obtain sc p m where
    1: "vreSwapChain s = Some sc" "vrePipeline s = Some p" "vreModel s = Some m"
       "recorded_commands (added s (Inr s')) =
          frame_commands p m (swapChainExtent sc) (renderPass sc) (getFrameBuffer sc i)"
    by blast
  from a recordCommandBuffer_recorded[of env2 i2 s2 s2'] obtain sc2 p2 m2 where
    2: "vreSwapChain s2 = Some sc2" "vrePipeline s2 = Some p2" "vreModel s2 = Some m2"
       "recorded_commands (added s2 (Inr s2')) =
          frame_commands p2 m2 (swapChainExtent sc2) (renderPass sc2) (getFrameBuffer sc2 i2)"
    by blast
  from a 1 2 show "recorded_commands (added s (Inr s')) = recorded_commands (added s2 (Inr s2'))"
    by simp
qed

text \<open>
  Image 0 recorded twice in the running application, the second time after the first:
  the histories differ, the commands do not.
\<close>

theorem recordCommandBuffer_deterministic_witness:
  "(\<exists>s' s2'. recordCommandBuffer env_boot 0 app_running = Inr s' \<and>
      recordCommandBuffer env_boot 0 s' = Inr s2' \<and>
      trace s' \<noteq> trace app_running \<and>
      recorded_commands (added app_running (Inr s')) =
        frame_commands \<lparr>graphicsPipeline = 40\<rparr> \<lparr>vertexBuffer = 7, vertexCount = 3\<rparr>
          \<lparr>width = 640, height = 480\<rparr> 20 30 \<and>
      recorded_commands (added app_running (Inr s')) = recorded_commands (added s' (Inr s2')))"
proof -
  let ?s' = "app_running\<lparr>trace :=
       VkBeginCommandBuffer 50 VK_SUCCESS #
       map (Cmd 50)
         (frame_commands \<lparr>graphicsPipeline = 40\<rparr> \<lparr>vertexBuffer = 7, vertexCount = 3\<rparr>
            \<lparr>width = 640, height = 480\<rparr> 20 30) @
       [VkEndCommandBuffer 50 VK_SUCCESS]\<rparr>"
  have 1: "recordCommandBuffer env_boot 0 app_running = Inr ?s'"
    using recordCommandBuffer_eval[of 0] by simp
  have "\<not> isl (recordCommandBuffer env_boot 0 ?s')"
    by (simp add: recordCommandBuffer_def Let_def call_def env_boot_def
      app_running_def swapChain3_def at_index_def)
  then obtain s2' where 2: "recordCommandBuffer env_boot 0 ?s' = Inr s2'"
    by (cases "recordCommandBuffer env_boot 0 ?s'") auto
  have 3: "trace ?s' \<noteq> trace app_running" by (simp add: app_running_def)
  have 4: "recorded_commands (added app_running (Inr ?s')) =
        frame_commands \<lparr>graphicsPipeline = 40\<rparr> \<lparr>vertexBuffer = 7, vertexCount = 3\<rparr>
          \<lparr>width = 640, height = 480\<rparr> 20 30"
    by (simp add: added_def app_running_def recorded_commands_map_Cmd)
  have "recorded_commands (added app_running (Inr ?s')) = recorded_commands (added ?s' (Inr s2'))"
    by (rule recordCommandBuffer_deterministic
          [THEN conjunct2, rule_format, of env_boot 0 app_running ?s' env_boot 0 ?s' s2'])
       (simp add: 1 2)
  with 1 2 3 4 show ?thesis by blast
qed

text \<open>
  The same pipeline, model and extent (the same running application), image 0 and
  image 1: both recordings succeed, and their command sequences differ, in the frame
  buffer of the render pass.
\<close>

theorem recordCommandBuffer_image_counterexample:
  "\<not> isl (recordCommandBuffer env_boot 0 app_running) \<and>
   \<not> isl (recordCommandBuffer env_boot 1 app_running) \<and>
   recorded_commands (added app_running (recordCommandBuffer env_boot 0 app_running)) \<noteq>
   recorded_commands (added app_running (recordCommandBuffer env_boot 1 app_running))"
  using recordCommandBuffer_eval[of 0] recordCommandBuffer_eval[of 1]
  by (simp add: added_def app_running_def recorded_commands_map_Cmd frame_commands_def)

subsection \<open>C9: the preconditions of createPipeline\<close>

text \<open>
  C9. \<^verbatim>\<open>createPipeline\<close> is called from \<^verbatim>\<open>recreateSwapChain\<close> only, and that is called
  from the constructor and from \<^verbatim>\<open>drawFrame\<close>, which \<^verbatim>\<open>run\<close> calls. In all of these
  the two assertions of \<^verbatim>\<open>createPipeline\<close> hold. \<^verbatim>\<open>recreateSwapChain\<close> constructs the
  swap chain before it calls \<^verbatim>\<open>createPipeline\<close>, so the first assertion never fails, in
  any state. The second never fails in a state whose pipeline layout is not null, and
  neither \<^verbatim>\<open>drawFrame\<close> nor \<^verbatim>\<open>run\<close> raises an assertion failure from such a state.
  The constructor creates the pipeline layout before its \<^verbatim>\<open>recreateSwapChain\<close>, so with
  a Vulkan that writes a non-null handle whenever \<^verbatim>\<open>vkCreatePipelineLayout\<close> succeeds,
  no assertion fails in the constructor or anywhere in the life of the object, whatever
  the layout member held before.
\<close>

theorem createPipeline_preconditions_hold:
  "error_of (recreateSwapChain env s) \<noteq>
     Some (AssertionFailed ''Cannot create pipeline before swap chain'') \<and>
   (pipelineLayout s \<noteq> VK_NULL_HANDLE \<longrightarrow>
      \<not> is_assertion_failure (error_of (recreateSwapChain env s)) \<and>
      \<not> is_assertion_failure (error_of (drawFrame env s)) \<and>
      \<not> is_assertion_failure (error_of (run env s))) \<and>
   (valid_layout_handles env \<longrightarrow>
      \<not> is_assertion_failure (error_of (VreApp_ctor env (fresh h0))) \<and>
      \<not> is_assertion_failure (error_of (VreApp_main env h0)))"
proof (intro conjI impI)
  show "error_of (recreateSwapChain env s) \<noteq>
     Some (AssertionFailed ''Cannot create pipeline before swap chain'')"
  proof
    assume "error_of (recreateSwapChain env s) =
      Some (AssertionFailed ''Cannot create pipeline before swap chain'')"
    then obtain s' where "recreateSwapChain env s =
        Some (Inl (AssertionFailed ''Cannot create pipeline before swap chain'', s'))"
      by (auto simp: error_of_def split: option.splits sum.splits)
    from recreateSwapChain_Inl[OF this] show False by simp
  qed
next
  assume l: "pipelineLayout s \<noteq> VK_NULL_HANDLE"
  show "\<not> is_assertion_failure (error_of (recreateSwapChain env s))"
  proof
    assume "is_assertion_failure (error_of (recreateSwapChain env s))"
    then obtain msg s' where
      "recreateSwapChain env s = Some (Inl (AssertionFailed msg, s'))"
      by (auto simp: error_of_def split: option.splits sum.splits elim: is_assertion_failure.elims)
    from recreateSwapChain_Inl[OF this] l show False by simp
  qed
next
  assume l: "pipelineLayout s \<noteq> VK_NULL_HANDLE"
  show "\<not> is_assertion_failure (error_of (drawFrame env s))"
  proof
    assume "is_assertion_failure (error_of (drawFrame env s))"
    then obtain msg s' where
      "drawFrame env s = Some (Inl (AssertionFailed msg, s'))"
      by (auto simp: error_of_def split: option.splits sum.splits elim: is_assertion_failure.elims)
    from drawFrame_Inl[OF this] l show False by simp
  qed
next
  assume l: "pipelineLayout s \<noteq> VK_NULL_HANDLE"
  show "\<not> is_assertion_failure (error_of (run env s))"
  proof (cases "run env s")
    case None
    then show ?thesis by (simp add: error_of_simps)
  next
    case (Some r)
    from run_no_assertion[OF Some] l Some show ?thesis by simp
  qed
next
  assume v: "valid_layout_handles env"
  from VreApp_ctor_no_assertion[OF v, of "fresh h0"]
  show "\<not> is_assertion_failure (error_of (VreApp_ctor env (fresh h0)))" by blast
next
  assume v: "valid_layout_handles env"
  note c = VreApp_ctor_no_assertion[OF v, of "fresh h0"]
  show "\<not> is_assertion_failure (error_of (VreApp_main env h0))"
  proof (cases "VreApp_ctor env (fresh h0)")
    case None
    then show ?thesis by (simp add: VreApp_main_def error_of_simps)
  next
    case (Some r)
    show ?thesis
    proof (cases r)
      case (Inl x)
      with Some c show ?thesis by (simp add: VreApp_main_def)
    next
      case (Inr s1)
      with Some c have l: "pipelineLayout s1 \<noteq> VK_NULL_HANDLE" by blast
      have m: "VreApp_main env h0 = run env s1"
        using Some Inr by (simp add: VreApp_main_def)
      show ?thesis
      proof (cases "run env s1")
        case None
        with m show ?thesis by (simp add: error_of_simps)
      next
        case r: (Some r')
        from run_no_assertion[OF r] l r m show ?thesis by simp
      qed
    qed
  qed
qed

text \<open>
  The running application has a layout, and an environment that closes the window after
  one frame keeps the promise of Vulkan: the program constructs the object, draws the
  frame and returns, and no assertion has failed.
\<close>

theorem createPipeline_preconditions_hold_witness:
  "pipelineLayout app_running \<noteq> VK_NULL_HANDLE \<and>
   succeeded (drawFrame env_out_of_date app_running) \<noteq> None \<and>
   \<not> is_assertion_failure (error_of (drawFrame env_out_of_date app_running)) \<and>
   valid_layout_handles env_one_frame \<and>
   succeeded (VreApp_main env_one_frame 0) \<noteq> None \<and>
   \<not> is_assertion_failure (error_of (VreApp_main env_one_frame 0))"
proof -
  have 1: "pipelineLayout app_running \<noteq> VK_NULL_HANDLE"
    by (simp add: app_running_def VK_NULL_HANDLE_def)
  have 2: "valid_layout_handles env_one_frame"
    by (simp add: valid_layout_handles_def env_one_frame_def env_boot_def VK_NULL_HANDLE_def)
  from createPipeline_preconditions_hold[of env_out_of_date app_running 0] 1
  have 3: "\<not> is_assertion_failure (error_of (drawFrame env_out_of_date app_running))"
    by blast
  from createPipeline_preconditions_hold[of env_one_frame app_running 0] 2
  have 4: "\<not> is_assertion_failure (error_of (VreApp_main env_one_frame 0))"
    by blast
  from 1 2 3 4 drawFrame_out_of_date_eval VreApp_main_one_frame_eval show ?thesis by blast
qed

subsection \<open>C10: the count that is freed\<close>

text \<open>
  C10. The count \<^verbatim>\<open>freeCommandBuffers\<close> hands to \<^verbatim>\<open>vkFreeCommandBuffers\<close> goes through
  \<^verbatim>\<open>float\<close> and back to \<^verbatim>\<open>uint32_t\<close>. For every set whose size is exactly
  representable in binary32 (a 24-bit significand times a power of two) and fits the
  32-bit count parameter (is below \<open>2^32\<close>), the count freed equals the size of the set;
  in particular for every size below \<open>2^24\<close>.
\<close>

theorem freeCommandBuffers_count:
  "((\<exists>m k. m < 2 ^ 24 \<and> length (commandBuffers s) = m * 2 ^ k) \<and>
      length (commandBuffers s) < 2 ^ 32 \<longrightarrow>
      trace (freeCommandBuffers s) =
        trace s @ [VkFreeCommandBuffers (Some (length (commandBuffers s))) (commandBuffers s)]) \<and>
   (length (commandBuffers s) < 2 ^ 24 \<longrightarrow>
      trace (freeCommandBuffers s) =
        trace s @ [VkFreeCommandBuffers (Some (length (commandBuffers s))) (commandBuffers s)])"
proof (intro conjI impI)
  assume "(\<exists>m k. m < 2 ^ 24 \<and> length (commandBuffers s) = m * 2 ^ k) \<and>
      length (commandBuffers s) < 2 ^ 32"
  then obtain m k where "m < 2 ^ 24" "length (commandBuffers s) = m * 2 ^ k"
    "m * 2 ^ k < 2 ^ 32" by auto
  with count_exact[of m k]
  show "trace (freeCommandBuffers s) =
        trace s @ [VkFreeCommandBuffers (Some (length (commandBuffers s))) (commandBuffers s)]"
    by (simp add: freeCommandBuffers_trace)
next
  assume "length (commandBuffers s) < 2 ^ 24"
  with count_exact[of "length (commandBuffers s)" 0]
  show "trace (freeCommandBuffers s) =
        trace s @ [VkFreeCommandBuffers (Some (length (commandBuffers s))) (commandBuffers s)]"
    by (simp add: freeCommandBuffers_trace)
qed

theorem freeCommandBuffers_count_witness:
  "(3::nat) < 2 ^ 24 \<and> length (commandBuffers app_running) = 3 * 2 ^ 0 \<and>
   length (commandBuffers app_running) < 2 ^ 32 \<and>
   trace (freeCommandBuffers app_running) = [VkFreeCommandBuffers (Some 3) [50, 51, 52]]"
proof -
  have l: "length (commandBuffers app_running) = 3 * 2 ^ 0" "commandBuffers app_running = [50, 51, 52]"
    "trace app_running = []"
    by (simp_all add: app_running_def)
  then have "(\<exists>m k. m < 2 ^ 24 \<and> length (commandBuffers app_running) = m * 2 ^ k) \<and>
      length (commandBuffers app_running) < 2 ^ 32"
    by (intro conjI exI[of _ 3] exI[of _ 0]) simp_all
  with freeCommandBuffers_count[of app_running] l show ?thesis by simp
qed

text \<open>
  A set of \<open>2^32\<close> command buffers: the size is \<open>1 * 2^32\<close>, exactly representable, but the
  conversion of 4294967296.0 to \<^verbatim>\<open>uint32_t\<close> is undefined, and no \<^verbatim>\<open>uint32_t\<close> equals
  the size.
\<close>

theorem freeCommandBuffers_count_counterexample:
  "(1::nat) < 2 ^ 24 \<and> length (commandBuffers app_huge) = 1 * 2 ^ 32 \<and>
   trace (freeCommandBuffers app_huge) =
     trace app_huge @ [VkFreeCommandBuffers None (commandBuffers app_huge)] \<and>
   trace (freeCommandBuffers app_huge) \<noteq>
     trace app_huge @
       [VkFreeCommandBuffers (Some (length (commandBuffers app_huge))) (commandBuffers app_huge)]"
proof -
  have l: "length (commandBuffers app_huge) = 4294967296"
    by (simp add: app_huge_def)
  have "to_float 4294967296 = 4294967296"
    using round_to_float_exact[of 1 32] by (simp add: to_float_def)
  then have "float_to_uint32 (to_float 4294967296) = None"
    by (simp add: float_to_uint32_def)
  with l show ?thesis by (simp add: freeCommandBuffers_trace)
qed

text \<open>
  Beyond \<open>2^24\<close> the count can differ from the size: of \<open>2^24 + 1\<close> command buffers,
  \<open>2^24\<close> are handed to the pool.
\<close>

lemma freeCommandBuffers_count_inexact:
  "length (commandBuffers app_odd) = 16777217 \<and>
   trace (freeCommandBuffers app_odd) =
     trace app_odd @ [VkFreeCommandBuffers (Some 16777216) (commandBuffers app_odd)]"
proof -
  have l: "length (commandBuffers app_odd) = 16777217"
    by (simp add: app_odd_def)
  have "bitlen 16777217 = 25" by (simp add: bitlen_pos)
  then have "round_to_float 16777217 = 16777216"
    by (simp add: round_to_float_def)
  then have "to_float 16777217 = of_nat 16777216" by (simp only: to_float_def)
  then have "float_to_uint32 (to_float 16777217) = Some 16777216"
    by (simp only: float_to_uint32_of_nat) simp
  with l show ?thesis by (simp add: freeCommandBuffers_trace)
qed

end
